theory Spec2Isabelle
  imports Main "HOL-Library.Sublist"
begin

section \<open>The shared tables of the Asl compiler core\<close>

text \<open>
  The three visitors under \<^verbatim>\<open>src/Examen_final\<close> (\<^verbatim>\<open>SymbolsVisitor\<close>,
  \<^verbatim>\<open>TypeCheckVisitor\<close>, \<^verbatim>\<open>CodeGenVisitor\<close>) work on four tables whose
  classes live in \<^verbatim>\<open>../common\<close>, which is not part of the sources at hand:
  \<^verbatim>\<open>TypesMgr\<close>, \<^verbatim>\<open>SymTable\<close>, \<^verbatim>\<open>TreeDecoration\<close> and \<^verbatim>\<open>SemErrors\<close>,
  plus the instruction classes of \<^verbatim>\<open>code.h\<close>. Those are modelled from the
  specification; the visitors are translated from their C++ text.
\<close>

subsection \<open>Fatal outcomes\<close>

text \<open>
  Every way a visitor can stop without a result. \<open>ProcessExit\<close> is the explicit
  \<^verbatim>\<open>exit(0)\<close> of the code generator and \<open>OutOfRange\<close> the exception
  \<^verbatim>\<open>std::out_of_range\<close> that \<^verbatim>\<open>std::string::substr\<close> and \<^verbatim>\<open>std::stoi\<close>
  throw and no visitor catches. The other values are the internal invariant
  violations of the specification: reading a decoration that was never written
  (the key is the node, \<open>None\<close> for a null node pointer), asking the type
  manager for a component a type does not have, and misuse of the symbol table.
\<close>

datatype abort =
    ProcessExit
  | UnsetScope "nat option"
  | UnsetType "nat option"
  | UnsetIsLValue "nat option"
  | BadTypeQuery
  | BadSymbolQuery
  | OutOfRange

definition bnd :: "abort + 'a \<Rightarrow> ('a \<Rightarrow> abort + 'b) \<Rightarrow> abort + 'b" where
  "bnd m f = (case m of Inl a \<Rightarrow> Inl a | Inr x \<Rightarrow> f x)"

subsection \<open>TypesMgr\<close>

text \<open>
  Modelled from the spec: \<^verbatim>\<open>TypesMgr\<close> (common/TypesMgr.h is missing). Types are
  interned, so two equal structural descriptions are the same \<^verbatim>\<open>TypeId\<close>; the
  model takes the structural description itself as the identifier. The constructor
  names follow \<^verbatim>\<open>createIntegerTy\<close>, \<^verbatim>\<open>createArrayTy(size, elem)\<close>,
  \<^verbatim>\<open>createFunctionTy(params, ret)\<close> and so on.
\<close>

datatype Type =
    IntegerTy
  | FloatTy
  | BooleanTy
  | CharacterTy
  | VoidTy
  | ErrorTy
  | ArrayTy nat Type
  | FunctionTy "Type list" Type

text \<open>
  Modelled from the spec: the shape tests of the type manager, one for each kind
  of type of the data model.
\<close>

definition isErrorTy :: "Type \<Rightarrow> bool" where
  "isErrorTy t = (t = ErrorTy)"

definition isIntegerTy :: "Type \<Rightarrow> bool" where
  "isIntegerTy t = (t = IntegerTy)"

definition isFloatTy :: "Type \<Rightarrow> bool" where
  "isFloatTy t = (t = FloatTy)"

definition isBooleanTy :: "Type \<Rightarrow> bool" where
  "isBooleanTy t = (t = BooleanTy)"

definition isCharacterTy :: "Type \<Rightarrow> bool" where
  "isCharacterTy t = (t = CharacterTy)"

definition isVoidTy :: "Type \<Rightarrow> bool" where
  "isVoidTy t = (t = VoidTy)"

fun isArrayTy :: "Type \<Rightarrow> bool" where
  "isArrayTy (ArrayTy n e) = True"
| "isArrayTy t = False"

fun isFunctionTy :: "Type \<Rightarrow> bool" where
  "isFunctionTy (FunctionTy ps r) = True"
| "isFunctionTy t = False"

text \<open>Modelled from the spec: \<open>isPrimitive\<close>, the four primitives of the data model.\<close>

definition isPrimitiveTy :: "Type \<Rightarrow> bool" where
  "isPrimitiveTy t = (t = IntegerTy \<or> t = FloatTy \<or> t = BooleanTy \<or> t = CharacterTy)"

text \<open>Modelled from the spec: \<open>isNumeric\<close> (Integer or Float).\<close>

definition isNumericTy :: "Type \<Rightarrow> bool" where
  "isNumericTy t = (t = IntegerTy \<or> t = FloatTy)"

text \<open>Modelled from the spec: \<open>isVoidFunction\<close> (a Function whose ret is Void).\<close>

fun isVoidFunction :: "Type \<Rightarrow> bool" where
  "isVoidFunction (FunctionTy ps r) = (r = VoidTy)"
| "isVoidFunction t = False"

text \<open>Modelled from the spec: \<open>equalTypes(a,b)\<close> iff identical interned id.\<close>

definition equalTypes :: "Type \<Rightarrow> Type \<Rightarrow> bool" where
  "equalTypes a b = (a = b)"

text \<open>
  Modelled from the spec: \<open>copyable(dst,src)\<close> iff \<open>equalTypes\<close>, or dst is Float
  and src is Integer, or both are arrays with equal element type and equal size.
\<close>

definition copyableTypes :: "Type \<Rightarrow> Type \<Rightarrow> bool" where
  "copyableTypes dst src =
     (equalTypes dst src \<or> (dst = FloatTy \<and> src = IntegerTy) \<or>
      (case (dst, src) of
         (ArrayTy n d, ArrayTy m e) \<Rightarrow> d = e \<and> n = m
       | _ \<Rightarrow> False))"

text \<open>
  Modelled from the spec: the components of a type (element type and size of an
  array; return type, arity and parameter types of a function). The spec names the
  queries and says nothing of a query on a type of the wrong shape; the model makes
  that case a fatal outcome.
\<close>

fun getArrayElemType :: "Type \<Rightarrow> abort + Type" where
  "getArrayElemType (ArrayTy n e) = Inr e"
| "getArrayElemType t = Inl BadTypeQuery"

fun getArraySize :: "Type \<Rightarrow> abort + nat" where
  "getArraySize (ArrayTy n e) = Inr n"
| "getArraySize t = Inl BadTypeQuery"

fun getFuncReturnType :: "Type \<Rightarrow> abort + Type" where
  "getFuncReturnType (FunctionTy ps r) = Inr r"
| "getFuncReturnType t = Inl BadTypeQuery"

fun getNumOfParameters :: "Type \<Rightarrow> abort + nat" where
  "getNumOfParameters (FunctionTy ps r) = Inr (length ps)"
| "getNumOfParameters t = Inl BadTypeQuery"

fun getParameterType :: "Type \<Rightarrow> nat \<Rightarrow> abort + Type" where
  "getParameterType (FunctionTy ps r) i = (if i < length ps then Inr (ps ! i) else Inl BadTypeQuery)"
| "getParameterType t i = Inl BadTypeQuery"

text \<open>Modelled from the spec: \<open>sizeOf\<close>, primitives 1 and \<open>Array(n,e)\<close> = n * sizeOf(e).\<close>

fun getSizeOfType :: "Type \<Rightarrow> abort + nat" where
  "getSizeOfType (ArrayTy n e) = bnd (getSizeOfType e) (\<lambda>k. Inr (n * k))"
| "getSizeOfType t = (if isPrimitiveTy t then Inr 1 else Inl BadTypeQuery)"

subsection \<open>Operator tokens\<close>

text \<open>
  The visitors test which operator token a node holds (\<^verbatim>\<open>ctx->MUL()\<close>,
  \<^verbatim>\<open>ctx->NOT()\<close>, \<^verbatim>\<open>ctx->EQUAL()\<close>, ...). One datatype per rule of the grammar.
\<close>

datatype unary_op = NOT_op | PLUS_un | MINUS_un

datatype arith_op = MUL_op | DIV_op | MOD_op | PLUS_op | MINUS_op

datatype rel_op = EQUAL_op | DIFF_op | LS_op | BS_op | LE_op | BE_op

datatype bool_op = AND_op | OR_op

text \<open>
  Modelled from the spec: \<open>comparable(a,b,op)\<close>; for equality and difference,
  \<open>equalTypes\<close> or both numeric; for the four orderings, both numeric.
\<close>

definition comparableTypes :: "Type \<Rightarrow> Type \<Rightarrow> rel_op \<Rightarrow> bool" where
  "comparableTypes a b oper =
     (if oper = EQUAL_op \<or> oper = DIFF_op
      then equalTypes a b \<or> (isNumericTy a \<and> isNumericTy b)
      else isNumericTy a \<and> isNumericTy b)"

subsection \<open>SymTable\<close>

text \<open>
  Modelled from the spec: \<^verbatim>\<open>SymTable\<close> (common/SymTable.h is missing). Scopes are
  created once and persist; the stack holds the identifiers of the scopes entered,
  the current one first. A symbol carries its name, its kind and its type.
\<close>

datatype SymClass = LocalVarClass | ParameterClass | FunctionClass

type_synonym Symbol = "string \<times> SymClass \<times> Type"

record Scope =
  scopeName :: string
  symbols :: "Symbol list"

record SymTable =
  vectorScopes :: "Scope list"
  scopeStack :: "nat list"

text \<open>
  Modelled from the spec: the scope operations. \<open>pushNewScope\<close> creates a scope
  with no symbol and enters it, \<open>pushThisScope\<close> enters a scope created before,
  \<open>popScope\<close> leaves the current one, which stays in the table.
\<close>

definition GLOBAL_SCOPE_NAME :: string where
  "GLOBAL_SCOPE_NAME = ''$global$''"

definition emptySymTable :: SymTable where
  "emptySymTable = \<lparr>vectorScopes = [], scopeStack = []\<rparr>"

definition pushNewScope :: "string \<Rightarrow> SymTable \<Rightarrow> nat \<times> SymTable" where
  "pushNewScope name S =
     (length (vectorScopes S),
      \<lparr>vectorScopes = vectorScopes S @ [\<lparr>scopeName = name, symbols = []\<rparr>],
       scopeStack = length (vectorScopes S) # scopeStack S\<rparr>)"

definition pushThisScope :: "nat \<Rightarrow> SymTable \<Rightarrow> abort + SymTable" where
  "pushThisScope sc S =
     (if sc < length (vectorScopes S) then Inr (S\<lparr>scopeStack := sc # scopeStack S\<rparr>)
      else Inl BadSymbolQuery)"

definition popScope :: "SymTable \<Rightarrow> abort + SymTable" where
  "popScope S =
     (case scopeStack S of
        [] \<Rightarrow> Inl BadSymbolQuery
      | sc # below \<Rightarrow> Inr (S\<lparr>scopeStack := below\<rparr>))"

text \<open>
  Modelled from the spec: \<open>findInCurrentScope(name)\<close> looks at the scope on top
  of the stack only.
\<close>

definition findInScope :: "SymTable \<Rightarrow> nat \<Rightarrow> string \<Rightarrow> (SymClass \<times> Type) option" where
  "findInScope S sc ident =
     (if sc < length (vectorScopes S) then map_of (symbols (vectorScopes S ! sc)) ident
      else None)"

definition findInCurrentScope :: "SymTable \<Rightarrow> string \<Rightarrow> bool" where
  "findInCurrentScope S ident =
     (case scopeStack S of
        [] \<Rightarrow> False
      | sc # below \<Rightarrow> findInScope S sc ident \<noteq> None)"

text \<open>
  Modelled from the spec: the walk from the top of the stack to the global scope,
  which stops at the first scope that has the name.
\<close>

fun findSymbol :: "SymTable \<Rightarrow> nat list \<Rightarrow> string \<Rightarrow> (nat \<times> SymClass \<times> Type) option" where
  "findSymbol S [] ident = None"
| "findSymbol S (sc # below) ident =
     (case findInScope S sc ident of
        Some (k, t) \<Rightarrow> Some (length below, k, t)
      | None \<Rightarrow> findSymbol S below ident)"

text \<open>
  Modelled from the spec: \<open>findInStack(name)\<close>, the index in the stack of the
  scope found, or \<open>-1\<close>; and the three queries on the symbol found,
  \<open>getType\<close>, \<open>isFunctionClass\<close> and \<open>isParameterClass\<close>.
\<close>

definition findInStack :: "SymTable \<Rightarrow> string \<Rightarrow> int" where
  "findInStack S ident =
     (case findSymbol S (scopeStack S) ident of
        None \<Rightarrow> - 1
      | Some (i, k, t) \<Rightarrow> int i)"

definition getType :: "SymTable \<Rightarrow> string \<Rightarrow> abort + Type" where
  "getType S ident =
     (case findSymbol S (scopeStack S) ident of
        None \<Rightarrow> Inl BadSymbolQuery
      | Some (i, k, t) \<Rightarrow> Inr t)"

definition isFunctionClass :: "SymTable \<Rightarrow> string \<Rightarrow> bool" where
  "isFunctionClass S ident =
     (case findSymbol S (scopeStack S) ident of
        None \<Rightarrow> False
      | Some (i, k, t) \<Rightarrow> k = FunctionClass)"

definition isParameterClass :: "SymTable \<Rightarrow> string \<Rightarrow> bool" where
  "isParameterClass S ident =
     (case findSymbol S (scopeStack S) ident of
        None \<Rightarrow> False
      | Some (i, k, t) \<Rightarrow> k = ParameterClass)"

text \<open>
  Modelled from the spec: \<open>addLocalVar\<close>, \<open>addParameter\<close>, \<open>addFunction\<close>.
  Each fails when the current
  scope has the name already (\<open>AlreadyDeclared\<close>), and when no scope is entered.
\<close>

definition addSymbol :: "SymClass \<Rightarrow> string \<Rightarrow> Type \<Rightarrow> SymTable \<Rightarrow> abort + SymTable" where
  "addSymbol k ident t S =
     (case scopeStack S of
        [] \<Rightarrow> Inl BadSymbolQuery
      | sc # below \<Rightarrow>
          if sc < length (vectorScopes S) \<and> findInScope S sc ident = None
          then Inr (S\<lparr>vectorScopes :=
                 (vectorScopes S)[sc := (vectorScopes S ! sc)
                    \<lparr>symbols := symbols (vectorScopes S ! sc) @ [(ident, k, t)]\<rparr>]\<rparr>)
          else Inl BadSymbolQuery)"

definition addLocalVar :: "string \<Rightarrow> Type \<Rightarrow> SymTable \<Rightarrow> abort + SymTable" where
  "addLocalVar = addSymbol LocalVarClass"

definition addParameter :: "string \<Rightarrow> Type \<Rightarrow> SymTable \<Rightarrow> abort + SymTable" where
  "addParameter = addSymbol ParameterClass"

definition addFunction :: "string \<Rightarrow> Type \<Rightarrow> SymTable \<Rightarrow> abort + SymTable" where
  "addFunction = addSymbol FunctionClass"

text \<open>
  Modelled from the spec: \<open>noMainProperlyDeclared()\<close>, true unless the global
  scope (the bottom of the stack) has a function \<open>main\<close> with no parameter and
  return type Void.
\<close>

definition noMainProperlyDeclared :: "SymTable \<Rightarrow> bool" where
  "noMainProperlyDeclared S =
     (case scopeStack S of
        [] \<Rightarrow> True
      | sc # below \<Rightarrow>
          findInScope S (last (sc # below)) ''main'' \<noteq> Some (FunctionClass, FunctionTy [] VoidTy))"

subsection \<open>TreeDecoration and SemErrors\<close>

text \<open>
  Modelled from the spec: \<^verbatim>\<open>TreeDecoration\<close> (common/TreeDecoration.h is missing).
  A side table from node identities to a scope, a type and an l-value flag. An
  absent entry means "not yet decorated", and reading one is a programming error:
  the getters below end in a fatal outcome that names the node.
\<close>

record TreeDecoration =
  scopeDecor :: "nat \<rightharpoonup> nat"
  typeDecor :: "nat \<rightharpoonup> Type"
  isLValueDecor :: "nat \<rightharpoonup> bool"

text \<open>
  Modelled from the spec: the empty table, the three getters with their fatal
  outcome on an absent entry, and the three setters, which overwrite.
\<close>

definition noDecorations :: TreeDecoration where
  "noDecorations = \<lparr>scopeDecor = Map.empty, typeDecor = Map.empty, isLValueDecor = Map.empty\<rparr>"

definition getScope :: "TreeDecoration \<Rightarrow> nat \<Rightarrow> abort + nat" where
  "getScope D n = (case scopeDecor D n of None \<Rightarrow> Inl (UnsetScope (Some n)) | Some sc \<Rightarrow> Inr sc)"

definition getType_d :: "TreeDecoration \<Rightarrow> nat \<Rightarrow> abort + Type" where
  "getType_d D n = (case typeDecor D n of None \<Rightarrow> Inl (UnsetType (Some n)) | Some t \<Rightarrow> Inr t)"

definition getIsLValue :: "TreeDecoration \<Rightarrow> nat \<Rightarrow> abort + bool" where
  "getIsLValue D n =
     (case isLValueDecor D n of None \<Rightarrow> Inl (UnsetIsLValue (Some n)) | Some b \<Rightarrow> Inr b)"

definition putScope :: "nat \<Rightarrow> nat \<Rightarrow> TreeDecoration \<Rightarrow> TreeDecoration" where
  "putScope n sc D = D\<lparr>scopeDecor := (scopeDecor D)(n \<mapsto> sc)\<rparr>"

definition putType :: "nat \<Rightarrow> Type \<Rightarrow> TreeDecoration \<Rightarrow> TreeDecoration" where
  "putType n t D = D\<lparr>typeDecor := (typeDecor D)(n \<mapsto> t)\<rparr>"

definition putIsLValue :: "nat \<Rightarrow> bool \<Rightarrow> TreeDecoration \<Rightarrow> TreeDecoration" where
  "putIsLValue n b D = D\<lparr>isLValueDecor := (isLValueDecor D)(n \<mapsto> b)\<rparr>"

text \<open>
  Modelled from the spec: \<^verbatim>\<open>SemErrors\<close> (common/SemErrors.h is missing), an
  append-only log. A diagnostic is its kind and the tree node it points at; where
  the C++ passes a token (\<^verbatim>\<open>ctx->ID()\<close>, \<^verbatim>\<open>ctx->op\<close>, \<^verbatim>\<open>ctx->ASSIGN()\<close>), the
  model records the node that owns the token. \<open>IncompatibleParameter\<close> keeps the
  parameter number and the call node it is given.
\<close>

datatype SemErrorKind =
    DeclaredIdent
  | UndeclaredIdent
  | NonReferenceableLeftExpr
  | IncompatibleAssignment
  | BooleanRequired
  | ReadWriteRequireBasic
  | NonReferenceableExpression
  | IncompatibleReturn
  | IncompatibleArgumentsInSwap
  | IncompatibleValueInSwitch
  | NonArrayInArrayAccess
  | NonIntegerIndexInArrayAccess
  | IncompatibleOperator
  | IsNotCallable
  | IsNotFunction
  | NumberOfParameters
  | IncompatibleParameter nat nat
  | NoMainProperlyDeclared

type_synonym SemError = "SemErrorKind \<times> nat"

section \<open>The parse tree\<close>

text \<open>
  The tree the parser hands over (\<^verbatim>\<open>AslParser::*Context\<close>). Every node that a
  visitor decorates carries its identity, a natural number standing for the node's
  address; tokens carry their text. The alternatives of \<open>expr\<close> and \<open>statement\<close>
  are the labelled alternatives the visitors have a method for.
\<close>

datatype ident = Ident nat string

datatype value_tok = INTVAL | FLOATVAL | CHARVAL | BOOLVAL

datatype expr =
    Parenthesis nat expr
  | ArrayIndex nat ident expr
  | FuncCall nat ident "expr list"
  | Unary nat unary_op expr
  | Arithmetic nat arith_op expr expr
  | Relational nat rel_op expr expr
  | Boolean nat bool_op expr expr
  | Value_e nat value_tok string
  | ExprIdent nat ident

datatype left_expr = Left_expr nat ident "expr option"

fun ident_id :: "ident \<Rightarrow> nat" where
  "ident_id (Ident k x) = k"

fun ident_text :: "ident \<Rightarrow> string" where
  "ident_text (Ident k x) = x"

fun expr_id :: "expr \<Rightarrow> nat" where
  "expr_id (Parenthesis n e) = n"
| "expr_id (ArrayIndex n a e) = n"
| "expr_id (FuncCall n f es) = n"
| "expr_id (Unary n oper e) = n"
| "expr_id (Arithmetic n oper e1 e2) = n"
| "expr_id (Relational n oper e1 e2) = n"
| "expr_id (Boolean n oper e1 e2) = n"
| "expr_id (Value_e n k txt) = n"
| "expr_id (ExprIdent n x) = n"

fun left_expr_id :: "left_expr \<Rightarrow> nat" where
  "left_expr_id (Left_expr n x e) = n"


datatype statement =
    AssignStmt nat left_expr expr
  | IfStmt nat expr "statement list" "statement list option"
  | WhileStmt nat expr "statement list"
  | ProcCall nat ident "expr list"
  | ReadStmt nat left_expr
  | WriteExpr nat expr
  | WriteString nat string
  | ReturnExpr nat "expr option"
  | SwapExpr nat left_expr left_expr
  | SwitchExpr nat expr "(expr \<times> statement list) list" "statement list option"

text \<open>
  Declarations. The \<^verbatim>\<open>INTVAL\<close> token of an array type is a string of decimal
  digits; \<open>Array_type n v b\<close> holds the number \<open>v\<close> those digits denote, of
  any size. A \<open>type\<close> node has one child, a basic type
  or an array type. The return type of a function is an optional basic type:
  \<open>None\<close> is the null pointer \<^verbatim>\<open>ctx->basic_type()\<close> gives when it is absent.
\<close>

datatype basic_tok = INT_tok | BOOL_tok | CHAR_tok | FLOAT_tok

datatype basic_type = Basic_type nat basic_tok

datatype array_type = Array_type nat nat basic_type

datatype type_node = Type_basic nat basic_type | Type_array nat array_type

datatype parameter_decl = Parameter_decl nat string type_node

datatype variable_decl = Variable_decl nat "string list" type_node

datatype function_node =
  Function nat string "parameter_decl list" "basic_type option" "variable_decl list" "statement list"

datatype program = Program nat "function_node list"

fun basic_type_id :: "basic_type \<Rightarrow> nat" where
  "basic_type_id (Basic_type n k) = n"

fun array_type_id :: "array_type \<Rightarrow> nat" where
  "array_type_id (Array_type n sz b) = n"

fun type_id :: "type_node \<Rightarrow> nat" where
  "type_id (Type_basic n b) = n"
| "type_id (Type_array n a) = n"

fun parameter_decl_id :: "parameter_decl \<Rightarrow> nat" where
  "parameter_decl_id (Parameter_decl n x ty) = n"


section \<open>TypeCheckVisitor\<close>

text \<open>
  The state the type checker changes: the decorations and the error log. The
  symbol table is only read while expressions and statements are visited, and is
  a parameter there.
\<close>

record pass_state =
  Decorations :: TreeDecoration
  Errors :: "SemError list"

definition getScopeDecor :: "pass_state \<Rightarrow> nat \<Rightarrow> abort + nat" where
  "getScopeDecor s n = getScope (Decorations s) n"

definition getTypeDecor :: "pass_state \<Rightarrow> nat \<Rightarrow> abort + Type" where
  "getTypeDecor s n = getType_d (Decorations s) n"

definition getIsLValueDecor :: "pass_state \<Rightarrow> nat \<Rightarrow> abort + bool" where
  "getIsLValueDecor s n = getIsLValue (Decorations s) n"

definition putScopeDecor :: "nat \<Rightarrow> nat \<Rightarrow> pass_state \<Rightarrow> pass_state" where
  "putScopeDecor n sc s = s\<lparr>Decorations := putScope n sc (Decorations s)\<rparr>"

definition putTypeDecor :: "nat \<Rightarrow> Type \<Rightarrow> pass_state \<Rightarrow> pass_state" where
  "putTypeDecor n t s = s\<lparr>Decorations := putType n t (Decorations s)\<rparr>"

definition putIsLValueDecor :: "nat \<Rightarrow> bool \<Rightarrow> pass_state \<Rightarrow> pass_state" where
  "putIsLValueDecor n b s = s\<lparr>Decorations := putIsLValue n b (Decorations s)\<rparr>"

text \<open>\<^verbatim>\<open>Errors.kind(node)\<close>: one more diagnostic at the end of the log.\<close>

definition report :: "SemErrorKind \<Rightarrow> nat \<Rightarrow> pass_state \<Rightarrow> pass_state" where
  "report k n s = s\<lparr>Errors := Errors s @ [(k, n)]\<rparr>"

subsection \<open>Identifiers and expressions\<close>

text \<open>\<^verbatim>\<open>TypeCheckVisitor::visitIdent\<close>.\<close>

fun visitIdent_tc :: "SymTable \<Rightarrow> ident \<Rightarrow> pass_state \<Rightarrow> abort + pass_state" where
  "visitIdent_tc S (Ident k ident) s =
     (if findInStack S ident = - 1
      then Inr (putIsLValueDecor k True (putTypeDecor k ErrorTy (report UndeclaredIdent k s)))
      else bnd (getType S ident) (\<lambda>t.
           Inr (putIsLValueDecor k (\<not> isFunctionClass S ident) (putTypeDecor k t s))))"

text \<open>
  The expression visitors: \<^verbatim>\<open>visitParenthesis\<close>, \<^verbatim>\<open>visitArrayIndex\<close>,
  \<^verbatim>\<open>visitFuncCall\<close>, \<^verbatim>\<open>visitUnary\<close>, \<^verbatim>\<open>visitArithmetic\<close>, \<^verbatim>\<open>visitRelational\<close>,
  \<^verbatim>\<open>visitBoolean\<close>, \<^verbatim>\<open>visitValue\<close> and \<^verbatim>\<open>visitExprIdent\<close>, one equation each.
  \<open>visitParams_tc\<close> is the loop over the arguments of a call
  (\<^verbatim>\<open>for (auto e : ctx->expr())\<close>, with its counter \<open>i\<close>), which
  \<^verbatim>\<open>visitFuncCall\<close> and \<^verbatim>\<open>visitProcCall\<close> both contain with the same text.
\<close>

fun visitExpr_tc :: "SymTable \<Rightarrow> expr \<Rightarrow> pass_state \<Rightarrow> abort + pass_state"
  and visitParams_tc ::
    "SymTable \<Rightarrow> nat \<Rightarrow> Type \<Rightarrow> bool \<Rightarrow> nat \<Rightarrow> expr list \<Rightarrow> pass_state \<Rightarrow> abort + pass_state"
where
  "visitExpr_tc S (Parenthesis n e) s =
     bnd (visitExpr_tc S e s) (\<lambda>s1.
     bnd (getTypeDecor s1 (expr_id e)) (\<lambda>t1.
     Inr (putIsLValueDecor n False (putTypeDecor n t1 s1))))"
| "visitExpr_tc S (ArrayIndex n a e) s =
     bnd (visitIdent_tc S a s) (\<lambda>s1.
     bnd (getTypeDecor s1 (ident_id a)) (\<lambda>tID.
     bnd (getIsLValueDecor s1 (ident_id a)) (\<lambda>b.
     let s2 = (if \<not> isErrorTy tID \<and> \<not> isArrayTy tID
               then report NonArrayInArrayAccess n s1 else s1)
     in
     bnd (if isArrayTy tID
          then bnd (getArrayElemType tID) (\<lambda>te. Inr (putTypeDecor n te s2))
          else Inr s2) (\<lambda>s3.
     bnd (visitExpr_tc S e (putIsLValueDecor n b s3)) (\<lambda>s4.
     bnd (getTypeDecor s4 (expr_id e)) (\<lambda>t1.
     Inr (if \<not> isErrorTy t1 \<and> \<not> isIntegerTy t1
          then report NonIntegerIndexInArrayAccess (expr_id e) s4 else s4)))))))"
| "visitExpr_tc S (FuncCall n f es) s =
     bnd (visitIdent_tc S f s) (\<lambda>s1.
     bnd (getTypeDecor s1 (ident_id f)) (\<lambda>tID.
     let error0 = (\<not> isFunctionTy tID \<and> \<not> isErrorTy tID);
         s2 = (if error0 then report IsNotCallable (ident_id f) s1 else s1)
     in
     bnd (if isFunctionTy tID
          then bnd (getFuncReturnType tID) (\<lambda>tf.
               let s3 = (if isVoidTy tf then report IsNotFunction (ident_id f) s2
                         else putTypeDecor n tf s2);
                   s4 = putIsLValueDecor n False s3
               in
               bnd (getNumOfParameters tID) (\<lambda>np.
               if np \<noteq> length es then Inr (report NumberOfParameters n s4, True)
               else Inr (s4, error0)))
          else Inr (s2, error0)) (\<lambda>(s5, error).
     visitParams_tc S n tID error 0 es s5)))"
| "visitExpr_tc S (Unary n oper e) s =
     bnd (visitExpr_tc S e s) (\<lambda>s1.
     bnd (getTypeDecor s1 (expr_id e)) (\<lambda>t1.
     Inr (putIsLValueDecor n False
       (if oper = NOT_op
        then putTypeDecor n BooleanTy
               (if \<not> isErrorTy t1 \<and> \<not> isBooleanTy t1
                then report IncompatibleOperator n s1 else s1)
        else
          (let s2 = (if \<not> isErrorTy t1 \<and> \<not> isNumericTy t1
                     then report IncompatibleOperator n s1 else s1)
           in if isNumericTy t1 then putTypeDecor n t1 s2
              else putTypeDecor n IntegerTy s2)))))"
| "visitExpr_tc S (Arithmetic n oper e1 e2) s =
     bnd (visitExpr_tc S e1 s) (\<lambda>s1.
     bnd (getTypeDecor s1 (expr_id e1)) (\<lambda>t1.
     bnd (visitExpr_tc S e2 s1) (\<lambda>s2.
     bnd (getTypeDecor s2 (expr_id e2)) (\<lambda>t2.
     let s3 = (if (\<not> isErrorTy t1 \<and> \<not> isNumericTy t1) \<or>
                  (\<not> isErrorTy t2 \<and> \<not> isNumericTy t2)
               then report IncompatibleOperator n s2 else s2);
         s4 = (if oper = MOD_op \<and> (isFloatTy t1 \<or> isFloatTy t2)
               then report IncompatibleOperator n s3 else s3);
         t = (if isFloatTy t1 \<or> isFloatTy t2 then FloatTy else IntegerTy)
     in Inr (putIsLValueDecor n False (putTypeDecor n t s4))))))"
| "visitExpr_tc S (Relational n oper e1 e2) s =
     bnd (visitExpr_tc S e1 s) (\<lambda>s1.
     bnd (getTypeDecor s1 (expr_id e1)) (\<lambda>t1.
     bnd (visitExpr_tc S e2 s1) (\<lambda>s2.
     bnd (getTypeDecor s2 (expr_id e2)) (\<lambda>t2.
     let s3 = (if \<not> isErrorTy t1 \<and> \<not> isErrorTy t2 \<and> \<not> comparableTypes t1 t2 oper
               then report IncompatibleOperator n s2 else s2)
     in Inr (putIsLValueDecor n False (putTypeDecor n BooleanTy s3))))))"
| "visitExpr_tc S (Boolean n oper e1 e2) s =
     bnd (visitExpr_tc S e1 s) (\<lambda>s1.
     bnd (getTypeDecor s1 (expr_id e1)) (\<lambda>t1.
     bnd (visitExpr_tc S e2 s1) (\<lambda>s2.
     bnd (getTypeDecor s2 (expr_id e2)) (\<lambda>t2.
     let s3 = (if (\<not> isErrorTy t1 \<and> \<not> isBooleanTy t1) \<or>
                  (\<not> isErrorTy t2 \<and> \<not> isBooleanTy t2)
               then report IncompatibleOperator n s2 else s2)
     in Inr (putIsLValueDecor n False (putTypeDecor n BooleanTy s3))))))"
| "visitExpr_tc S (Value_e n k txt) s =
     Inr (putIsLValueDecor n False
       (case k of
          INTVAL \<Rightarrow> putTypeDecor n IntegerTy s
        | FLOATVAL \<Rightarrow> putTypeDecor n FloatTy s
        | CHARVAL \<Rightarrow> putTypeDecor n CharacterTy s
        | BOOLVAL \<Rightarrow> putTypeDecor n BooleanTy s))"
| "visitExpr_tc S (ExprIdent n x) s =
     bnd (visitIdent_tc S x s) (\<lambda>s1.
     bnd (getTypeDecor s1 (ident_id x)) (\<lambda>t1.
     let s2 = putTypeDecor n t1 s1 in
     bnd (getIsLValueDecor s2 (ident_id x)) (\<lambda>b.
     Inr (putIsLValueDecor n b s2))))"
| "visitParams_tc S call tID error i [] s = Inr s"
| "visitParams_tc S call tID error i (e # es) s =
     bnd (visitExpr_tc S e s) (\<lambda>s1.
     bnd (if \<not> error \<and> \<not> isErrorTy tID
          then bnd (getParameterType tID i) (\<lambda>tp.
               bnd (getTypeDecor s1 (expr_id e)) (\<lambda>te.
               Inr (if \<not> isErrorTy tp \<and> \<not> isErrorTy te \<and> \<not> equalTypes tp te
                    then (if \<not> (isFloatTy tp \<and> isIntegerTy te)
                          then report (IncompatibleParameter (i + 1) call) (expr_id e) s1
                          else s1)
                    else s1)))
          else Inr s1) (\<lambda>s2.
     visitParams_tc S call tID error (i + 1) es s2))"

text \<open>\<^verbatim>\<open>TypeCheckVisitor::visitLeft_expr\<close>.\<close>

fun visitLeft_expr_tc :: "SymTable \<Rightarrow> left_expr \<Rightarrow> pass_state \<Rightarrow> abort + pass_state" where
  "visitLeft_expr_tc S (Left_expr n x None) s =
     bnd (visitIdent_tc S x s) (\<lambda>s1.
     bnd (getTypeDecor s1 (ident_id x)) (\<lambda>tID.
     bnd (getIsLValueDecor s1 (ident_id x)) (\<lambda>b.
     Inr (putIsLValueDecor n b (putTypeDecor n tID s1)))))"
| "visitLeft_expr_tc S (Left_expr n x (Some e)) s =
     bnd (visitIdent_tc S x s) (\<lambda>s1.
     bnd (getTypeDecor s1 (ident_id x)) (\<lambda>tID.
     bnd (getIsLValueDecor s1 (ident_id x)) (\<lambda>b.
     bnd (visitExpr_tc S e s1) (\<lambda>s2.
     bnd (getTypeDecor s2 (expr_id e)) (\<lambda>tEXPR.
     let nonArray = (\<not> isErrorTy tID \<and> \<not> isArrayTy tID);
         s3 = (if nonArray then report NonArrayInArrayAccess (ident_id x) s2 else s2);
         tID1 = (if nonArray then ErrorTy else tID);
         b1 = (if nonArray then False else b);
         synt_valid = (if nonArray then False else \<not> isErrorTy tID);
         s4 = (if \<not> isErrorTy tEXPR \<and> \<not> isIntegerTy tEXPR
               then report NonIntegerIndexInArrayAccess (expr_id e) s3 else s3)
     in
     bnd (if synt_valid then bnd (getArrayElemType tID1) (\<lambda>te. Inr (te, True))
          else Inr (tID1, b1)) (\<lambda>(t, b2).
     Inr (putIsLValueDecor n b2 (putTypeDecor n t s4))))))))"


subsection \<open>Statements\<close>

text \<open>
  The statement visitors: \<^verbatim>\<open>visitAssignStmt\<close>, \<^verbatim>\<open>visitReadStmt\<close>,
  \<^verbatim>\<open>visitWriteExpr\<close>, \<^verbatim>\<open>visitReturnExpr\<close>, \<^verbatim>\<open>visitSwapExpr\<close> and
  \<^verbatim>\<open>visitProcCall\<close> visit no statement. \<open>Tfunc\<close> is the attribute
  \<^verbatim>\<open>currFunctionType\<close>.
\<close>

definition visitAssignStmt_tc ::
    "SymTable \<Rightarrow> nat \<Rightarrow> left_expr \<Rightarrow> expr \<Rightarrow> pass_state \<Rightarrow> abort + pass_state" where
  "visitAssignStmt_tc S n le e s =
     bnd (visitLeft_expr_tc S le s) (\<lambda>s1.
     bnd (getTypeDecor s1 (left_expr_id le)) (\<lambda>t1.
     bnd (visitExpr_tc S e s1) (\<lambda>s2.
     bnd (getTypeDecor s2 (expr_id e)) (\<lambda>t2.
     bnd (if \<not> isErrorTy t1
          then bnd (getIsLValueDecor s2 (left_expr_id le)) (\<lambda>b.
               Inr (if \<not> b then report NonReferenceableLeftExpr (left_expr_id le) s2 else s2))
          else Inr s2) (\<lambda>s3.
     Inr (if \<not> isErrorTy t1 \<and> \<not> isErrorTy t2 \<and> \<not> copyableTypes t1 t2
          then report IncompatibleAssignment n s3 else s3))))))"

definition visitReadStmt_tc ::
    "SymTable \<Rightarrow> nat \<Rightarrow> left_expr \<Rightarrow> pass_state \<Rightarrow> abort + pass_state" where
  "visitReadStmt_tc S n le s =
     bnd (visitLeft_expr_tc S le s) (\<lambda>s1.
     bnd (getTypeDecor s1 (left_expr_id le)) (\<lambda>t1.
     let s2 = (if \<not> isErrorTy t1 \<and> \<not> isPrimitiveTy t1 \<and> \<not> isFunctionTy t1
               then report ReadWriteRequireBasic n s1 else s1)
     in
     if \<not> isErrorTy t1
     then bnd (getIsLValueDecor s2 (left_expr_id le)) (\<lambda>b.
          Inr (if \<not> b then report NonReferenceableExpression n s2 else s2))
     else Inr s2))"

definition visitWriteExpr_tc ::
    "SymTable \<Rightarrow> nat \<Rightarrow> expr \<Rightarrow> pass_state \<Rightarrow> abort + pass_state" where
  "visitWriteExpr_tc S n e s =
     bnd (visitExpr_tc S e s) (\<lambda>s1.
     bnd (getTypeDecor s1 (expr_id e)) (\<lambda>t1.
     Inr (if \<not> isErrorTy t1 \<and> \<not> isPrimitiveTy t1
          then report ReadWriteRequireBasic n s1 else s1)))"

definition visitReturnExpr_tc ::
    "SymTable \<Rightarrow> Type \<Rightarrow> nat \<Rightarrow> expr option \<Rightarrow> pass_state \<Rightarrow> abort + pass_state" where
  "visitReturnExpr_tc S Tfunc n eo s =
     bnd (getFuncReturnType Tfunc) (\<lambda>Tret.
     bnd (case eo of
            Some e \<Rightarrow>
              bnd (visitExpr_tc S e s) (\<lambda>s1.
              bnd (getTypeDecor s1 (expr_id e)) (\<lambda>Texpr. Inr (s1, Texpr)))
          | None \<Rightarrow> Inr (s, VoidTy)) (\<lambda>(s1, Texpr).
     Inr (if \<not> isErrorTy Texpr \<and> \<not> isErrorTy Tret \<and> \<not> copyableTypes Tret Texpr
          then report IncompatibleReturn n s1 else s1)))"

definition visitSwapExpr_tc ::
    "SymTable \<Rightarrow> nat \<Rightarrow> left_expr \<Rightarrow> left_expr \<Rightarrow> pass_state \<Rightarrow> abort + pass_state" where
  "visitSwapExpr_tc S n l0 l1 s =
     bnd (visitLeft_expr_tc S l0 s) (\<lambda>s1.
     bnd (getTypeDecor s1 (left_expr_id l0)) (\<lambda>t1.
     bnd (visitLeft_expr_tc S l1 s1) (\<lambda>s2.
     bnd (getTypeDecor s2 (left_expr_id l1)) (\<lambda>t2.
     Inr (if (\<not> isErrorTy t1 \<and> \<not> isErrorTy t2) \<and> \<not> equalTypes t1 t2
          then report IncompatibleArgumentsInSwap n s2 else s2)))))"

definition visitProcCall_tc ::
    "SymTable \<Rightarrow> nat \<Rightarrow> ident \<Rightarrow> expr list \<Rightarrow> pass_state \<Rightarrow> abort + pass_state" where
  "visitProcCall_tc S n f es s =
     bnd (visitIdent_tc S f s) (\<lambda>s1.
     bnd (getTypeDecor s1 (ident_id f)) (\<lambda>tID.
     let error0 = (\<not> isFunctionTy tID \<and> \<not> isErrorTy tID);
         s2 = (if error0 then report IsNotCallable (ident_id f) s1 else s1)
     in
     bnd (if isFunctionTy tID
          then bnd (getNumOfParameters tID) (\<lambda>np.
               if np \<noteq> length es then Inr (report NumberOfParameters n s2, True)
               else Inr (s2, error0))
          else Inr (s2, error0)) (\<lambda>(s3, error).
     visitParams_tc S n tID error 0 es s3)))"

text \<open>
  \<^verbatim>\<open>visitIfStmt\<close>, \<^verbatim>\<open>visitWhileStmt\<close> and \<^verbatim>\<open>visitSwitchExpr\<close> visit statement
  blocks; \<open>visitStatements_tc\<close> is \<^verbatim>\<open>visitStatements\<close> and \<open>visitCases_tc\<close> the
  loop of \<^verbatim>\<open>visitSwitchExpr\<close> over the case labels and their bodies.
\<close>

fun visitStatement_tc :: "SymTable \<Rightarrow> Type \<Rightarrow> statement \<Rightarrow> pass_state \<Rightarrow> abort + pass_state"
  and visitStatements_tc ::
    "SymTable \<Rightarrow> Type \<Rightarrow> statement list \<Rightarrow> pass_state \<Rightarrow> abort + pass_state"
  and visitCases_tc ::
    "SymTable \<Rightarrow> Type \<Rightarrow> Type \<Rightarrow> (expr \<times> statement list) list \<Rightarrow> pass_state \<Rightarrow> abort + pass_state"
where
  "visitStatement_tc S Tfunc (AssignStmt n le e) s = visitAssignStmt_tc S n le e s"
| "visitStatement_tc S Tfunc (IfStmt n e thens elses) s =
     bnd (visitExpr_tc S e s) (\<lambda>s1.
     bnd (getTypeDecor s1 (expr_id e)) (\<lambda>t1.
     let s2 = (if \<not> isErrorTy t1 \<and> \<not> isBooleanTy t1 then report BooleanRequired n s1 else s1)
     in
     bnd (visitStatements_tc S Tfunc thens s2) (\<lambda>s3.
     case elses of
       None \<Rightarrow> Inr s3
     | Some stms \<Rightarrow> visitStatements_tc S Tfunc stms s3)))"
| "visitStatement_tc S Tfunc (WhileStmt n e body) s =
     bnd (visitExpr_tc S e s) (\<lambda>s1.
     bnd (getTypeDecor s1 (expr_id e)) (\<lambda>t1.
     let s2 = (if \<not> isErrorTy t1 \<and> \<not> isBooleanTy t1 then report BooleanRequired n s1 else s1)
     in visitStatements_tc S Tfunc body s2))"
| "visitStatement_tc S Tfunc (ProcCall n f es) s = visitProcCall_tc S n f es s"
| "visitStatement_tc S Tfunc (ReadStmt n le) s = visitReadStmt_tc S n le s"
| "visitStatement_tc S Tfunc (WriteExpr n e) s = visitWriteExpr_tc S n e s"
| "visitStatement_tc S Tfunc (WriteString n str) s = Inr s"
| "visitStatement_tc S Tfunc (ReturnExpr n eo) s = visitReturnExpr_tc S Tfunc n eo s"
| "visitStatement_tc S Tfunc (SwapExpr n l0 l1) s = visitSwapExpr_tc S n l0 l1 s"
| "visitStatement_tc S Tfunc (SwitchExpr n e cases dflt) s =
     bnd (visitExpr_tc S e s) (\<lambda>s1.
     bnd (getTypeDecor s1 (expr_id e)) (\<lambda>t0.
     bnd (visitCases_tc S Tfunc t0 cases s1) (\<lambda>s2.
     case dflt of
       None \<Rightarrow> Inr s2
     | Some stms \<Rightarrow> visitStatements_tc S Tfunc stms s2)))"
| "visitStatements_tc S Tfunc [] s = Inr s"
| "visitStatements_tc S Tfunc (st # sts) s =
     bnd (visitStatement_tc S Tfunc st s) (\<lambda>s1. visitStatements_tc S Tfunc sts s1)"
| "visitCases_tc S Tfunc t0 [] s = Inr s"
| "visitCases_tc S Tfunc t0 ((ei, body) # cases) s =
     bnd (visitExpr_tc S ei s) (\<lambda>s1.
     bnd (getTypeDecor s1 (expr_id ei)) (\<lambda>ti.
     let s2 = (if (\<not> isErrorTy t0 \<and> \<not> isErrorTy ti) \<and> \<not> comparableTypes t0 ti EQUAL_op
               then report IncompatibleValueInSwitch (expr_id ei) s1 else s1)
     in
     bnd (visitStatements_tc S Tfunc body s2) (\<lambda>s3.
     visitCases_tc S Tfunc t0 cases s3)))"

subsection \<open>Functions and the program\<close>

text \<open>
  \<^verbatim>\<open>TypeCheckVisitor::visitFunction\<close> and \<^verbatim>\<open>visitProgram\<close>. The scope is entered
  with \<open>pushThisScope\<close> and left with \<open>popScope\<close>; nothing else touches the symbol
  table, so the table after the visit is the table before it and only the state
  is returned.
\<close>

fun visitFunction_tc :: "SymTable \<Rightarrow> function_node \<Rightarrow> pass_state \<Rightarrow> abort + pass_state" where
  "visitFunction_tc S (Function n name params ret decls stmts) s =
     bnd (getScopeDecor s n) (\<lambda>sc.
     bnd (getTypeDecor s n) (\<lambda>Tfunc.
     bnd (pushThisScope sc S) (\<lambda>S1.
     bnd (visitStatements_tc S1 Tfunc stmts s) (\<lambda>s1.
     bnd (popScope S1) (\<lambda>S2. Inr s1)))))"

fun visitFunctions_tc :: "SymTable \<Rightarrow> function_node list \<Rightarrow> pass_state \<Rightarrow> abort + pass_state" where
  "visitFunctions_tc S [] s = Inr s"
| "visitFunctions_tc S (f # fs) s =
     bnd (visitFunction_tc S f s) (\<lambda>s1. visitFunctions_tc S fs s1)"

fun visitProgram_tc :: "SymTable \<Rightarrow> program \<Rightarrow> pass_state \<Rightarrow> abort + pass_state" where
  "visitProgram_tc S (Program n fs) s =
     bnd (getScopeDecor s n) (\<lambda>sc.
     bnd (pushThisScope sc S) (\<lambda>S1.
     bnd (visitFunctions_tc S1 fs s) (\<lambda>s1.
     let s2 = (if noMainProperlyDeclared S1 then report NoMainProperlyDeclared n s1 else s1)
     in bnd (popScope S1) (\<lambda>S2. Inr s2))))"


section \<open>SymbolsVisitor\<close>

text \<open>
  The first pass changes the symbol table as well as the decorations and the error
  log: its visitors take and return the pair of both.
\<close>

text \<open>\<^verbatim>\<open>SymbolsVisitor::visitBasic_type\<close>, \<^verbatim>\<open>visitArray_type\<close> and \<^verbatim>\<open>visitType\<close>.\<close>

fun visitBasic_type_sym :: "basic_type \<Rightarrow> pass_state \<Rightarrow> pass_state" where
  "visitBasic_type_sym (Basic_type n k) s =
     (case k of
        INT_tok \<Rightarrow> putTypeDecor n IntegerTy s
      | BOOL_tok \<Rightarrow> putTypeDecor n BooleanTy s
      | CHAR_tok \<Rightarrow> putTypeDecor n CharacterTy s
      | FLOAT_tok \<Rightarrow> putTypeDecor n FloatTy s)"

text \<open>
  \<^verbatim>\<open>unsigned int size = stoi(ctx->INTVAL()->getText())\<close>: \<^verbatim>\<open>std::stoi\<close> gives an
  \<^verbatim>\<open>int\<close> and throws when the number is above \<^verbatim>\<open>INT_MAX\<close>; a number it
  accepts is not negative, so its conversion to \<^verbatim>\<open>unsigned int\<close> keeps it.
\<close>

definition INT_MAX :: nat where
  "INT_MAX = 2147483647"

definition stoi :: "nat \<Rightarrow> abort + nat" where
  "stoi v = (if v \<le> INT_MAX then Inr v else Inl OutOfRange)"

fun visitArray_type_sym :: "array_type \<Rightarrow> pass_state \<Rightarrow> abort + pass_state" where
  "visitArray_type_sym (Array_type n v b) s =
     bnd (stoi v) (\<lambda>sz.
     let s1 = visitBasic_type_sym b s in
     bnd (getTypeDecor s1 (basic_type_id b)) (\<lambda>tt.
     Inr (putTypeDecor n (ArrayTy sz tt) s1)))"

fun visitType_sym :: "type_node \<Rightarrow> pass_state \<Rightarrow> abort + pass_state" where
  "visitType_sym (Type_basic n b) s =
     (let s1 = visitBasic_type_sym b s in
      bnd (getTypeDecor s1 (basic_type_id b)) (\<lambda>t.
      Inr (putTypeDecor n t s1)))"
| "visitType_sym (Type_array n a) s =
     bnd (visitArray_type_sym a s) (\<lambda>s1.
     bnd (getTypeDecor s1 (array_type_id a)) (\<lambda>t.
     Inr (putTypeDecor n t s1)))"

text \<open>\<^verbatim>\<open>SymbolsVisitor::visitParameter_decl\<close>.\<close>

fun visitParameter_decl_sym ::
    "parameter_decl \<Rightarrow> SymTable \<times> pass_state \<Rightarrow> abort + SymTable \<times> pass_state" where
  "visitParameter_decl_sym (Parameter_decl n ident ty) (S, s) =
     bnd (visitType_sym ty s) (\<lambda>s1.
     bnd (getTypeDecor s1 (type_id ty)) (\<lambda>t1.
     if findInCurrentScope S ident
     then Inr (S, report DeclaredIdent n s1)
     else bnd (addParameter ident t1 S) (\<lambda>S1.
          Inr (S1, putTypeDecor n t1 s1))))"

text \<open>\<^verbatim>\<open>SymbolsVisitor::visitVariable_decl\<close>, with its loop over the identifiers.\<close>

fun addLocalVars ::
    "nat \<Rightarrow> Type \<Rightarrow> string list \<Rightarrow> SymTable \<times> pass_state \<Rightarrow> abort + SymTable \<times> pass_state" where
  "addLocalVars n t1 [] (S, s) = Inr (S, s)"
| "addLocalVars n t1 (ident # ids) (S, s) =
     (if findInCurrentScope S ident
      then addLocalVars n t1 ids (S, report DeclaredIdent n s)
      else bnd (addLocalVar ident t1 S) (\<lambda>S1. addLocalVars n t1 ids (S1, s)))"

fun visitVariable_decl_sym ::
    "variable_decl \<Rightarrow> SymTable \<times> pass_state \<Rightarrow> abort + SymTable \<times> pass_state" where
  "visitVariable_decl_sym (Variable_decl n ids ty) (S, s) =
     bnd (visitType_sym ty s) (\<lambda>s1.
     bnd (getTypeDecor s1 (type_id ty)) (\<lambda>t1.
     addLocalVars n t1 ids (S, s1)))"

fun visitDeclarations_sym ::
    "variable_decl list \<Rightarrow> SymTable \<times> pass_state \<Rightarrow> abort + SymTable \<times> pass_state" where
  "visitDeclarations_sym [] st = Inr st"
| "visitDeclarations_sym (d # ds) st =
     bnd (visitVariable_decl_sym d st) (\<lambda>st1. visitDeclarations_sym ds st1)"

text \<open>
  \<^verbatim>\<open>SymbolsVisitor::visitFunction\<close>. \<open>collectParams_sym\<close> is its loop over the
  parameter declarations, which visits each one, reads the type decoration of its
  node and appends it to \<^verbatim>\<open>lParamsTy\<close>.
\<close>

fun collectParams_sym ::
    "parameter_decl list \<Rightarrow> Type list \<Rightarrow> SymTable \<times> pass_state \<Rightarrow>
       abort + Type list \<times> SymTable \<times> pass_state" where
  "collectParams_sym [] lParamsTy st = Inr (lParamsTy, st)"
| "collectParams_sym (pd # pds) lParamsTy st =
     bnd (visitParameter_decl_sym pd st) (\<lambda>(S1, s1).
     bnd (getTypeDecor s1 (parameter_decl_id pd)) (\<lambda>te.
     collectParams_sym pds (lParamsTy @ [te]) (S1, s1)))"

fun visitFunction_sym ::
    "function_node \<Rightarrow> SymTable \<times> pass_state \<Rightarrow> abort + SymTable \<times> pass_state" where
  "visitFunction_sym (Function n ident params ret decls stmts) (S, s) =
     (let (sc, S1) = pushNewScope ident S;
          s1 = putScopeDecor n sc s
      in
      bnd (collectParams_sym params [] (S1, s1)) (\<lambda>(lParamsTy, S2, s2).
      bnd (visitDeclarations_sym decls (S2, s2)) (\<lambda>(S3, s3).
      bnd (popScope S3) (\<lambda>S4.
      bnd (if findInCurrentScope S4 ident
           then Inr (ErrorTy, report DeclaredIdent n s3)
           else (case ret of
                   Some b \<Rightarrow>
                     (let s4 = visitBasic_type_sym b s3 in
                      bnd (getTypeDecor s4 (basic_type_id b)) (\<lambda>t. Inr (t, s4)))
                 | None \<Rightarrow> Inr (VoidTy, s3))) (\<lambda>(tRet, s5).
      let tFunc = FunctionTy lParamsTy tRet;
          s6 = putTypeDecor n tFunc s5
      in
      if \<not> findInCurrentScope S4 ident
      then bnd (addFunction ident tFunc S4) (\<lambda>S5. Inr (S5, s6))
      else Inr (S4, s6))))))"

fun visitFunctions_sym ::
    "function_node list \<Rightarrow> SymTable \<times> pass_state \<Rightarrow> abort + SymTable \<times> pass_state" where
  "visitFunctions_sym [] st = Inr st"
| "visitFunctions_sym (f # fs) st =
     bnd (visitFunction_sym f st) (\<lambda>st1. visitFunctions_sym fs st1)"

fun visitProgram_sym ::
    "program \<Rightarrow> SymTable \<times> pass_state \<Rightarrow> abort + SymTable \<times> pass_state" where
  "visitProgram_sym (Program n fs) (S, s) =
     (let (sc, S1) = pushNewScope GLOBAL_SCOPE_NAME S;
          s1 = putScopeDecor n sc s
      in
      bnd (visitFunctions_sym fs (S1, s1)) (\<lambda>(S2, s2).
      bnd (popScope S2) (\<lambda>S3. Inr (S3, s2))))"


section \<open>CodeGenVisitor\<close>

subsection \<open>Instructions, counters and subroutines\<close>

text \<open>
  Modelled from the spec: the instruction set (\<^verbatim>\<open>instruction::ADD(...)\<close> and so on;
  code.h is missing). Operands are addresses written as strings. \<open>PUSH\<close> and
  \<open>POP\<close> have an optional operand: \<open>None\<close> is the bare form \<^verbatim>\<open>PUSH()\<close>,
  \<^verbatim>\<open>POP()\<close>.
\<close>

datatype instruction =
    LABEL string
  | UJUMP string
  | FJUMP string string
  | ILOAD string string
  | FLOAD string string
  | CHLOAD string string
  | LOAD string string
  | LOADX string string string
  | XLOAD string string string
  | ALOAD string string
  | ADD string string string
  | SUB string string string
  | MUL string string string
  | DIV string string string
  | FADD string string string
  | FSUB string string string
  | FMUL string string string
  | FDIV string string string
  | NEG string string
  | FNEG string string
  | AND string string string
  | OR string string string
  | NOT string string
  | EQ string string string
  | LT string string string
  | LE string string string
  | FEQ string string string
  | FLT string string string
  | FLE string string string
  | FLOAT string string
  | READI string
  | READF string
  | READC string
  | WRITEI string
  | WRITEF string
  | WRITEC string
  | WRITES string
  | PUSH "string option"
  | POP "string option"
  | CALL string
  | RETURN

type_synonym instructionList = "instruction list"

text \<open>
  The decimal digits of a number, as the standard library's \<^verbatim>\<open>std::to_string\<close>
  writes them; the counters below name temporaries and labels with it.
\<close>

definition digit_char :: "nat \<Rightarrow> char" where
  "digit_char d = ''0123456789'' ! d"

fun to_string_nat :: "nat \<Rightarrow> string" where
  "to_string_nat n =
     (if n < 10 then [digit_char n]
      else to_string_nat (n div 10) @ [digit_char (n mod 10)])"

text \<open>
  Modelled from the spec: \<^verbatim>\<open>codeCounters\<close> (code.h is missing). A temporary
  counter whose names, prefixed with \<open>%\<close> by the visitors, are \<open>%t0\<close>,
  \<open>%t1\<close>, ...; and the label counters behind \<^verbatim>\<open>newLabelIF\<close> and
  \<^verbatim>\<open>newLabelWHILE\<close>, whose first label is \<open>1\<close>. \<open>reset\<close> starts all of them
  again.
\<close>

record counters =
  tempCounter :: nat
  ifCounter :: nat
  whileCounter :: nat

definition reset :: counters where
  "reset = \<lparr>tempCounter = 0, ifCounter = 0, whileCounter = 0\<rparr>"

definition newTEMP :: "counters \<Rightarrow> string \<times> counters" where
  "newTEMP c = (''t'' @ to_string_nat (tempCounter c), c\<lparr>tempCounter := tempCounter c + 1\<rparr>)"

definition newLabelIF :: "counters \<Rightarrow> string \<times> counters" where
  "newLabelIF c = (to_string_nat (ifCounter c + 1), c\<lparr>ifCounter := ifCounter c + 1\<rparr>)"

definition newLabelWHILE :: "counters \<Rightarrow> string \<times> counters" where
  "newLabelWHILE c =
     (to_string_nat (whileCounter c + 1), c\<lparr>whileCounter := whileCounter c + 1\<rparr>)"

text \<open>\<^verbatim>\<open>CodeGenVisitor::CodeAttribs\<close>: the triple an expression visitor returns.\<close>

record CodeAttribs =
  addr :: string
  offs :: string
  code :: instructionList

text \<open>
  Modelled from the spec: the IR subroutine. Parameters are (name, type text,
  array-reference flag), local variables are (name, element type text, size).
\<close>

record subroutine =
  subr_name :: string
  subr_params :: "(string \<times> string \<times> bool) list"
  subr_vars :: "(string \<times> string \<times> nat) list"
  subr_instructions :: instructionList

text \<open>
  Modelled from the spec: a decoration read through a node pointer that may be
  null, as in \<^verbatim>\<open>getTypeDecor(ctx->basic_type())\<close> (common/TreeDecoration.h is
  missing). No setter is ever called on the null node, so the read finds no entry.
\<close>

definition getType_ptr :: "TreeDecoration \<Rightarrow> nat option \<Rightarrow> abort + Type" where
  "getType_ptr D p = (case p of None \<Rightarrow> Inl (UnsetType None) | Some n \<Rightarrow> getType_d D n)"

subsection \<open>The text of an expression\<close>

text \<open>
  \<^verbatim>\<open>ctx->getText()\<close> of an expression node is the concatenation of the texts of
  its tokens. The code generator asks the symbol table about this text for each
  argument of a call. The text of an identifier expression is the identifier; the
  other forms hold an operator, a bracket or a literal. The spelling of the
  operator tokens is the lexer's, which is not among the sources; the one used
  here is that of the Asl language.
\<close>

fun unary_text :: "unary_op \<Rightarrow> string" where
  "unary_text NOT_op = ''not''"
| "unary_text PLUS_un = ''+''"
| "unary_text MINUS_un = ''-''"

fun arith_text :: "arith_op \<Rightarrow> string" where
  "arith_text MUL_op = ''*''"
| "arith_text DIV_op = ''/''"
| "arith_text MOD_op = ''%''"
| "arith_text PLUS_op = ''+''"
| "arith_text MINUS_op = ''-''"

fun rel_text :: "rel_op \<Rightarrow> string" where
  "rel_text EQUAL_op = ''==''"
| "rel_text DIFF_op = ''!=''"
| "rel_text LS_op = ''<''"
| "rel_text BS_op = ''>''"
| "rel_text LE_op = ''<=''"
| "rel_text BE_op = ''>=''"

fun bool_text :: "bool_op \<Rightarrow> string" where
  "bool_text AND_op = ''and''"
| "bool_text OR_op = ''or''"

fun getText :: "expr \<Rightarrow> string"
  and getText_args :: "expr list \<Rightarrow> string"
where
  "getText (Parenthesis n e) = ''('' @ getText e @ '')''"
| "getText (ArrayIndex n a e) = ident_text a @ ''['' @ getText e @ '']''"
| "getText (FuncCall n f es) = ident_text f @ ''('' @ getText_args es @ '')''"
| "getText (Unary n oper e) = unary_text oper @ getText e"
| "getText (Arithmetic n oper e1 e2) = getText e1 @ arith_text oper @ getText e2"
| "getText (Relational n oper e1 e2) = getText e1 @ rel_text oper @ getText e2"
| "getText (Boolean n oper e1 e2) = getText e1 @ bool_text oper @ getText e2"
| "getText (Value_e n k txt) = txt"
| "getText (ExprIdent n x) = ident_text x"
| "getText_args [] = []"
| "getText_args [e] = getText e"
| "getText_args (e # e' # es) = getText e @ '','' @ getText_args (e' # es)"

subsection \<open>Identifiers and expressions\<close>

text \<open>\<^verbatim>\<open>CodeGenVisitor::visitIdent\<close>.\<close>

fun visitIdent_cg ::
    "SymTable \<Rightarrow> TreeDecoration \<Rightarrow> ident \<Rightarrow> counters \<Rightarrow> abort + CodeAttribs \<times> counters" where
  "visitIdent_cg S D (Ident k x) c =
     bnd (getType_d D k) (\<lambda>t.
     if isArrayTy t \<and> isParameterClass S x
     then (let (tn, c1) = newTEMP c; temp = ''%'' @ tn
           in Inr (\<lparr>addr = temp, offs = [], code = [LOAD temp x]\<rparr>, c1))
     else Inr (\<lparr>addr = x, offs = [], code = []\<rparr>, c))"

text \<open>
  \<^verbatim>\<open>CodeGenVisitor::visitValue\<close> takes the text between the quotes of a character
  literal with \<^verbatim>\<open>substr(1, size - 2)\<close>, which throws on the empty text.
\<close>

definition substr_1 :: "string \<Rightarrow> abort + string" where
  "substr_1 txt = (if txt = [] then Inl OutOfRange else Inr (take (length txt - 2) (drop 1 txt)))"

text \<open>
  The expression visitors of the code generator, one equation each, and
  \<open>pushParams_cg\<close>, the argument loop that \<^verbatim>\<open>visitFuncCall\<close> and
  \<^verbatim>\<open>visitProcCall\<close> both contain with the same text: it returns the
  instructions the loop appends to \<^verbatim>\<open>code\<close>.
\<close>

fun visitExpr_cg ::
    "SymTable \<Rightarrow> TreeDecoration \<Rightarrow> expr \<Rightarrow> counters \<Rightarrow> abort + CodeAttribs \<times> counters"
  and pushParams_cg ::
    "SymTable \<Rightarrow> TreeDecoration \<Rightarrow> Type \<Rightarrow> nat \<Rightarrow> expr list \<Rightarrow> counters \<Rightarrow>
       abort + instructionList \<times> counters"
where
  "visitExpr_cg S D (Parenthesis n e) c = visitExpr_cg S D e c"
| "visitExpr_cg S D (ArrayIndex n a e) c =
     bnd (visitIdent_cg S D a c) (\<lambda>(codAts, c1).
     bnd (visitExpr_cg S D e c1) (\<lambda>(codAts2, c2).
     let (tn, c3) = newTEMP c2; temp = ''%'' @ tn
     in Inr (codAts\<lparr>addr := temp,
                    code := code codAts @ code codAts2 @ [LOADX temp (addr codAts) (addr codAts2)]\<rparr>,
             c3)))"
| "visitExpr_cg S D (FuncCall n f es) c =
     bnd (visitIdent_cg S D f c) (\<lambda>(codAts, c1).
     bnd (getType_d D (ident_id f)) (\<lambda>t.
     bnd (pushParams_cg S D t 0 es c1) (\<lambda>(pushes, c2).
     let (tn, c3) = newTEMP c2; temp = ''%'' @ tn
     in Inr (codAts\<lparr>addr := temp,
                    code := code codAts @ [PUSH None] @ pushes @ [CALL (ident_text f)] @
                            replicate (length es) (POP None) @ [POP (Some temp)]\<rparr>,
             c3))))"
| "visitExpr_cg S D (Unary n oper e) c =
     bnd (visitExpr_cg S D e c) (\<lambda>(codAt, c1).
     if oper = PLUS_un then Inr (codAt, c1)
     else
       (let (tn, c2) = newTEMP c1; temp = ''%'' @ tn in
        if oper = MINUS_un
        then bnd (getType_d D (expr_id e)) (\<lambda>t.
             Inr (\<lparr>addr = temp, offs = [],
                   code = code codAt @
                     [if isFloatTy t then FNEG temp (addr codAt) else NEG temp (addr codAt)]\<rparr>,
                  c2))
        else Inr (\<lparr>addr = temp, offs = [], code = code codAt @ [NOT temp (addr codAt)]\<rparr>, c2)))"
| "visitExpr_cg S D (Arithmetic n oper e1 e2) c =
     bnd (visitExpr_cg S D e1 c) (\<lambda>(codAt1, c1).
     bnd (getType_d D (expr_id e1)) (\<lambda>t1.
     bnd (visitExpr_cg S D e2 c1) (\<lambda>(codAt2, c2).
     bnd (getType_d D (expr_id e2)) (\<lambda>t2.
     let code0 = code codAt1 @ code codAt2;
         (tn, c3) = newTEMP c2; temp = ''%'' @ tn
     in
     if isFloatTy t1 \<or> isFloatTy t2
     then
       (let (code1, addr1, addr2, c4) =
              (if \<not> isFloatTy t1
               then (let (tf, c4) = newTEMP c3; tempFloat = ''%'' @ tf
                     in (code0 @ [FLOAT tempFloat (addr codAt1)], tempFloat, addr codAt2, c4))
               else if \<not> isFloatTy t2
               then (let (tf, c4) = newTEMP c3; tempFloat = ''%'' @ tf
                     in (code0 @ [FLOAT tempFloat (addr codAt2)], addr codAt1, tempFloat, c4))
               else (code0, addr codAt1, addr codAt2, c3))
        in
        case oper of
          MUL_op \<Rightarrow> Inr (\<lparr>addr = temp, offs = [], code = code1 @ [FMUL temp addr1 addr2]\<rparr>, c4)
        | DIV_op \<Rightarrow> Inr (\<lparr>addr = temp, offs = [], code = code1 @ [FDIV temp addr1 addr2]\<rparr>, c4)
        | MOD_op \<Rightarrow> Inl ProcessExit
        | PLUS_op \<Rightarrow> Inr (\<lparr>addr = temp, offs = [], code = code1 @ [FADD temp addr1 addr2]\<rparr>, c4)
        | MINUS_op \<Rightarrow> Inr (\<lparr>addr = temp, offs = [], code = code1 @ [FSUB temp addr1 addr2]\<rparr>, c4))
     else
       (let addr1 = addr codAt1; addr2 = addr codAt2 in
        case oper of
          MUL_op \<Rightarrow> Inr (\<lparr>addr = temp, offs = [], code = code0 @ [MUL temp addr1 addr2]\<rparr>, c3)
        | DIV_op \<Rightarrow> Inr (\<lparr>addr = temp, offs = [], code = code0 @ [DIV temp addr1 addr2]\<rparr>, c3)
        | MOD_op \<Rightarrow>
            (let (td, c4) = newTEMP c3; tempDIV = ''%'' @ td;
                 (tm, c5) = newTEMP c4; tempMULT = ''%'' @ tm
             in Inr (\<lparr>addr = temp, offs = [],
                      code = code0 @ [DIV tempDIV addr1 addr2, MUL tempMULT tempDIV addr2,
                                      SUB temp addr1 tempMULT]\<rparr>, c5))
        | PLUS_op \<Rightarrow> Inr (\<lparr>addr = temp, offs = [], code = code0 @ [ADD temp addr1 addr2]\<rparr>, c3)
        | MINUS_op \<Rightarrow> Inr (\<lparr>addr = temp, offs = [], code = code0 @ [SUB temp addr1 addr2]\<rparr>, c3))))))"
| "visitExpr_cg S D (Relational n oper e1 e2) c =
     bnd (visitExpr_cg S D e1 c) (\<lambda>(codAt1, c1).
     bnd (getType_d D (expr_id e1)) (\<lambda>t1.
     bnd (visitExpr_cg S D e2 c1) (\<lambda>(codAt2, c2).
     bnd (getType_d D (expr_id e2)) (\<lambda>t2.
     let code0 = code codAt1 @ code codAt2;
         (tn, c3) = newTEMP c2; temp = ''%'' @ tn
     in
     if isFloatTy t1 \<or> isFloatTy t2
     then
       (let (code1, addr1, addr2, c4) =
              (if \<not> isFloatTy t1
               then (let (tf, c4) = newTEMP c3; tempf1 = ''%'' @ tf
                     in (code0 @ [FLOAT tempf1 (addr codAt1)], tempf1, addr codAt2, c4))
               else if \<not> isFloatTy t2
               then (let (tf, c4) = newTEMP c3; tempf2 = ''%'' @ tf
                     in (code0 @ [FLOAT tempf2 (addr codAt2)], addr codAt1, tempf2, c4))
               else (code0, addr codAt1, addr codAt2, c3))
        in
        Inr (\<lparr>addr = temp, offs = [],
              code = code1 @
                (case oper of
                   EQUAL_op \<Rightarrow> [FEQ temp addr1 addr2]
                 | DIFF_op \<Rightarrow> [FEQ temp addr1 addr2, NOT temp temp]
                 | LS_op \<Rightarrow> [FLT temp addr1 addr2]
                 | BS_op \<Rightarrow> [FLT temp addr2 addr1]
                 | LE_op \<Rightarrow> [FLE temp addr1 addr2]
                 | BE_op \<Rightarrow> [FLE temp addr2 addr1])\<rparr>, c4))
     else
       (let addr1 = addr codAt1; addr2 = addr codAt2 in
        Inr (\<lparr>addr = temp, offs = [],
              code = code0 @
                (case oper of
                   EQUAL_op \<Rightarrow> [EQ temp addr1 addr2]
                 | DIFF_op \<Rightarrow> [EQ temp addr1 addr2, NOT temp temp]
                 | LS_op \<Rightarrow> [LT temp addr1 addr2]
                 | BS_op \<Rightarrow> [LT temp addr2 addr1]
                 | LE_op \<Rightarrow> [LE temp addr1 addr2]
                 | BE_op \<Rightarrow> [LE temp addr2 addr1])\<rparr>, c3))))))"
| "visitExpr_cg S D (Boolean n oper e1 e2) c =
     bnd (visitExpr_cg S D e1 c) (\<lambda>(codAt1, c1).
     bnd (visitExpr_cg S D e2 c1) (\<lambda>(codAt2, c2).
     let (tn, c3) = newTEMP c2; temp = ''%'' @ tn
     in Inr (\<lparr>addr = temp, offs = [],
              code = code codAt1 @ code codAt2 @
                (case oper of
                   AND_op \<Rightarrow> [AND temp (addr codAt1) (addr codAt2)]
                 | OR_op \<Rightarrow> [OR temp (addr codAt1) (addr codAt2)])\<rparr>, c3)))"
| "visitExpr_cg S D (Value_e n k txt) c =
     (let (tn, c1) = newTEMP c; temp = ''%'' @ tn in
      if k = CHARVAL
      then bnd (substr_1 txt) (\<lambda>inner.
           Inr (\<lparr>addr = temp, offs = [], code = [CHLOAD temp inner]\<rparr>, c1))
      else if k = FLOATVAL
      then Inr (\<lparr>addr = temp, offs = [], code = [FLOAD temp txt]\<rparr>, c1)
      else if txt = ''true''
      then Inr (\<lparr>addr = temp, offs = [], code = [ILOAD temp ''1'']\<rparr>, c1)
      else if txt = ''false''
      then Inr (\<lparr>addr = temp, offs = [], code = [ILOAD temp ''0'']\<rparr>, c1)
      else Inr (\<lparr>addr = temp, offs = [], code = [ILOAD temp txt]\<rparr>, c1))"
| "visitExpr_cg S D (ExprIdent n x) c = visitIdent_cg S D x c"
| "pushParams_cg S D t i [] c = Inr ([], c)"
| "pushParams_cg S D t i (e # es) c =
     bnd (visitExpr_cg S D e c) (\<lambda>(codAts2, c1).
     bnd (getParameterType t i) (\<lambda>p.
     bnd (getType_d D (expr_id e)) (\<lambda>te.
     let (conv, addr1, c2) =
           (if isFloatTy p \<and> \<not> isFloatTy te
            then (let (tn, c2) = newTEMP c1; temp = ''%'' @ tn
                  in ([FLOAT temp (addr codAts2)], temp, c2))
            else if isArrayTy p \<and> \<not> isParameterClass S (getText e)
            then (let (tn, c2) = newTEMP c1; temp = ''%'' @ tn
                  in ([ALOAD temp (addr codAts2)], temp, c2))
            else ([], addr codAts2, c1))
     in
     bnd (pushParams_cg S D t (i + 1) es c2) (\<lambda>(rest, c3).
     Inr (code codAts2 @ conv @ [PUSH (Some addr1)] @ rest, c3)))))"

text \<open>\<^verbatim>\<open>CodeGenVisitor::visitLeft_expr\<close>.\<close>

fun visitLeft_expr_cg ::
    "SymTable \<Rightarrow> TreeDecoration \<Rightarrow> left_expr \<Rightarrow> counters \<Rightarrow> abort + CodeAttribs \<times> counters" where
  "visitLeft_expr_cg S D (Left_expr n x None) c = visitIdent_cg S D x c"
| "visitLeft_expr_cg S D (Left_expr n x (Some e)) c =
     bnd (visitIdent_cg S D x c) (\<lambda>(codAts, c1).
     bnd (visitExpr_cg S D e c1) (\<lambda>(codAts2, c2).
     Inr (codAts\<lparr>offs := addr codAts2, code := code codAts @ code codAts2\<rparr>, c2)))"


subsection \<open>Statements\<close>

text \<open>\<^verbatim>\<open>CodeGenVisitor::visitAssignStmt\<close>.\<close>

definition visitAssignStmt_cg ::
    "SymTable \<Rightarrow> TreeDecoration \<Rightarrow> left_expr \<Rightarrow> expr \<Rightarrow> counters \<Rightarrow>
       abort + instructionList \<times> counters" where
  "visitAssignStmt_cg S D le e c =
     bnd (visitLeft_expr_cg S D le c) (\<lambda>(codAtsE1, c1).
     bnd (getType_d D (left_expr_id le)) (\<lambda>tid1.
     bnd (visitExpr_cg S D e c1) (\<lambda>(codAtsE2, c2).
     bnd (getType_d D (expr_id e)) (\<lambda>tid2.
     let addr1 = addr codAtsE1; offs1 = offs codAtsE1; addr2 = addr codAtsE2;
         code0 = code codAtsE1 @ code codAtsE2
     in
     if isArrayTy tid1 \<and> isArrayTy tid2
     then
       (let (t1, c3) = newTEMP c2; tempI = ''%'' @ t1;
            (t2, c4) = newTEMP c3; tempL = ''%'' @ t2;
            (t3, c5) = newTEMP c4; tempV = ''%'' @ t3;
            (t4, c6) = newTEMP c5; tempINCR = ''%'' @ t4;
            (t5, c7) = newTEMP c6; tempCOMP = ''%'' @ t5;
            (label, c8) = newLabelWHILE c7;
            labelWhile = ''while'' @ label;
            labelEndWhile = ''endwhile'' @ label
        in
        bnd (getArraySize tid1) (\<lambda>sz.
        Inr (code0 @
             [ILOAD tempI ''0'', ILOAD tempL (to_string_nat sz), ILOAD tempINCR ''1'',
              LABEL labelWhile, LT tempCOMP tempI tempL, FJUMP tempCOMP labelEndWhile,
              LOADX tempV addr2 tempI, XLOAD addr1 tempI tempV, ADD tempI tempI tempINCR,
              UJUMP labelWhile, LABEL labelEndWhile], c8)))
     else
       (let (tn, c3) = newTEMP c2;
            (code1, temp) =
              (if isFloatTy tid1 \<and> isIntegerTy tid2
               then (code0 @ [FLOAT (''%'' @ tn) addr2], ''%'' @ tn)
               else (code0, addr2))
        in
        if offs1 \<noteq> [] then Inr (code1 @ [XLOAD addr1 offs1 temp], c3)
        else Inr (code1 @ [LOAD addr1 temp], c3))))))"

text \<open>\<^verbatim>\<open>CodeGenVisitor::visitProcCall\<close>.\<close>

definition visitProcCall_cg ::
    "SymTable \<Rightarrow> TreeDecoration \<Rightarrow> ident \<Rightarrow> expr list \<Rightarrow> counters \<Rightarrow>
       abort + instructionList \<times> counters" where
  "visitProcCall_cg S D f es c =
     bnd (visitIdent_cg S D f c) (\<lambda>(codAts, c1).
     bnd (getType_d D (ident_id f)) (\<lambda>t.
     bnd (pushParams_cg S D t 0 es c1) (\<lambda>(pushes, c2).
     Inr (code codAts @ (if \<not> isVoidFunction t then [PUSH None] else []) @ pushes @
          [CALL (ident_text f)] @ replicate (length es) (POP None) @
          (if \<not> isVoidFunction t then [POP None] else []), c2))))"

text \<open>\<^verbatim>\<open>CodeGenVisitor::visitReturnExpr\<close>.\<close>

definition visitReturnExpr_cg ::
    "SymTable \<Rightarrow> TreeDecoration \<Rightarrow> expr option \<Rightarrow> counters \<Rightarrow>
       abort + instructionList \<times> counters" where
  "visitReturnExpr_cg S D eo c =
     (case eo of
        Some e \<Rightarrow>
          bnd (visitExpr_cg S D e c) (\<lambda>(codAt1, c1).
          Inr (code codAt1 @ [LOAD ''_result'' (addr codAt1)] @ [RETURN], c1))
      | None \<Rightarrow> Inr ([RETURN], c))"

text \<open>\<^verbatim>\<open>CodeGenVisitor::visitReadStmt\<close>.\<close>

definition visitReadStmt_cg ::
    "SymTable \<Rightarrow> TreeDecoration \<Rightarrow> left_expr \<Rightarrow> counters \<Rightarrow>
       abort + instructionList \<times> counters" where
  "visitReadStmt_cg S D le c =
     bnd (visitLeft_expr_cg S D le c) (\<lambda>(codAts, c1).
     bnd (getType_d D (left_expr_id le)) (\<lambda>tid.
     let addr1 = addr codAts; offs1 = offs codAts;
         (tn, c2) = newTEMP c1; temp = ''%'' @ tn
     in
     bnd (if isIntegerTy tid \<or> isBooleanTy tid then Inr (code codAts @ [READI temp])
          else if isFloatTy tid then Inr (code codAts @ [READF temp])
          else if isCharacterTy tid then Inr (code codAts @ [READC temp])
          else Inl ProcessExit) (\<lambda>code1.
     if offs1 \<noteq> [] then Inr (code1 @ [XLOAD addr1 offs1 temp], c2)
     else Inr (code1 @ [LOAD addr1 temp], c2))))"

text \<open>\<^verbatim>\<open>CodeGenVisitor::visitWriteExpr\<close> and \<^verbatim>\<open>visitWriteString\<close>.\<close>

definition visitWriteExpr_cg ::
    "SymTable \<Rightarrow> TreeDecoration \<Rightarrow> expr \<Rightarrow> counters \<Rightarrow>
       abort + instructionList \<times> counters" where
  "visitWriteExpr_cg S D e c =
     bnd (visitExpr_cg S D e c) (\<lambda>(codAt1, c1).
     bnd (getType_d D (expr_id e)) (\<lambda>tid1.
     if isFloatTy tid1 then Inr (code codAt1 @ [WRITEF (addr codAt1)], c1)
     else if isCharacterTy tid1 then Inr (code codAt1 @ [WRITEC (addr codAt1)], c1)
     else Inr (code codAt1 @ [WRITEI (addr codAt1)], c1)))"

definition visitWriteString_cg :: "string \<Rightarrow> counters \<Rightarrow> abort + instructionList \<times> counters" where
  "visitWriteString_cg str c = Inr ([WRITES str], c)"

text \<open>
  \<^verbatim>\<open>CodeGenVisitor::visitSwapExpr\<close>. \<open>has_index\<close> is the test
  \<^verbatim>\<open>ctx->left_expr(i)->expr()\<close>.
\<close>

fun has_index :: "left_expr \<Rightarrow> bool" where
  "has_index (Left_expr n x eo) = (eo \<noteq> None)"

definition visitSwapExpr_cg ::
    "SymTable \<Rightarrow> TreeDecoration \<Rightarrow> left_expr \<Rightarrow> left_expr \<Rightarrow> counters \<Rightarrow>
       abort + instructionList \<times> counters" where
  "visitSwapExpr_cg S D l0 l1 c =
     bnd (visitLeft_expr_cg S D l0 c) (\<lambda>(codAt1, c1).
     bnd (getType_d D (left_expr_id l0)) (\<lambda>t1.
     bnd (visitLeft_expr_cg S D l1 c1) (\<lambda>(codAt2, c2).
     bnd (getType_d D (left_expr_id l1)) (\<lambda>t2.
     let addr1 = addr codAt1; addr2 = addr codAt2;
         code0 = code codAt1 @ code codAt2
     in
     if has_index l0 \<or> has_index l1
     then (if \<not> has_index l0
           then (let (tn, c3) = newTEMP c2; temp = ''%'' @ tn
                 in Inr (code0 @ [LOAD temp addr1], c3))
           else Inr (code0, c2))
     else if \<not> (isArrayTy t1 \<and> isArrayTy t2)
     then (let (tn, c3) = newTEMP c2; temp = ''%'' @ tn
           in Inr (code0 @ [LOAD temp addr1, LOAD addr1 addr2, LOAD addr2 temp], c3))
     else Inr (code0, c2)))))"

text \<open>
  \<^verbatim>\<open>visitStatements\<close>, \<^verbatim>\<open>visitWhileStmt\<close>, \<^verbatim>\<open>visitIfStmt\<close> and
  \<^verbatim>\<open>visitSwitchExpr\<close>; \<open>visitCases_cg\<close> is the loop of \<^verbatim>\<open>visitSwitchExpr\<close>,
  which takes its temporary, then visits the body of the case, then its label.
  The body after \<^verbatim>\<open>DEFAULT\<close> is not visited by the code generator.
\<close>

fun visitStatement_cg ::
    "SymTable \<Rightarrow> TreeDecoration \<Rightarrow> statement \<Rightarrow> counters \<Rightarrow> abort + instructionList \<times> counters"
  and visitStatements_cg ::
    "SymTable \<Rightarrow> TreeDecoration \<Rightarrow> statement list \<Rightarrow> counters \<Rightarrow>
       abort + instructionList \<times> counters"
  and visitCases_cg ::
    "SymTable \<Rightarrow> TreeDecoration \<Rightarrow> string \<Rightarrow> string \<Rightarrow> (expr \<times> statement list) list \<Rightarrow>
       counters \<Rightarrow> abort + instructionList \<times> counters"
where
  "visitStatement_cg S D (AssignStmt n le e) c = visitAssignStmt_cg S D le e c"
| "visitStatement_cg S D (IfStmt n e thens elses) c =
     bnd (visitExpr_cg S D e c) (\<lambda>(codAtsE, c1).
     bnd (visitStatements_cg S D thens c1) (\<lambda>(code2, c2).
     let (label, c3) = newLabelIF c2;
         labelEndIf = ''endif'' @ label
     in
     case elses of
       Some stms \<Rightarrow>
         bnd (visitStatements_cg S D stms c3) (\<lambda>(codeSTMS2, c4).
         let labelElse = ''else'' @ label in
         Inr (code codAtsE @ [FJUMP (addr codAtsE) labelElse] @ code2 @
              [UJUMP labelEndIf, LABEL labelElse] @ codeSTMS2 @ [LABEL labelEndIf], c4))
     | None \<Rightarrow>
         Inr (code codAtsE @ [FJUMP (addr codAtsE) labelEndIf] @ code2 @
              [LABEL labelEndIf], c3)))"
| "visitStatement_cg S D (WhileStmt n e body) c =
     bnd (visitExpr_cg S D e c) (\<lambda>(codAtsE, c1).
     bnd (visitStatements_cg S D body c1) (\<lambda>(codeStatements, c2).
     let (label, c3) = newLabelWHILE c2;
         labelBeginWhile = ''beginwhile'' @ label;
         labelEndWhile = ''endwhile'' @ label
     in
     Inr ([LABEL labelBeginWhile] @ code codAtsE @ [FJUMP (addr codAtsE) labelEndWhile] @
          codeStatements @ [UJUMP labelBeginWhile, LABEL labelEndWhile], c3)))"
| "visitStatement_cg S D (ProcCall n f es) c = visitProcCall_cg S D f es c"
| "visitStatement_cg S D (ReadStmt n le) c = visitReadStmt_cg S D le c"
| "visitStatement_cg S D (WriteExpr n e) c = visitWriteExpr_cg S D e c"
| "visitStatement_cg S D (WriteString n str) c = visitWriteString_cg str c"
| "visitStatement_cg S D (ReturnExpr n eo) c = visitReturnExpr_cg S D eo c"
| "visitStatement_cg S D (SwapExpr n l0 l1) c = visitSwapExpr_cg S D l0 l1 c"
| "visitStatement_cg S D (SwitchExpr n e cases dflt) c =
     bnd (visitExpr_cg S D e c) (\<lambda>(codAtsE, c1).
     let (labelSwitch, c2) = newLabelIF c1;
         labelEndSwitch = ''endswitch'' @ labelSwitch
     in
     bnd (visitCases_cg S D (addr codAtsE) labelEndSwitch cases c2) (\<lambda>(codeCases, c3).
     Inr (code codAtsE @ codeCases @ [LABEL labelEndSwitch], c3)))"
| "visitStatements_cg S D [] c = Inr ([], c)"
| "visitStatements_cg S D (st # sts) c =
     bnd (visitStatement_cg S D st c) (\<lambda>(codeS, c1).
     bnd (visitStatements_cg S D sts c1) (\<lambda>(rest, c2).
     Inr (codeS @ rest, c2)))"
| "visitCases_cg S D addr1 labelEndSwitch [] c = Inr ([], c)"
| "visitCases_cg S D addr1 labelEndSwitch ((ei, body) # cases) c =
     (let (tn, c1) = newTEMP c; temp = ''%'' @ tn in
      bnd (visitStatements_cg S D body c1) (\<lambda>(code2, c2).
      bnd (visitExpr_cg S D ei c2) (\<lambda>(codAtsEi, c3).
      bnd (visitCases_cg S D addr1 labelEndSwitch cases c3) (\<lambda>(rest, c4).
      Inr (code codAtsEi @ [EQ temp addr1 (addr codAtsEi), FJUMP temp labelEndSwitch] @
           code2 @ rest, c4)))))"

subsection \<open>Declarations, functions and the program\<close>

text \<open>
  \<^verbatim>\<open>CodeGenVisitor::visitParameter_decl\<close>: the vector of two or three strings it
  returns; the third one, \<open>array\<close>, marks an array parameter. \<open>to_string\<close> is
  \<^verbatim>\<open>Types.to_string\<close>, the textual form of a type, a parameter of the model.
\<close>

fun visitParameter_decl_cg ::
    "(Type \<Rightarrow> string) \<Rightarrow> TreeDecoration \<Rightarrow> parameter_decl \<Rightarrow> abort + string list" where
  "visitParameter_decl_cg to_string D (Parameter_decl n x ty) =
     bnd (getType_d D (type_id ty)) (\<lambda>t1.
     if isArrayTy t1
     then bnd (getArrayElemType t1) (\<lambda>te. Inr [x, to_string te, ''array''])
     else Inr [x, to_string t1])"

text \<open>
  \<^verbatim>\<open>CodeGenVisitor::visitVariable_decl\<close> and \<^verbatim>\<open>visitDeclarations\<close>. The loop over
  the identifiers replaces \<open>t1\<close> by its element type at the first identifier.
\<close>

fun declareVars :: "(Type \<Rightarrow> string) \<Rightarrow> nat \<Rightarrow> Type \<Rightarrow> string list \<Rightarrow>
    abort + (string \<times> string \<times> nat) list" where
  "declareVars to_string sz t1 [] = Inr []"
| "declareVars to_string sz t1 (x # ids) =
     bnd (if isArrayTy t1 then getArrayElemType t1 else Inr t1) (\<lambda>t2.
     bnd (declareVars to_string sz t2 ids) (\<lambda>vars.
     Inr ((x, to_string t2, sz) # vars)))"

fun visitVariable_decl_cg ::
    "(Type \<Rightarrow> string) \<Rightarrow> TreeDecoration \<Rightarrow> variable_decl \<Rightarrow>
       abort + (string \<times> string \<times> nat) list" where
  "visitVariable_decl_cg to_string D (Variable_decl n ids ty) =
     bnd (getType_d D (type_id ty)) (\<lambda>t1.
     bnd (getSizeOfType t1) (\<lambda>sz.
     declareVars to_string sz t1 ids))"

fun visitDeclarations_cg ::
    "(Type \<Rightarrow> string) \<Rightarrow> TreeDecoration \<Rightarrow> variable_decl list \<Rightarrow>
       abort + (string \<times> string \<times> nat) list" where
  "visitDeclarations_cg to_string D [] = Inr []"
| "visitDeclarations_cg to_string D (d # ds) =
     bnd (visitVariable_decl_cg to_string D d) (\<lambda>vars.
     bnd (visitDeclarations_cg to_string D ds) (\<lambda>lvars.
     Inr (vars @ lvars)))"

text \<open>
  \<^verbatim>\<open>CodeGenVisitor::visitFunction\<close>. \<open>addParams_cg\<close> is its loop over the parameter
  declarations (\<^verbatim>\<open>subr.add_param\<close> with or without the array flag).
\<close>

fun addParams_cg ::
    "(Type \<Rightarrow> string) \<Rightarrow> TreeDecoration \<Rightarrow> parameter_decl list \<Rightarrow>
       abort + (string \<times> string \<times> bool) list" where
  "addParams_cg to_string D [] = Inr []"
| "addParams_cg to_string D (pd # pds) =
     bnd (visitParameter_decl_cg to_string D pd) (\<lambda>tupla.
     bnd (addParams_cg to_string D pds) (\<lambda>ps.
     if length tupla = 3 then Inr ((tupla ! 0, tupla ! 1, True) # ps)
     else Inr ((tupla ! 0, tupla ! 1, False) # ps)))"

fun visitFunction_cg ::
    "(Type \<Rightarrow> string) \<Rightarrow> SymTable \<Rightarrow> TreeDecoration \<Rightarrow> function_node \<Rightarrow> abort + subroutine" where
  "visitFunction_cg to_string S D (Function n name params ret decls stmts) =
     bnd (getScope D n) (\<lambda>sc.
     bnd (pushThisScope sc S) (\<lambda>S1.
     bnd (getType_ptr D (map_option basic_type_id ret)) (\<lambda>t1.
     let result_param = (if ret \<noteq> None then [(''_result'', to_string t1, False)] else [])
     in
     bnd (addParams_cg to_string D params) (\<lambda>ps.
     bnd (visitDeclarations_cg to_string D decls) (\<lambda>lvars.
     bnd (visitStatements_cg S1 D stmts reset) (\<lambda>(code0, c1).
     let code1 = (if ret = None then code0 @ [RETURN] else code0)
     in
     bnd (popScope S1) (\<lambda>S2.
     Inr \<lparr>subr_name = name, subr_params = result_param @ ps, subr_vars = lvars,
          subr_instructions = code1\<rparr>)))))))"

fun visitFunctions_cg ::
    "(Type \<Rightarrow> string) \<Rightarrow> SymTable \<Rightarrow> TreeDecoration \<Rightarrow> function_node list \<Rightarrow>
       abort + subroutine list" where
  "visitFunctions_cg to_string S D [] = Inr []"
| "visitFunctions_cg to_string S D (f # fs) =
     bnd (visitFunction_cg to_string S D f) (\<lambda>subr.
     bnd (visitFunctions_cg to_string S D fs) (\<lambda>subrs.
     Inr (subr # subrs)))"

fun visitProgram_cg ::
    "(Type \<Rightarrow> string) \<Rightarrow> SymTable \<Rightarrow> TreeDecoration \<Rightarrow> program \<Rightarrow> abort + subroutine list" where
  "visitProgram_cg to_string S D (Program n fs) =
     bnd (getScope D n) (\<lambda>sc.
     bnd (pushThisScope sc S) (\<lambda>S1.
     bnd (visitFunctions_cg to_string S1 D fs) (\<lambda>my_code.
     bnd (popScope S1) (\<lambda>S2. Inr my_code))))"


section \<open>Notions used in the statements\<close>

text \<open>
  The float variant of an arithmetic operator in the instruction set of the
  specification (\<open>FADD/FSUB/FMUL/FDIV\<close>); the remainder has none.
\<close>

fun float_instr :: "arith_op \<Rightarrow> (string \<Rightarrow> string \<Rightarrow> string \<Rightarrow> instruction) option" where
  "float_instr MUL_op = Some FMUL"
| "float_instr DIV_op = Some FDIV"
| "float_instr MOD_op = None"
| "float_instr PLUS_op = Some FADD"
| "float_instr MINUS_op = Some FSUB"

text \<open>
  The integer instructions of an arithmetic operator on \<open>a1\<close> and \<open>a2\<close> into
  \<open>temp\<close>. The instruction set has none for the remainder: it is the three
  instructions of \<open>a1 - (a1 / a2) * a2\<close>, which take two more temporaries.
\<close>

fun int_instrs ::
    "arith_op \<Rightarrow> string \<Rightarrow> string \<Rightarrow> string \<Rightarrow> string \<Rightarrow> string \<Rightarrow> instructionList" where
  "int_instrs MUL_op temp a1 a2 tempDIV tempMULT = [MUL temp a1 a2]"
| "int_instrs DIV_op temp a1 a2 tempDIV tempMULT = [DIV temp a1 a2]"
| "int_instrs MOD_op temp a1 a2 tempDIV tempMULT =
     [DIV tempDIV a1 a2, MUL tempMULT tempDIV a2, SUB temp a1 tempMULT]"
| "int_instrs PLUS_op temp a1 a2 tempDIV tempMULT = [ADD temp a1 a2]"
| "int_instrs MINUS_op temp a1 a2 tempDIV tempMULT = [SUB temp a1 a2]"

text \<open>
  The identities of the nodes of an expression, the identifier nodes included.
  Node identities are addresses, so in a tree they are pairwise distinct.
\<close>

fun ids_expr :: "expr \<Rightarrow> nat list"
  and ids_exprs :: "expr list \<Rightarrow> nat list"
where
  "ids_expr (Parenthesis n e) = n # ids_expr e"
| "ids_expr (ArrayIndex n a e) = n # ident_id a # ids_expr e"
| "ids_expr (FuncCall n f es) = n # ident_id f # ids_exprs es"
| "ids_expr (Unary n oper e) = n # ids_expr e"
| "ids_expr (Arithmetic n oper e1 e2) = n # ids_expr e1 @ ids_expr e2"
| "ids_expr (Relational n oper e1 e2) = n # ids_expr e1 @ ids_expr e2"
| "ids_expr (Boolean n oper e1 e2) = n # ids_expr e1 @ ids_expr e2"
| "ids_expr (Value_e n k txt) = [n]"
| "ids_expr (ExprIdent n x) = [n, ident_id x]"
| "ids_exprs [] = []"
| "ids_exprs (e # es) = ids_expr e @ ids_exprs es"

text \<open>
  A type the symbol collector can register for a symbol: not \<open>Error\<close>, not an
  array of \<open>Error\<close>, not a function with \<open>Error\<close> as a parameter type or as
  its return type. \<open>noErrorSymbols\<close> says that every symbol of every scope of a
  table has such a type, and \<open>noErrorDecor\<close> that no node is decorated with the
  type \<open>Error\<close>.
\<close>

definition noErrorTy :: "Type \<Rightarrow> bool" where
  "noErrorTy t =
     (case t of
        ErrorTy \<Rightarrow> False
      | ArrayTy n e \<Rightarrow> e \<noteq> ErrorTy
      | FunctionTy ps r \<Rightarrow> ErrorTy \<notin> set ps \<and> r \<noteq> ErrorTy
      | _ \<Rightarrow> True)"

definition noErrorSymbols :: "SymTable \<Rightarrow> bool" where
  "noErrorSymbols S =
     (\<forall>sc\<in>set (vectorScopes S). \<forall>sym\<in>set (symbols sc). noErrorTy (snd (snd sym)))"

definition noErrorDecor :: "pass_state \<Rightarrow> bool" where
  "noErrorDecor s = (\<forall>k. typeDecor (Decorations s) k \<noteq> Some ErrorTy)"

text \<open>
  What the code generator emits for one argument \<open>e\<close> of an accepted call whose
  declared parameter has type \<open>p\<close>, when the counters stand at \<open>c\<close> before the
  argument and at \<open>c'\<close> after it. The type \<open>te\<close> of the argument is the type of
  the parameter, or Integer for a Float parameter. The lowering of the argument
  takes the counters from \<open>c\<close> to \<open>c1\<close> and never back. The instructions are the
  code of the argument, then
  \<^item> when the parameter is Float and the argument is Integer, a \<open>FLOAT\<close> into the
    temporary that the counter names at \<open>c1\<close>, which is then taken;
  \<^item> otherwise, when the parameter is an array and the text of the argument does
    not name a parameter, an \<open>ALOAD\<close> into that temporary, which is then taken;
  \<^item> otherwise nothing, and no temporary is taken;

  and then the \<open>PUSH\<close> of the resulting address.
\<close>

definition argument_push ::
    "SymTable \<Rightarrow> TreeDecoration \<Rightarrow> Type \<Rightarrow> expr \<Rightarrow> counters \<Rightarrow> instructionList \<Rightarrow>
       counters \<Rightarrow> bool" where
  "argument_push S D p e c chunk c' =
     (\<exists>codAts c1 te.
        visitExpr_cg S D e c = Inr (codAts, c1) \<and>
        typeDecor D (expr_id e) = Some te \<and>
        (te = p \<or> (p = FloatTy \<and> te = IntegerTy)) \<and>
        tempCounter c \<le> tempCounter c1 \<and>
        (let tmp = ''%'' @ fst (newTEMP c1) in
         if p = FloatTy \<and> te = IntegerTy
         then chunk = code codAts @ [FLOAT tmp (addr codAts), PUSH (Some tmp)] \<and>
              c' = snd (newTEMP c1)
         else if isArrayTy p \<and> \<not> isParameterClass S (getText e)
         then chunk = code codAts @ [ALOAD tmp (addr codAts), PUSH (Some tmp)] \<and>
              c' = snd (newTEMP c1)
         else chunk = code codAts @ [PUSH (Some (addr codAts))] \<and> c' = c1))"

text \<open>
  The addresses of an instruction: the operands that name a variable or a
  temporary. Labels, the names of subroutines, the text of a string and the
  immediate value of a load are not addresses.
\<close>

fun addresses :: "instruction \<Rightarrow> string list" where
  "addresses (LABEL l) = []"
| "addresses (UJUMP l) = []"
| "addresses (FJUMP a l) = [a]"
| "addresses (ILOAD a v) = [a]"
| "addresses (FLOAD a v) = [a]"
| "addresses (CHLOAD a v) = [a]"
| "addresses (LOAD a b) = [a, b]"
| "addresses (LOADX a b i) = [a, b, i]"
| "addresses (XLOAD a i b) = [a, i, b]"
| "addresses (ALOAD a b) = [a, b]"
| "addresses (ADD a b c) = [a, b, c]"
| "addresses (SUB a b c) = [a, b, c]"
| "addresses (MUL a b c) = [a, b, c]"
| "addresses (DIV a b c) = [a, b, c]"
| "addresses (FADD a b c) = [a, b, c]"
| "addresses (FSUB a b c) = [a, b, c]"
| "addresses (FMUL a b c) = [a, b, c]"
| "addresses (FDIV a b c) = [a, b, c]"
| "addresses (NEG a b) = [a, b]"
| "addresses (FNEG a b) = [a, b]"
| "addresses (AND a b c) = [a, b, c]"
| "addresses (OR a b c) = [a, b, c]"
| "addresses (NOT a b) = [a, b]"
| "addresses (EQ a b c) = [a, b, c]"
| "addresses (LT a b c) = [a, b, c]"
| "addresses (LE a b c) = [a, b, c]"
| "addresses (FEQ a b c) = [a, b, c]"
| "addresses (FLT a b c) = [a, b, c]"
| "addresses (FLE a b c) = [a, b, c]"
| "addresses (FLOAT a b) = [a, b]"
| "addresses (READI a) = [a]"
| "addresses (READF a) = [a]"
| "addresses (READC a) = [a]"
| "addresses (WRITEI a) = [a]"
| "addresses (WRITEF a) = [a]"
| "addresses (WRITEC a) = [a]"
| "addresses (WRITES s) = []"
| "addresses (PUSH a) = (case a of None \<Rightarrow> [] | Some x \<Rightarrow> [x])"
| "addresses (POP a) = (case a of None \<Rightarrow> [] | Some x \<Rightarrow> [x])"
| "addresses (CALL f) = []"
| "addresses RETURN = []"

definition addresses_of :: "instructionList \<Rightarrow> string list" where
  "addresses_of is = concat (map addresses is)"

text \<open>
  A plain name is one that does not start with \<open>%\<close>, the mark with which the
  visitors prefix the names of the temporaries counter; the identifiers of a
  program are plain. \<open>names_expr\<close> lists the identifiers of an expression.
\<close>

definition plain :: "string \<Rightarrow> bool" where
  "plain x = (take 1 x \<noteq> ''%'')"

fun names_expr :: "expr \<Rightarrow> string list"
  and names_exprs :: "expr list \<Rightarrow> string list"
where
  "names_expr (Parenthesis n e) = names_expr e"
| "names_expr (ArrayIndex n a e) = ident_text a # names_expr e"
| "names_expr (FuncCall n f es) = ident_text f # names_exprs es"
| "names_expr (Unary n oper e) = names_expr e"
| "names_expr (Arithmetic n oper e1 e2) = names_expr e1 @ names_expr e2"
| "names_expr (Relational n oper e1 e2) = names_expr e1 @ names_expr e2"
| "names_expr (Boolean n oper e1 e2) = names_expr e1 @ names_expr e2"
| "names_expr (Value_e n k txt) = []"
| "names_expr (ExprIdent n x) = [ident_text x]"
| "names_exprs [] = []"
| "names_exprs (e # es) = names_expr e @ names_exprs es"

text \<open>
  An address stays within the counter values \<open>lo\<close> (included) and \<open>hi\<close>
  (excluded) when it is a plain name or the temporary that the counter names at
  one of those values.
\<close>

definition temps_within :: "nat \<Rightarrow> nat \<Rightarrow> string \<Rightarrow> bool" where
  "temps_within lo hi a = (plain a \<or> (\<exists>k\<in>{lo..<hi}. a = ''%t'' @ to_string_nat k))"

definition addresses_within :: "nat \<Rightarrow> nat \<Rightarrow> string list \<Rightarrow> bool" where
  "addresses_within lo hi as = (\<forall>a\<in>set as. temps_within lo hi a)"

text \<open>
  Two states of the type checker are related by \<open>ext A\<close> when the later log
  extends the earlier one and the type decorations differ on the nodes of \<open>A\<close>
  only; \<open>frames A m\<close> says that every run of \<open>m\<close> that ends relates its two
  states so.
\<close>

definition ext :: "nat set \<Rightarrow> pass_state \<Rightarrow> pass_state \<Rightarrow> bool" where
  "ext A s s' =
     (prefix (Errors s) (Errors s') \<and>
      (\<forall>k. k \<notin> A \<longrightarrow> typeDecor (Decorations s') k = typeDecor (Decorations s) k))"

definition frames :: "nat set \<Rightarrow> (pass_state \<Rightarrow> abort + pass_state) \<Rightarrow> bool" where
  "frames A m = (\<forall>s s'. m s = Inr s' \<longrightarrow> ext A s s')"

section \<open>Sample inputs\<close>

text \<open>
  The state before the first pass, and the tables as they stand inside the body
  of \<open>main\<close> of a program that declares a procedure \<open>f\<close>, a function
  \<open>g(v : float, w : array [3] of int) : int\<close> and, in \<open>main\<close>, the locals
  \<open>x : int\<close>, \<open>y : float\<close> and \<open>a : array [3] of int\<close>.
\<close>

definition start_state :: pass_state where
  "start_state = \<lparr>Decorations = noDecorations, Errors = []\<rparr>"

definition sample_table :: SymTable where
  "sample_table =
     \<lparr>vectorScopes =
        [\<lparr>scopeName = GLOBAL_SCOPE_NAME,
          symbols = [(''f'', FunctionClass, FunctionTy [] VoidTy),
                     (''g'', FunctionClass, FunctionTy [FloatTy, ArrayTy 3 IntegerTy] IntegerTy),
                     (''main'', FunctionClass, FunctionTy [] VoidTy)]\<rparr>,
         \<lparr>scopeName = ''main'',
          symbols = [(''x'', LocalVarClass, IntegerTy),
                     (''y'', LocalVarClass, FloatTy),
                     (''a'', LocalVarClass, ArrayTy 3 IntegerTy)]\<rparr>],
      scopeStack = [1, 0]\<rparr>"

text \<open>The decorations of the left expression \<open>a\<close> (node 1, its identifier node 2).\<close>

definition sample_decor :: TreeDecoration where
  "sample_decor =
     noDecorations\<lparr>typeDecor := [1 \<mapsto> ArrayTy 3 IntegerTy, 2 \<mapsto> ArrayTy 3 IntegerTy]\<rparr>"

text \<open>\<^verbatim>\<open>func f(a : int, a : int) endfunc\<close>\<close>

definition dup_params :: function_node where
  "dup_params = Function 1 ''f''
     [Parameter_decl 2 ''a'' (Type_basic 3 (Basic_type 4 INT_tok)),
      Parameter_decl 5 ''a'' (Type_basic 6 (Basic_type 7 INT_tok))] None [] []"

text \<open>\<^verbatim>\<open>func main() endfunc\<close>\<close>

definition empty_main :: program where
  "empty_main = Program 0 [Function 1 ''main'' [] None [] []]"

text \<open>
  The tables inside the body of \<open>g(v : float, w : array [3] of int) : int\<close>,
  which declares the local \<open>a : array [3] of int\<close>; the call \<open>g(v, w)\<close> there;
  and the arguments \<open>x, a\<close> of a call of \<open>g\<close> in \<open>main\<close>.
\<close>

definition table_in_g :: SymTable where
  "table_in_g =
     \<lparr>vectorScopes =
        [\<lparr>scopeName = GLOBAL_SCOPE_NAME,
          symbols = [(''g'', FunctionClass, FunctionTy [FloatTy, ArrayTy 3 IntegerTy] IntegerTy)]\<rparr>,
         \<lparr>scopeName = ''g'',
          symbols = [(''v'', ParameterClass, FloatTy),
                     (''w'', ParameterClass, ArrayTy 3 IntegerTy),
                     (''a'', LocalVarClass, ArrayTy 3 IntegerTy)]\<rparr>],
      scopeStack = [1, 0]\<rparr>"

definition call_g_v_w :: expr where
  "call_g_v_w = FuncCall 0 (Ident 1 ''g'') [ExprIdent 2 (Ident 3 ''v''), ExprIdent 4 (Ident 5 ''w'')]"

definition args_x_a :: "expr list" where
  "args_x_a = [ExprIdent 2 (Ident 3 ''x''), ExprIdent 4 (Ident 5 ''a'')]"

text \<open>The decorations of an array identifier expression (node 4, its identifier node 5).\<close>

definition array_args_decor :: TreeDecoration where
  "array_args_decor =
     noDecorations\<lparr>typeDecor := [4 \<mapsto> ArrayTy 3 IntegerTy, 5 \<mapsto> ArrayTy 3 IntegerTy]\<rparr>"

text \<open>The expressions \<open>x + 1.5\<close> and \<open>1 % 2.0\<close>, and the decorations of the first.\<close>

definition x_plus_float :: expr where
  "x_plus_float = Arithmetic 0 PLUS_op (ExprIdent 1 (Ident 2 ''x'')) (Value_e 3 FLOATVAL ''1.5'')"

definition int_mod_float :: expr where
  "int_mod_float = Arithmetic 0 MOD_op (Value_e 1 INTVAL ''1'') (Value_e 2 FLOATVAL ''2.0'')"

definition arith_decor :: TreeDecoration where
  "arith_decor = noDecorations\<lparr>typeDecor := [1 \<mapsto> IntegerTy, 2 \<mapsto> IntegerTy, 3 \<mapsto> FloatTy]\<rparr>"

text \<open>The expression \<open>3.0 % 2.0\<close> and its decorations.\<close>

definition float_mod_float :: expr where
  "float_mod_float = Arithmetic 0 MOD_op (Value_e 1 FLOATVAL ''3.0'') (Value_e 2 FLOATVAL ''2.0'')"

definition float_mod_decor :: TreeDecoration where
  "float_mod_decor = noDecorations\<lparr>typeDecor := [0 \<mapsto> FloatTy, 1 \<mapsto> FloatTy, 2 \<mapsto> FloatTy]\<rparr>"

section \<open>Properties\<close>

subsection \<open>Sequencing and the tables\<close>

lemma bnd_Inl [simp]: "bnd (Inl a) f = Inl a"
  by (simp add: bnd_def)

lemma bnd_Inr [simp]: "bnd (Inr x) f = f x"
  by (simp add: bnd_def)

lemma bnd_eq_Inr: "bnd m f = Inr y \<longleftrightarrow> (\<exists>x. m = Inr x \<and> f x = Inr y)"
  by (cases m) simp_all

lemmas decor_defs =
  getTypeDecor_def getIsLValueDecor_def getScopeDecor_def getType_d_def getIsLValue_def
  getScope_def putTypeDecor_def putIsLValueDecor_def putScopeDecor_def putType_def
  putIsLValue_def putScope_def report_def

lemmas symtab_defs = findInStack_def getType_def isFunctionClass_def isParameterClass_def

lemmas sample_defs =
  sample_table_def start_state_def noDecorations_def symtab_defs findInScope_def
  GLOBAL_SCOPE_NAME_def

subsection \<open>The type checker: identifiers\<close>

text \<open>
  Claim C4. The type checker's visit of an identifier node always ends. If the name
  is not found in the scope stack (\<open>findInStack\<close> is \<open>-1\<close>), it appends
  \<open>UndeclaredIdent\<close> to the log and decorates the node with type \<open>Error\<close> and
  l-value \<open>True\<close>. Otherwise it appends nothing and decorates the node with the
  type of the symbol found, and with an l-value flag that is true exactly when the
  kind of that symbol is not Function.
\<close>

theorem visitIdent_tc_decorates:
  "\<exists>s'. visitIdent_tc S (Ident k x) s = Inr s' \<and>
     (findInStack S x = - 1) = (findSymbol S (scopeStack S) x = None) \<and>
     (case findSymbol S (scopeStack S) x of
        None \<Rightarrow>
          Errors s' = Errors s @ [(UndeclaredIdent, k)] \<and>
          typeDecor (Decorations s') k = Some ErrorTy \<and>
          isLValueDecor (Decorations s') k = Some True
      | Some (i, cls, t) \<Rightarrow>
          Errors s' = Errors s \<and>
          typeDecor (Decorations s') k = Some t \<and>
          isLValueDecor (Decorations s') k = Some (cls \<noteq> FunctionClass))"
proof (cases "findSymbol S (scopeStack S) x")
  case None
  then show ?thesis
    by (simp add: symtab_defs decor_defs)
next
  case (Some r)
  obtain i cls t where r: "r = (i, cls, t)"
    by (cases r)
  from Some r show ?thesis
    by (simp add: symtab_defs decor_defs)
qed

subsection \<open>The type checker: read statements\<close>

lemma visitLeft_expr_tc_decorates:
  assumes "visitLeft_expr_tc S le s = Inr s1"
  shows "\<exists>t b. typeDecor (Decorations s1) (left_expr_id le) = Some t \<and>
               isLValueDecor (Decorations s1) (left_expr_id le) = Some b"
proof (cases le)
  case (Left_expr n x eo)
  show ?thesis
  proof (cases eo)
    case None
    with assms Left_expr show ?thesis
      by (auto simp: bnd_eq_Inr decor_defs)
  next
    case (Some e)
    with assms Left_expr show ?thesis
      by (auto simp: bnd_eq_Inr decor_defs Let_def split: if_splits)
  qed
qed

text \<open>
  Claim C3 says that, for a target whose type is not \<open>Error\<close>,
  \<open>ReadWriteRequireBasic\<close> is emitted if and only if the type is not primitive, and
  that no other condition on the type suppresses a diagnostic. The code has one:
  \<^verbatim>\<open>visitReadStmt\<close> also tests \<^verbatim>\<open>not Types.isFunctionTy(t1)\<close>. In
  \<open>read f\<close>, with \<open>f\<close> a procedure, the target has a function type, which is
  neither \<open>Error\<close> nor primitive, and the only diagnostic is
  \<open>NonReferenceableExpression\<close>.
\<close>

theorem read_function_counterexample:
  "case visitStatement_tc sample_table (FunctionTy [] VoidTy)
          (ReadStmt 0 (Left_expr 1 (Ident 2 ''f'') None)) start_state of
     Inr s2 \<Rightarrow>
       typeDecor (Decorations s2) 1 = Some (FunctionTy [] VoidTy) \<and>
       \<not> isErrorTy (FunctionTy [] VoidTy) \<and> \<not> isPrimitiveTy (FunctionTy [] VoidTy) \<and>
       Errors s2 = [(NonReferenceableExpression, 0)]
   | Inl a \<Rightarrow> False"
  by code_simp

text \<open>
  Claim C3, amended. When the visit of the target of a read statement ends, the
  target node has a type \<open>t1\<close> and an l-value flag \<open>b\<close>, the visit of the
  statement ends too and changes no decoration, and what it appends to the log is:
  \<open>ReadWriteRequireBasic\<close> exactly when \<open>t1\<close> is not \<open>Error\<close>, not primitive and
  not a function type; then \<open>NonReferenceableExpression\<close> exactly when \<open>t1\<close> is
  not \<open>Error\<close> and \<open>b\<close> is false. Nothing else is appended.
\<close>

theorem visitReadStmt_tc_diagnostics:
  assumes "visitLeft_expr_tc S le s = Inr s1"
  shows "\<exists>t1 b s2.
     typeDecor (Decorations s1) (left_expr_id le) = Some t1 \<and>
     isLValueDecor (Decorations s1) (left_expr_id le) = Some b \<and>
     visitStatement_tc S Tfunc (ReadStmt n le) s = Inr s2 \<and>
     Decorations s2 = Decorations s1 \<and>
     Errors s2 = Errors s1 @
       (if t1 \<noteq> ErrorTy \<and> \<not> isPrimitiveTy t1 \<and> \<not> isFunctionTy t1
        then [(ReadWriteRequireBasic, n)] else []) @
       (if t1 \<noteq> ErrorTy \<and> \<not> b then [(NonReferenceableExpression, n)] else [])"
proof -
  from visitLeft_expr_tc_decorates [OF assms] obtain t1 b where
    tb: "typeDecor (Decorations s1) (left_expr_id le) = Some t1"
        "isLValueDecor (Decorations s1) (left_expr_id le) = Some b"
    by blast
  with assms show ?thesis
    by (simp add: visitReadStmt_tc_def decor_defs isErrorTy_def)
qed

text \<open>The statement \<open>read a\<close>, with \<open>a\<close> a local array: one diagnostic.\<close>

theorem visitReadStmt_tc_diagnostics_witness:
  "visitLeft_expr_tc sample_table (Left_expr 1 (Ident 2 ''a'') None) start_state =
     Inr (putIsLValueDecor 1 True (putTypeDecor 1 (ArrayTy 3 IntegerTy)
           (putIsLValueDecor 2 True (putTypeDecor 2 (ArrayTy 3 IntegerTy) start_state)))) \<and>
   (case visitStatement_tc sample_table (FunctionTy [] VoidTy)
           (ReadStmt 0 (Left_expr 1 (Ident 2 ''a'') None)) start_state of
      Inr s2 \<Rightarrow> Errors s2 = [(ReadWriteRequireBasic, 0)]
    | Inl a \<Rightarrow> False)"
proof -
  have run: "visitLeft_expr_tc sample_table (Left_expr 1 (Ident 2 ''a'') None) start_state =
     Inr (putIsLValueDecor 1 True (putTypeDecor 1 (ArrayTy 3 IntegerTy)
           (putIsLValueDecor 2 True (putTypeDecor 2 (ArrayTy 3 IntegerTy) start_state))))"
    by (simp add: sample_table_def start_state_def symtab_defs findInScope_def decor_defs)
  from visitReadStmt_tc_diagnostics [OF run, of "FunctionTy [] VoidTy" 0] run show ?thesis
    by (auto simp: decor_defs start_state_def noDecorations_def isPrimitiveTy_def)
qed

subsection \<open>The code generator: read statements\<close>

text \<open>
  Claim C9. When the code generator reaches a read statement whose target it has
  lowered and whose type decoration is none of Integer, Boolean, Float and
  Character, the result is the \<^verbatim>\<open>exit(0)\<close> of \<^verbatim>\<open>visitReadStmt\<close>: the process
  ends and no instruction list comes back. The code generator holds no error
  reporter (its result type has no log), so no diagnostic is recorded.
\<close>

theorem visitReadStmt_cg_exits:
  assumes "visitLeft_expr_cg S D le c = Inr (codAts, c1)"
      and "typeDecor D (left_expr_id le) = Some tid"
      and "tid \<noteq> IntegerTy" and "tid \<noteq> BooleanTy" and "tid \<noteq> FloatTy" and "tid \<noteq> CharacterTy"
  shows "visitStatement_cg S D (ReadStmt n le) c = Inl ProcessExit"
  using assms
  by (simp add: visitReadStmt_cg_def getType_d_def Let_def isIntegerTy_def isBooleanTy_def
      isFloatTy_def isCharacterTy_def split: prod.splits)

text \<open>The statement \<open>read a\<close>, with \<open>a\<close> a local array.\<close>

theorem visitReadStmt_cg_exits_witness:
  "visitLeft_expr_cg sample_table sample_decor (Left_expr 1 (Ident 2 ''a'') None) reset =
     Inr (\<lparr>addr = ''a'', offs = [], code = []\<rparr>, reset) \<and>
   typeDecor sample_decor 1 = Some (ArrayTy 3 IntegerTy) \<and>
   visitStatement_cg sample_table sample_decor (ReadStmt 0 (Left_expr 1 (Ident 2 ''a'') None)) reset =
     Inl ProcessExit"
proof -
  have run: "visitLeft_expr_cg sample_table sample_decor (Left_expr 1 (Ident 2 ''a'') None) reset =
     Inr (\<lparr>addr = ''a'', offs = [], code = []\<rparr>, reset)"
    by (simp add: sample_decor_def sample_table_def getType_d_def symtab_defs findInScope_def)
  have ty: "typeDecor sample_decor (left_expr_id (Left_expr 1 (Ident 2 ''a'') None)) =
     Some (ArrayTy 3 IntegerTy)"
    by (simp add: sample_decor_def)
  from visitReadStmt_cg_exits [OF run ty, of 0] run ty show ?thesis
    by simp
qed

subsection \<open>Nodes the passes leave without a decoration\<close>

text \<open>
  Claim C1 fails on the code. \<^verbatim>\<open>TypeCheckVisitor::visitFuncCall\<close> writes no type
  and no l-value flag on a call node whose callee is not a function (\<open>x()\<close> with
  \<open>x\<close> an integer variable), and no type when the callee returns Void (\<open>f()\<close>
  with \<open>f\<close> a procedure); \<^verbatim>\<open>visitArrayIndex\<close> writes no type when the base is not
  an array (\<open>x[0]\<close>). A visitor that then reads the decoration, as
  \<^verbatim>\<open>visitWriteExpr\<close> does in \<open>write f()\<close>, reads an entry that was never set.
\<close>

theorem call_and_index_nodes_left_undecorated:
  "(case visitExpr_tc sample_table (FuncCall 0 (Ident 1 ''x'') []) start_state of
      Inr s \<Rightarrow> typeDecor (Decorations s) 0 = None \<and> isLValueDecor (Decorations s) 0 = None \<and>
               Errors s = [(IsNotCallable, 1)]
    | Inl a \<Rightarrow> False) \<and>
   (case visitExpr_tc sample_table (FuncCall 0 (Ident 1 ''f'') []) start_state of
      Inr s \<Rightarrow> typeDecor (Decorations s) 0 = None \<and> isLValueDecor (Decorations s) 0 = Some False \<and>
               Errors s = [(IsNotFunction, 1)]
    | Inl a \<Rightarrow> False) \<and>
   (case visitExpr_tc sample_table (ArrayIndex 0 (Ident 1 ''x'') (Value_e 2 INTVAL ''0''))
           start_state of
      Inr s \<Rightarrow> typeDecor (Decorations s) 0 = None \<and> isLValueDecor (Decorations s) 0 = Some True \<and>
               Errors s = [(NonArrayInArrayAccess, 0)]
    | Inl a \<Rightarrow> False) \<and>
   (case visitStatement_tc sample_table (FunctionTy [] VoidTy)
           (WriteExpr 3 (FuncCall 0 (Ident 1 ''f'') [])) start_state of
      Inr s \<Rightarrow> False
    | Inl a \<Rightarrow> a = UnsetType (Some 0))"
  by code_simp

text \<open>
  Claim C2 fails on the code for the expression form. In \<open>x[0]\<close> with \<open>x\<close> an
  integer variable, \<^verbatim>\<open>visitArrayIndex\<close> emits \<open>NonArrayInArrayAccess\<close> and then
  writes no type on the node: the decoration is unset, not \<open>Error\<close>. The sibling
  \<^verbatim>\<open>visitLeft_expr\<close> does what the claim says on the same access: it emits the
  diagnostic and writes \<open>Error\<close>.
\<close>

theorem array_index_type_unset_not_Error:
  "(case visitExpr_tc sample_table (ArrayIndex 0 (Ident 1 ''x'') (Value_e 2 INTVAL ''0''))
           start_state of
      Inr s \<Rightarrow> Errors s = [(NonArrayInArrayAccess, 0)] \<and>
               typeDecor (Decorations s) 0 = None \<and>
               typeDecor (Decorations s) 0 \<noteq> Some ErrorTy
    | Inl a \<Rightarrow> False) \<and>
   (case visitLeft_expr_tc sample_table
           (Left_expr 0 (Ident 1 ''x'') (Some (Value_e 2 INTVAL ''0''))) start_state of
      Inr s \<Rightarrow> Errors s = [(NonArrayInArrayAccess, 1)] \<and>
               typeDecor (Decorations s) 0 = Some ErrorTy
    | Inl a \<Rightarrow> False)"
  by code_simp

text \<open>
  Claim C8 fails on the code. In \<^verbatim>\<open>SymbolsVisitor::visitParameter_decl\<close> the call
  of \<^verbatim>\<open>putTypeDecor\<close> stands in the branch that registers the parameter, so the
  node of a duplicate parameter gets \<open>DeclaredIdent\<close> and no type. The loop of
  \<^verbatim>\<open>visitFunction\<close> reads the type decoration of every parameter node: on
  \<open>f(a : int, a : int)\<close> it reads the unset entry of the second one.
\<close>

theorem duplicate_parameter_left_undecorated:
  "(case bnd (visitParameter_decl_sym (Parameter_decl 2 ''a'' (Type_basic 3 (Basic_type 4 INT_tok)))
             (snd (pushNewScope ''f'' (snd (pushNewScope GLOBAL_SCOPE_NAME emptySymTable))),
              start_state))
         (visitParameter_decl_sym (Parameter_decl 5 ''a'' (Type_basic 6 (Basic_type 7 INT_tok)))) of
      Inr (S, s) \<Rightarrow> Errors s = [(DeclaredIdent, 5)] \<and>
                    typeDecor (Decorations s) 2 = Some IntegerTy \<and>
                    typeDecor (Decorations s) 5 = None
    | Inl a \<Rightarrow> False) \<and>
   (case visitProgram_sym (Program 0 [dup_params]) (emptySymTable, start_state) of
      Inr st \<Rightarrow> False
    | Inl a \<Rightarrow> a = UnsetType (Some 5))"
  by code_simp

text \<open>
  Claim C10 fails on the code. \<^verbatim>\<open>CodeGenVisitor::visitFunction\<close> calls
  \<^verbatim>\<open>getTypeDecor(ctx->basic_type())\<close> before it tests \<^verbatim>\<open>ctx->basic_type()\<close>:
  for a function with no declared return type the lookup is made on the absent
  node, whatever the tables hold, and under the decoration store's contract that
  read is the fatal outcome. The second part runs the three passes on
  \<^verbatim>\<open>func main() endfunc\<close>: the first two accept it, the third one stops at the
  lookup.
\<close>

theorem visitFunction_cg_reads_absent_return_type:
  "(case visitFunction_cg to_string S D (Function n name params None decls stmts) of
      Inr subr \<Rightarrow> False
    | Inl a \<Rightarrow> a = UnsetScope (Some n) \<or> a = BadSymbolQuery \<or> a = UnsetType None) \<and>
   (case visitProgram_sym empty_main (emptySymTable, start_state) of
      Inr (S, s) \<Rightarrow>
        (case visitProgram_tc S empty_main s of
           Inr s' \<Rightarrow> Errors s' = [] \<and>
             (case visitProgram_cg to_string S (Decorations s') empty_main of
                Inr subrs \<Rightarrow> False
              | Inl a \<Rightarrow> a = UnsetType None)
         | Inl a \<Rightarrow> False)
    | Inl a \<Rightarrow> False)"
proof
  show "case visitFunction_cg to_string S D (Function n name params None decls stmts) of
      Inr subr \<Rightarrow> False
    | Inl a \<Rightarrow> a = UnsetScope (Some n) \<or> a = BadSymbolQuery \<or> a = UnsetType None"
    by (simp add: getScope_def pushThisScope_def getType_ptr_def split: option.splits)
next
  show "case visitProgram_sym empty_main (emptySymTable, start_state) of
      Inr (S, s) \<Rightarrow>
        (case visitProgram_tc S empty_main s of
           Inr s' \<Rightarrow> Errors s' = [] \<and>
             (case visitProgram_cg to_string S (Decorations s') empty_main of
                Inr subrs \<Rightarrow> False
              | Inl a \<Rightarrow> a = UnsetType None)
         | Inl a \<Rightarrow> False)
    | Inl a \<Rightarrow> False"
    by (simp add: empty_main_def emptySymTable_def start_state_def noDecorations_def
        pushNewScope_def decor_defs popScope_def findInCurrentScope_def findInScope_def
        addFunction_def addSymbol_def pushThisScope_def noMainProperlyDeclared_def
        getType_ptr_def Let_def)
qed

subsection \<open>Effects of the primitive steps\<close>

lemma Errors_put [simp]:
  "Errors (putTypeDecor n t s) = Errors s"
  "Errors (putIsLValueDecor n b s) = Errors s"
  "Errors (report k n s) = Errors s @ [(k, n)]"
  by (simp_all add: decor_defs)

lemma typeDecor_put [simp]:
  "typeDecor (Decorations (putTypeDecor n t s)) k =
     (if k = n then Some t else typeDecor (Decorations s) k)"
  "typeDecor (Decorations (putIsLValueDecor n b s)) k = typeDecor (Decorations s) k"
  "typeDecor (Decorations (report e n s)) k = typeDecor (Decorations s) k"
  by (simp_all add: decor_defs)

lemma getTypeDecor_eq_Inr [simp]:
  "getTypeDecor s n = Inr t \<longleftrightarrow> typeDecor (Decorations s) n = Some t"
  by (simp add: decor_defs split: option.splits)

lemma getType_d_eq_Inr [simp]: "getType_d D n = Inr t \<longleftrightarrow> typeDecor D n = Some t"
  by (simp add: getType_d_def split: option.splits)

subsection \<open>Arithmetic expressions\<close>

text \<open>
  Claim C5 says that, for numeric operands of which exactly one is Float, the code
  generator inserts one \<open>FLOAT\<close> before the arithmetic instruction, whatever the
  operator. For the remainder it does not: \<^verbatim>\<open>visitArithmetic\<close> reaches
  \<^verbatim>\<open>exit(0)\<close> in its \<^verbatim>\<open>ctx->MOD()\<close> branch. On \<open>1 % 2.0\<close> the type
  checker decorates the operands Integer and Float and the node Float, emits
  \<open>IncompatibleOperator\<close>, and the code generator ends the process without an
  instruction list.
\<close>

theorem mod_on_float_counterexample:
  "case visitExpr_tc sample_table int_mod_float start_state of
     Inr s \<Rightarrow>
       typeDecor (Decorations s) 1 = Some IntegerTy \<and> isNumericTy IntegerTy \<and>
       typeDecor (Decorations s) 2 = Some FloatTy \<and> isNumericTy FloatTy \<and>
       typeDecor (Decorations s) 0 = Some FloatTy \<and>
       Errors s = [(IncompatibleOperator, 0)] \<and>
       visitExpr_cg sample_table (Decorations s) int_mod_float reset = Inl ProcessExit
   | Inl a \<Rightarrow> False"
  by (simp add: int_mod_float_def start_state_def noDecorations_def decor_defs isNumericTy_def
      isFloatTy_def isErrorTy_def Let_def getType_d_def newTEMP_def split_beta)

text \<open>
  Claim C5, amended. Let the operand types \<open>t1\<close> and \<open>t2\<close> be numeric. The type
  checker, once both operands are visited, decorates the node Float if either
  operand is Float and Integer otherwise, with l-value false, and appends
  \<open>IncompatibleOperator\<close> exactly when the operator is \<open>%\<close> and an operand is
  Float. The code generator, once both operands are lowered, takes a fresh
  temporary for the result and then:
  \<^item> if an operand is Float and the operator is \<open>%\<close>, it exits, whether one operand
    is Float or both are;
  \<^item> if exactly one operand is Float and the operator is \<open>*\<close>, \<open>/\<close>, \<open>+\<close> or
    \<open>-\<close>, it appends to the operands' code exactly two instructions: one \<open>FLOAT\<close>
    of the address of the operand that is not Float into the next fresh temporary,
    then the float instruction of the operator on that temporary and the address
    of the other operand;
  \<^item> if both operands are Float, it appends the float instruction alone;
  \<^item> if both are Integer, it appends the integer instructions and no \<open>FLOAT\<close>.
\<close>

theorem visitArithmetic_numeric:
  assumes "isNumericTy t1" and "isNumericTy t2"
  shows
    "(visitExpr_tc S e1 s = Inr s1 \<and> typeDecor (Decorations s1) (expr_id e1) = Some t1 \<and>
      visitExpr_tc S e2 s1 = Inr s2 \<and> typeDecor (Decorations s2) (expr_id e2) = Some t2 \<longrightarrow>
      (\<exists>s3. visitExpr_tc S (Arithmetic n oper e1 e2) s = Inr s3 \<and>
            typeDecor (Decorations s3) n =
              Some (if t1 = FloatTy \<or> t2 = FloatTy then FloatTy else IntegerTy) \<and>
            isLValueDecor (Decorations s3) n = Some False \<and>
            Errors s3 = Errors s2 @
              (if oper = MOD_op \<and> (t1 = FloatTy \<or> t2 = FloatTy)
               then [(IncompatibleOperator, n)] else []))) \<and>
     (visitExpr_cg S D e1 c = Inr (codAt1, c1) \<and> typeDecor D (expr_id e1) = Some t1 \<and>
      visitExpr_cg S D e2 c1 = Inr (codAt2, c2) \<and> typeDecor D (expr_id e2) = Some t2 \<longrightarrow>
      visitExpr_cg S D (Arithmetic n oper e1 e2) c =
        (let temp = ''%'' @ fst (newTEMP c2); c3 = snd (newTEMP c2);
             tempFloat = ''%'' @ fst (newTEMP c3); c4 = snd (newTEMP c3);
             operands = code codAt1 @ code codAt2
         in if t1 = FloatTy \<or> t2 = FloatTy
            then (case float_instr oper of
                    None \<Rightarrow> Inl ProcessExit
                  | Some fop \<Rightarrow>
                      if t1 \<noteq> FloatTy
                      then Inr (\<lparr>addr = temp, offs = [],
                                 code = operands @ [FLOAT tempFloat (addr codAt1),
                                                    fop temp tempFloat (addr codAt2)]\<rparr>, c4)
                      else if t2 \<noteq> FloatTy
                      then Inr (\<lparr>addr = temp, offs = [],
                                 code = operands @ [FLOAT tempFloat (addr codAt2),
                                                    fop temp (addr codAt1) tempFloat]\<rparr>, c4)
                      else Inr (\<lparr>addr = temp, offs = [],
                                 code = operands @ [fop temp (addr codAt1) (addr codAt2)]\<rparr>, c3))
            else Inr (\<lparr>addr = temp, offs = [],
                       code = operands @ int_instrs oper temp (addr codAt1) (addr codAt2)
                                (''%'' @ fst (newTEMP c3)) (''%'' @ fst (newTEMP c4))\<rparr>,
                      if oper = MOD_op then snd (newTEMP c4) else c3)))"
proof (intro conjI impI; elim conjE)
  assume "visitExpr_tc S e1 s = Inr s1" "typeDecor (Decorations s1) (expr_id e1) = Some t1"
    "visitExpr_tc S e2 s1 = Inr s2" "typeDecor (Decorations s2) (expr_id e2) = Some t2"
  with assms show "\<exists>s3. visitExpr_tc S (Arithmetic n oper e1 e2) s = Inr s3 \<and>
            typeDecor (Decorations s3) n =
              Some (if t1 = FloatTy \<or> t2 = FloatTy then FloatTy else IntegerTy) \<and>
            isLValueDecor (Decorations s3) n = Some False \<and>
            Errors s3 = Errors s2 @
              (if oper = MOD_op \<and> (t1 = FloatTy \<or> t2 = FloatTy)
               then [(IncompatibleOperator, n)] else [])"
    by (auto simp: decor_defs isNumericTy_def isFloatTy_def isErrorTy_def Let_def)
next
  assume "visitExpr_cg S D e1 c = Inr (codAt1, c1)" "typeDecor D (expr_id e1) = Some t1"
    "visitExpr_cg S D e2 c1 = Inr (codAt2, c2)" "typeDecor D (expr_id e2) = Some t2"
  then show "visitExpr_cg S D (Arithmetic n oper e1 e2) c =
        (let temp = ''%'' @ fst (newTEMP c2); c3 = snd (newTEMP c2);
             tempFloat = ''%'' @ fst (newTEMP c3); c4 = snd (newTEMP c3);
             operands = code codAt1 @ code codAt2
         in if t1 = FloatTy \<or> t2 = FloatTy
            then (case float_instr oper of
                    None \<Rightarrow> Inl ProcessExit
                  | Some fop \<Rightarrow>
                      if t1 \<noteq> FloatTy
                      then Inr (\<lparr>addr = temp, offs = [],
                                 code = operands @ [FLOAT tempFloat (addr codAt1),
                                                    fop temp tempFloat (addr codAt2)]\<rparr>, c4)
                      else if t2 \<noteq> FloatTy
                      then Inr (\<lparr>addr = temp, offs = [],
                                 code = operands @ [FLOAT tempFloat (addr codAt2),
                                                    fop temp (addr codAt1) tempFloat]\<rparr>, c4)
                      else Inr (\<lparr>addr = temp, offs = [],
                                 code = operands @ [fop temp (addr codAt1) (addr codAt2)]\<rparr>, c3))
            else Inr (\<lparr>addr = temp, offs = [],
                       code = operands @ int_instrs oper temp (addr codAt1) (addr codAt2)
                                (''%'' @ fst (newTEMP c3)) (''%'' @ fst (newTEMP c4))\<rparr>,
                      if oper = MOD_op then snd (newTEMP c4) else c3))"
    by (cases oper) (auto simp: getType_d_def isFloatTy_def Let_def split_beta)
qed


text \<open>
  The expression \<open>x + 1.5\<close> with \<open>x\<close> an integer variable, and the expression
  \<open>3.0 % 2.0\<close>.
\<close>

theorem visitArithmetic_numeric_witness:
  "(\<exists>s3. visitExpr_tc sample_table x_plus_float start_state = Inr s3 \<and>
         typeDecor (Decorations s3) 0 = Some FloatTy \<and>
         isLValueDecor (Decorations s3) 0 = Some False \<and>
         Errors s3 = []) \<and>
   visitExpr_cg sample_table arith_decor x_plus_float reset =
     Inr (\<lparr>addr = ''%t1'', offs = [],
           code = [FLOAD ''%t0'' ''1.5'', FLOAT ''%t2'' ''x'', FADD ''%t1'' ''%t2'' ''%t0'']\<rparr>,
          \<lparr>tempCounter = 3, ifCounter = 0, whileCounter = 0\<rparr>) \<and>
   visitExpr_cg sample_table float_mod_decor float_mod_float reset = Inl ProcessExit"
proof -
  let ?x = "ExprIdent 1 (Ident 2 ''x'')" and ?f = "Value_e 3 FLOATVAL ''1.5''"
  have num: "isNumericTy IntegerTy" "isNumericTy FloatTy"
    by (simp_all add: isNumericTy_def)
  have "\<exists>s1. visitExpr_tc sample_table ?x start_state = Inr s1 \<and>
          typeDecor (Decorations s1) 1 = Some IntegerTy \<and> Errors s1 = []"
    by (simp add: sample_defs decor_defs)
  then obtain s1 where
    e1: "visitExpr_tc sample_table ?x start_state = Inr s1" and
    t1: "typeDecor (Decorations s1) (expr_id ?x) = Some IntegerTy" and
    ok1: "Errors s1 = []"
    by auto
  have e2: "visitExpr_tc sample_table ?f s1 =
      Inr (putIsLValueDecor 3 False (putTypeDecor 3 FloatTy s1))"
    by simp
  have t2: "typeDecor (Decorations (putIsLValueDecor 3 False (putTypeDecor 3 FloatTy s1)))
      (expr_id ?f) = Some FloatTy"
    by simp
  note inst = visitArithmetic_numeric [OF num, of sample_table ?x start_state s1 ?f _ 0 PLUS_op
      arith_decor reset]
  from inst [THEN conjunct1, rule_format, OF conjI [OF e1 conjI [OF t1 conjI [OF e2 t2]]]] ok1
  have first: "\<exists>s3. visitExpr_tc sample_table x_plus_float start_state = Inr s3 \<and>
         typeDecor (Decorations s3) 0 = Some FloatTy \<and>
         isLValueDecor (Decorations s3) 0 = Some False \<and>
         Errors s3 = []"
    unfolding x_plus_float_def by (elim exE conjE) (intro exI conjI; simp)
  have c1: "visitExpr_cg sample_table arith_decor ?x reset =
      Inr (\<lparr>addr = ''x'', offs = [], code = []\<rparr>, reset)"
    by (simp add: arith_decor_def sample_defs getType_d_def)
  have d1: "typeDecor arith_decor (expr_id ?x) = Some IntegerTy"
    by (simp add: arith_decor_def)
  have c2: "visitExpr_cg sample_table arith_decor ?f reset =
      Inr (\<lparr>addr = ''%t0'', offs = [], code = [FLOAD ''%t0'' ''1.5'']\<rparr>,
           \<lparr>tempCounter = 1, ifCounter = 0, whileCounter = 0\<rparr>)"
    by (simp add: newTEMP_def reset_def digit_char_def Let_def)
  have d2: "typeDecor arith_decor (expr_id ?f) = Some FloatTy"
    by (simp add: arith_decor_def)
  from inst [THEN conjunct2, rule_format, OF conjI [OF c1 conjI [OF d1 conjI [OF c2 d2]]]]
  have second: "visitExpr_cg sample_table arith_decor x_plus_float reset =
     Inr (\<lparr>addr = ''%t1'', offs = [],
           code = [FLOAD ''%t0'' ''1.5'', FLOAT ''%t2'' ''x'', FADD ''%t1'' ''%t2'' ''%t0'']\<rparr>,
          \<lparr>tempCounter = 3, ifCounter = 0, whileCounter = 0\<rparr>)"
    unfolding x_plus_float_def
    by (simp add: newTEMP_def reset_def digit_char_def Let_def del: visitExpr_cg.simps)
  let ?a = "Value_e 1 FLOATVAL ''3.0''" and ?b = "Value_e 2 FLOATVAL ''2.0''"
  have m1: "visitExpr_cg sample_table float_mod_decor ?a reset =
      Inr (\<lparr>addr = ''%t0'', offs = [], code = [FLOAD ''%t0'' ''3.0'']\<rparr>,
           \<lparr>tempCounter = 1, ifCounter = 0, whileCounter = 0\<rparr>)"
    by (simp add: newTEMP_def reset_def digit_char_def Let_def)
  have m2: "visitExpr_cg sample_table float_mod_decor ?b
        \<lparr>tempCounter = 1, ifCounter = 0, whileCounter = 0\<rparr> =
      Inr (\<lparr>addr = ''%t1'', offs = [], code = [FLOAD ''%t1'' ''2.0'']\<rparr>,
           \<lparr>tempCounter = 2, ifCounter = 0, whileCounter = 0\<rparr>)"
    by (simp add: newTEMP_def digit_char_def Let_def)
  have f1: "typeDecor float_mod_decor (expr_id ?a) = Some FloatTy"
    and f2: "typeDecor float_mod_decor (expr_id ?b) = Some FloatTy"
    by (simp_all add: float_mod_decor_def)
  from visitArithmetic_numeric [OF num(2) num(2), of sample_table ?a start_state start_state ?b
      start_state 0 MOD_op float_mod_decor reset,
      THEN conjunct2, rule_format, OF conjI [OF m1 conjI [OF f1 conjI [OF m2 f2]]]]
  have third: "visitExpr_cg sample_table float_mod_decor float_mod_float reset = Inl ProcessExit"
    unfolding float_mod_float_def
    by (simp add: Let_def del: visitExpr_cg.simps)
  from first second third show ?thesis
    by (intro conjI)
qed

subsection \<open>Array identifiers as arguments\<close>

text \<open>
  Claim C7 says that an array parameter passed on as an argument is pushed
  directly, with no instruction in between, and that the dereferencing
  \<open>LOAD\<close> is emitted only for indexing. \<^verbatim>\<open>CodeGenVisitor::visitIdent\<close> emits
  that \<open>LOAD\<close> on every visit of an identifier that is an array and a parameter.
  In the body of \<open>g(v : float, w : array [3] of int)\<close> the call \<open>g(v, w)\<close>, which
  the type checker accepts, is lowered with \<open>LOAD %t0, w\<close> before the push of
  \<open>%t0\<close>, and \<open>w\<close> is not indexed.
\<close>

theorem array_parameter_argument_counterexample:
  "case visitExpr_tc table_in_g call_g_v_w start_state of
     Inr s \<Rightarrow>
       Errors s = [] \<and>
       visitExpr_cg table_in_g (Decorations s) call_g_v_w reset =
         Inr (\<lparr>addr = ''%t1'', offs = [],
               code = [PUSH None, PUSH (Some ''v''), LOAD ''%t0'' ''w'', PUSH (Some ''%t0''),
                       CALL ''g'', POP None, POP None, POP (Some ''%t1'')]\<rparr>,
              \<lparr>tempCounter = 2, ifCounter = 0, whileCounter = 0\<rparr>)
   | Inl a \<Rightarrow> False"
  by code_simp

lemma isArrayTy_not_Float: "isArrayTy p \<Longrightarrow> \<not> isFloatTy p"
  by (cases p) (simp_all add: isFloatTy_def)

text \<open>
  Claim C7, amended. Let an identifier \<open>a\<close> of array type be the argument for a
  parameter of array type. If \<open>a\<close> is not of parameter kind (a locally owned
  array), the generator emits \<open>ALOAD\<close> of \<open>a\<close> into a fresh temporary and pushes
  the temporary. If \<open>a\<close> is itself a parameter, the generator emits the
  dereferencing \<open>LOAD\<close> of \<open>a\<close> into a fresh temporary, the one the visit of such
  an identifier always emits, and pushes the temporary; it emits no \<open>ALOAD\<close>.
  The instructions for the remaining arguments follow.
\<close>

theorem array_argument_push:
  assumes "getParameterType t i = Inr p" and "isArrayTy p"
      and "typeDecor D k = Some ta" and "isArrayTy ta"
      and "typeDecor D m = Some te"
      and "pushParams_cg S D t (i + 1) es (snd (newTEMP c)) = Inr (rest, c2)"
  shows "pushParams_cg S D t i (ExprIdent m (Ident k a) # es) c =
      (let tmp = ''%'' @ fst (newTEMP c) in
       Inr ((if isParameterClass S a
             then [LOAD tmp a, PUSH (Some tmp)]
             else [ALOAD tmp a, PUSH (Some tmp)]) @ rest, c2))"
  using assms isArrayTy_not_Float [OF assms(2)]
  by (simp add: getType_d_def Let_def split_beta)

text \<open>The arguments \<open>w\<close> (a parameter) and \<open>a\<close> (a local) in the body of \<open>g\<close>.\<close>

theorem array_argument_push_witness:
  "pushParams_cg table_in_g array_args_decor (FunctionTy [FloatTy, ArrayTy 3 IntegerTy] IntegerTy) 1
     [ExprIdent 4 (Ident 5 ''w'')] reset =
     Inr ([LOAD ''%t0'' ''w'', PUSH (Some ''%t0'')],
          \<lparr>tempCounter = 1, ifCounter = 0, whileCounter = 0\<rparr>) \<and>
   pushParams_cg table_in_g array_args_decor (FunctionTy [FloatTy, ArrayTy 3 IntegerTy] IntegerTy) 1
     [ExprIdent 4 (Ident 5 ''a'')] reset =
     Inr ([ALOAD ''%t0'' ''a'', PUSH (Some ''%t0'')],
          \<lparr>tempCounter = 1, ifCounter = 0, whileCounter = 0\<rparr>)"
proof -
  let ?t = "FunctionTy [FloatTy, ArrayTy 3 IntegerTy] IntegerTy"
  have p: "getParameterType ?t 1 = Inr (ArrayTy 3 IntegerTy)" "isArrayTy (ArrayTy 3 IntegerTy)"
    by simp_all
  have d: "typeDecor array_args_decor 5 = Some (ArrayTy 3 IntegerTy)"
          "typeDecor array_args_decor 4 = Some (ArrayTy 3 IntegerTy)"
    by (simp_all add: array_args_decor_def)
  have rest: "pushParams_cg table_in_g array_args_decor ?t (1 + 1) [] (snd (newTEMP reset)) =
      Inr ([], \<lparr>tempCounter = 1, ifCounter = 0, whileCounter = 0\<rparr>)"
    by (simp add: newTEMP_def reset_def)
  have kinds: "isParameterClass table_in_g ''w''" "\<not> isParameterClass table_in_g ''a''"
    by (simp_all add: table_in_g_def symtab_defs findInScope_def)
  have tmp: "''%'' @ fst (newTEMP reset) = ''%t0''"
    by (simp add: newTEMP_def reset_def digit_char_def)
  from array_argument_push [OF p(1) p(2) d(1) p(2) d(2) rest, of "''w''"]
       array_argument_push [OF p(1) p(2) d(1) p(2) d(2) rest, of "''a''"] kinds tmp
  show ?thesis
    by (simp add: Let_def)
qed

subsection \<open>What a visit of the type checker may change\<close>

lemma ext_refl [simp]: "ext A s s"
  by (simp add: ext_def)

lemma ext_trans: "ext A s s1 \<Longrightarrow> ext A s1 s2 \<Longrightarrow> ext A s s2"
  by (auto simp: ext_def intro: prefix_order.trans)

lemma ext_mono: "ext B s s' \<Longrightarrow> B \<subseteq> A \<Longrightarrow> ext A s s'"
  by (auto simp: ext_def)

lemma ext_putTypeDecor [simp]: "ext A s s' \<Longrightarrow> n \<in> A \<Longrightarrow> ext A s (putTypeDecor n t s')"
  by (auto simp: ext_def decor_defs)

lemma ext_putIsLValueDecor [simp]: "ext A s s' \<Longrightarrow> ext A s (putIsLValueDecor n b s')"
  by (auto simp: ext_def decor_defs)

lemma ext_report [simp]: "ext A s s' \<Longrightarrow> ext A s (report k n s')"
  by (auto simp: ext_def decor_defs prefix_def)

lemma frames_mono: "frames B m \<Longrightarrow> B \<subseteq> A \<Longrightarrow> frames A m"
  by (auto simp: frames_def intro: ext_mono)

lemma frames_Inr: "(\<And>s. ext A s (h s)) \<Longrightarrow> frames A (\<lambda>s. Inr (h s))"
  by (auto simp: frames_def)

lemma frames_Inl: "frames A (\<lambda>s. Inl a)"
  by (simp add: frames_def)

lemma frames_bnd: "frames A m \<Longrightarrow> frames A f \<Longrightarrow> frames A (\<lambda>s. bnd (m s) f)"
  unfolding frames_def bnd_eq_Inr by (blast intro: ext_trans)

lemma frames_bnd_val: "(\<And>x. frames A (\<lambda>s. g x s)) \<Longrightarrow> frames A (\<lambda>s. bnd (v s) (\<lambda>x. g x s))"
  by (auto simp: frames_def bnd_eq_Inr)

lemma frames_if: "frames A x \<Longrightarrow> frames A y \<Longrightarrow> frames A (\<lambda>s. if c then x s else y s)"
  by (simp add: frames_def)

lemma frames_visitIdent_tc: "ident_id x \<in> A \<Longrightarrow> frames A (visitIdent_tc S x)"
  by (cases x) (auto simp: frames_def bnd_eq_Inr split: if_splits)

lemmas frames_rules = frames_bnd frames_bnd_val frames_if frames_Inr frames_Inl

lemma frames_params_step:
  "frames A (\<lambda>s1. if \<not> error \<and> \<not> isErrorTy tID
          then bnd (getParameterType tID i) (\<lambda>tp.
               bnd (getTypeDecor s1 k) (\<lambda>te.
               Inr (if \<not> isErrorTy tp \<and> \<not> isErrorTy te \<and> \<not> equalTypes tp te
                    then (if \<not> (isFloatTy tp \<and> isIntegerTy te)
                          then report (IncompatibleParameter (i + 1) call) k s1
                          else s1)
                    else s1)))
          else Inr s1)"
  by (intro frames_rules; simp)

lemma frames_visitParams_tc:
  assumes "\<And>e. e \<in> set es \<Longrightarrow> frames (set (ids_expr e)) (visitExpr_tc S e)"
  shows "frames (set (ids_exprs es)) (visitParams_tc S call tID error i es)"
  using assms
proof (induction es arbitrary: i)
  case Nil
  show ?case
    by (simp add: frames_def)
next
  case (Cons e es)
  have e: "frames (set (ids_exprs (e # es))) (visitExpr_tc S e)"
    by (rule frames_mono [OF Cons.prems]) auto
  have es: "frames (set (ids_exprs (e # es))) (visitParams_tc S call tID error (i + 1) es)"
    by (rule frames_mono [OF Cons.IH]) (auto intro: Cons.prems)
  have "frames (set (ids_exprs (e # es)))
          (\<lambda>s. bnd (visitExpr_tc S e s) (\<lambda>s1.
                bnd (if \<not> error \<and> \<not> isErrorTy tID
          then bnd (getParameterType tID i) (\<lambda>tp.
               bnd (getTypeDecor s1 (expr_id e)) (\<lambda>te.
               Inr (if \<not> isErrorTy tp \<and> \<not> isErrorTy te \<and> \<not> equalTypes tp te
                    then (if \<not> (isFloatTy tp \<and> isIntegerTy te)
                          then report (IncompatibleParameter (i + 1) call) (expr_id e) s1
                          else s1)
                    else s1)))
          else Inr s1) (visitParams_tc S call tID error (i + 1) es)))"
    by (intro frames_bnd e es frames_params_step)
  then show ?case
    by (simp add: frames_def)
qed

lemma frames_eta: "(\<And>s. m s = m' s) \<Longrightarrow> frames A m' \<Longrightarrow> frames A m"
  by (simp add: frames_def)

lemma frames_after_putIsLValueDecor:
  "frames A m \<Longrightarrow> frames A (\<lambda>s. m (putIsLValueDecor n b s))"
  unfolding frames_def
proof (intro allI impI)
  fix s s'
  assume m: "\<forall>s s'. m s = Inr s' \<longrightarrow> ext A s s'" and run: "m (putIsLValueDecor n b s) = Inr s'"
  from m run have "ext A (putIsLValueDecor n b s) s'"
    by blast
  moreover have "ext A s (putIsLValueDecor n b s)"
    by simp
  ultimately show "ext A s s'"
    by (blast intro: ext_trans)
qed

lemma frames_bnd_pair:
  assumes "\<And>s s1 b. m s = Inr (s1, b) \<Longrightarrow> ext A s s1"
      and "\<And>b. frames A (f b)"
  shows "frames A (\<lambda>s. bnd (m s) (\<lambda>(s1, b). f b s1))"
  using assms unfolding frames_def bnd_eq_Inr
  by clarsimp (blast intro: ext_trans)

lemma frames_visitExpr_tc: "frames (set (ids_expr e)) (visitExpr_tc S e)"
proof (induction e)
  case (Parenthesis n e)
  show ?case
    apply (rule frames_eta, rule visitExpr_tc.simps)
    apply (intro frames_rules frames_mono [OF Parenthesis.IH]; auto)
    done
next
  case (ArrayIndex n a e)
  show ?case
    apply (rule frames_eta, rule visitExpr_tc.simps)
    unfolding Let_def
    apply (intro frames_rules frames_visitIdent_tc frames_after_putIsLValueDecor
        frames_mono [OF ArrayIndex.IH]; auto)
    done
next
  case (FuncCall n f es)
  have loop: "frames (set (ids_expr (FuncCall n f es))) (visitParams_tc S n tID error 0 es)"
    for tID error
    by (rule frames_mono [OF frames_visitParams_tc]) (auto intro: FuncCall.IH)
  show ?case
    apply (rule frames_eta, rule visitExpr_tc.simps)
    unfolding Let_def
    apply (rule frames_bnd [OF frames_visitIdent_tc])
     apply simp
    apply (rule frames_bnd_val)
    apply (rule frames_bnd_pair [OF _ loop])
    apply (auto simp: bnd_eq_Inr split: if_splits)
    done
next
  case (Unary n oper e)
  show ?case
    apply (rule frames_eta, rule visitExpr_tc.simps)
    unfolding Let_def
    apply (intro frames_rules frames_mono [OF Unary.IH]; auto simp: Let_def)
    done
next
  case (Arithmetic n oper e1 e2)
  show ?case
    apply (rule frames_eta, rule visitExpr_tc.simps)
    unfolding Let_def
    apply (intro frames_rules frames_mono [OF Arithmetic.IH(1)] frames_mono [OF Arithmetic.IH(2)];
        auto simp: Let_def)
    done
next
  case (Relational n oper e1 e2)
  show ?case
    apply (rule frames_eta, rule visitExpr_tc.simps)
    unfolding Let_def
    apply (intro frames_rules frames_mono [OF Relational.IH(1)] frames_mono [OF Relational.IH(2)];
        auto simp: Let_def)
    done
next
  case (Boolean n oper e1 e2)
  show ?case
    apply (rule frames_eta, rule visitExpr_tc.simps)
    unfolding Let_def
    apply (intro frames_rules frames_mono [OF Boolean.IH(1)] frames_mono [OF Boolean.IH(2)];
        auto simp: Let_def)
    done
next
  case (Value_e n k lit)
  show ?case
    by (cases k) (simp_all add: frames_def)
next
  case (ExprIdent n x)
  show ?case
    apply (rule frames_eta, rule visitExpr_tc.simps)
    unfolding Let_def
    apply (intro frames_rules frames_visitIdent_tc; auto)
    done
qed

lemma visitParams_tc_ext:
  "visitParams_tc S call tID error i es s = Inr s' \<Longrightarrow> ext (set (ids_exprs es)) s s'"
  using frames_visitParams_tc [of es S call tID error i] frames_visitExpr_tc
  by (simp add: frames_def)

lemma prefix_append_same: "prefix (xs @ ys) xs \<Longrightarrow> ys = []"
  by (auto simp: prefix_def)

lemma visitIdent_tc_cases:
  assumes "visitIdent_tc S f s = Inr s1"
  shows "Errors s1 = Errors s @ [(UndeclaredIdent, ident_id f)] \<or>
         (Errors s1 = Errors s \<and>
          (\<exists>t. getType S (ident_text f) = Inr t \<and>
               typeDecor (Decorations s1) (ident_id f) = Some t))"
  using assms
  by (cases f) (auto simp: bnd_eq_Inr split: if_splits)

lemma accepted_callee:
  assumes ident: "visitIdent_tc S f s = Inr s1"
      and tID: "typeDecor (Decorations s1) (ident_id f) = Some tID"
      and pre: "prefix (Errors s1 @ (if \<not> isFunctionTy tID \<and> \<not> isErrorTy tID
                                     then [(IsNotCallable, ident_id f)] else [])) (Errors s)"
      and wf: "getType S (ident_text f) \<noteq> Inr ErrorTy"
  shows "\<exists>ps r. tID = FunctionTy ps r \<and> Errors s1 = Errors s"
proof -
  from visitIdent_tc_cases [OF ident] show ?thesis
  proof
    assume "Errors s1 = Errors s @ [(UndeclaredIdent, ident_id f)]"
    with pre have False
      by (auto simp: prefix_def)
    then show ?thesis ..
  next
    assume ok: "Errors s1 = Errors s \<and>
          (\<exists>t. getType S (ident_text f) = Inr t \<and>
               typeDecor (Decorations s1) (ident_id f) = Some t)"
    with tID wf have ne: "tID \<noteq> ErrorTy"
      by auto
    from ok pre have "\<not> (\<not> isFunctionTy tID \<and> \<not> isErrorTy tID)"
      by (auto simp: prefix_def split: if_splits)
    with ne have "isFunctionTy tID"
      by (simp add: isErrorTy_def)
    then obtain ps r where "tID = FunctionTy ps r"
      by (cases tID) simp_all
    with ok show ?thesis
      by simp
  qed
qed

lemma getType_noErrorTy:
  assumes "noErrorSymbols S" and "getType S x = Inr t"
  shows "noErrorTy t"
proof -
  have "findSymbol S st x = Some (i, k, t) \<Longrightarrow> noErrorTy t" for st i k
  proof (induction st arbitrary: i)
    case Nil
    then show ?case by simp
  next
    case (Cons sc below)
    show ?case
    proof (cases "findInScope S sc x")
      case None
      with Cons show ?thesis by simp
    next
      case (Some r)
      with Cons.prems have r: "findInScope S sc x = Some (k, t)"
        by (cases r) simp
      then have "sc < length (vectorScopes S)" and
        "map_of (symbols (vectorScopes S ! sc)) x = Some (k, t)"
        by (auto simp: findInScope_def split: if_splits)
      then have "(x, k, t) \<in> set (symbols (vectorScopes S ! sc))"
        and "vectorScopes S ! sc \<in> set (vectorScopes S)"
        by (auto dest: map_of_SomeD)
      with assms(1) show ?thesis
        unfolding noErrorSymbols_def by fastforce
    qed
  qed
  with assms(2) show ?thesis
    by (auto simp: getType_def split: option.splits)
qed

lemma expr_id_in_ids: "expr_id e \<in> set (ids_expr e)"
  by (cases e) simp_all

lemma visitExpr_tc_ext: "visitExpr_tc S e s = Inr s' \<Longrightarrow> ext (set (ids_expr e)) s s'"
  using frames_visitExpr_tc [of e S] by (simp add: frames_def)

lemma prefix_both: "prefix xs ys \<Longrightarrow> prefix ys zs \<Longrightarrow> zs = xs \<Longrightarrow> ys = xs"
  by (auto simp: prefix_def)


lemma getType_not_Error:
  assumes "noErrorSymbols S"
  shows "getType S x \<noteq> Inr ErrorTy"
  using getType_noErrorTy [OF assms, of x ErrorTy] by (auto simp: noErrorTy_def)

lemma visitIdent_tc_accepted:
  assumes ok: "noErrorSymbols S"
      and run: "visitIdent_tc S x s = Inr s1"
      and noerr: "Errors s1 = Errors s"
  shows "\<exists>t. typeDecor (Decorations s1) (ident_id x) = Some t \<and> noErrorTy t"
  using visitIdent_tc_cases [OF run] noerr getType_noErrorTy [OF ok]
  by auto

lemma visitFuncCall_tc_accepted:
  assumes run: "visitExpr_tc S (FuncCall n f es) s = Inr s'"
      and noerr: "Errors s' = Errors s"
      and ok: "noErrorSymbols S"
      and fresh: "ident_id f \<noteq> n" "ident_id f \<notin> set (ids_exprs es)" "n \<notin> set (ids_exprs es)"
  shows "\<exists>ps r s5. typeDecor (Decorations s') (ident_id f) = Some (FunctionTy ps r) \<and>
               noErrorTy (FunctionTy ps r) \<and> r \<noteq> VoidTy \<and> length ps = length es \<and>
               typeDecor (Decorations s') n = Some r \<and> Errors s5 = Errors s \<and>
               visitParams_tc S n (FunctionTy ps r) False 0 es s5 = Inr s'"
proof -
  from run obtain s1 tID s5 error where
    ident: "visitIdent_tc S f s = Inr s1" and
    tID: "typeDecor (Decorations s1) (ident_id f) = Some tID" and
    mid: "(let error0 = (\<not> isFunctionTy tID \<and> \<not> isErrorTy tID);
         s2 = (if error0 then report IsNotCallable (ident_id f) s1 else s1)
     in (if isFunctionTy tID
          then bnd (getFuncReturnType tID) (\<lambda>tf.
               let s3 = (if isVoidTy tf then report IsNotFunction (ident_id f) s2
                         else putTypeDecor n tf s2);
                   s4 = putIsLValueDecor n False s3
               in
               bnd (getNumOfParameters tID) (\<lambda>np.
               if np \<noteq> length es then Inr (report NumberOfParameters n s4, True)
               else Inr (s4, error0)))
          else Inr (s2, error0))) = Inr (s5, error)" and
    loop: "visitParams_tc S n tID error 0 es s5 = Inr s'"
    by (auto simp: bnd_eq_Inr Let_def)
  from visitParams_tc_ext [OF loop] noerr have
    early: "prefix (Errors s5) (Errors s)" and
    keep: "typeDecor (Decorations s') (ident_id f) = typeDecor (Decorations s5) (ident_id f)"
          "typeDecor (Decorations s') n = typeDecor (Decorations s5) n"
    using fresh by (auto simp: ext_def)
  from mid early have pre: "prefix (Errors s1 @ (if \<not> isFunctionTy tID \<and> \<not> isErrorTy tID
                                     then [(IsNotCallable, ident_id f)] else [])) (Errors s)"
    by (auto simp: Let_def bnd_eq_Inr prefix_def split: if_splits)
  from accepted_callee [OF ident tID pre getType_not_Error [OF ok]] obtain ps r where
    fn: "tID = FunctionTy ps r" and same: "Errors s1 = Errors s"
    by blast
  from visitIdent_tc_accepted [OF ok ident same] tID fn have noE: "noErrorTy (FunctionTy ps r)"
    by simp
  from mid fn early same have "r \<noteq> VoidTy \<and> length ps = length es \<and> \<not> error \<and>
      Errors s5 = Errors s \<and> typeDecor (Decorations s5) n = Some r \<and>
      typeDecor (Decorations s5) (ident_id f) = typeDecor (Decorations s1) (ident_id f)"
    using fresh by (auto simp: Let_def isVoidTy_def isErrorTy_def prefix_def split: if_splits)
  with keep tID fn noE loop show ?thesis
    by auto
qed

lemma visitProcCall_tc_accepted:
  assumes run: "visitProcCall_tc S n f es s = Inr s'"
      and noerr: "Errors s' = Errors s"
      and ok: "noErrorSymbols S"
      and fresh: "ident_id f \<notin> set (ids_exprs es)"
  shows "\<exists>ps r s3. typeDecor (Decorations s') (ident_id f) = Some (FunctionTy ps r) \<and>
               noErrorTy (FunctionTy ps r) \<and> length ps = length es \<and> Errors s3 = Errors s \<and>
               visitParams_tc S n (FunctionTy ps r) False 0 es s3 = Inr s'"
proof -
  from run obtain s1 tID s3 error where
    ident: "visitIdent_tc S f s = Inr s1" and
    tID: "typeDecor (Decorations s1) (ident_id f) = Some tID" and
    mid: "(let error0 = (\<not> isFunctionTy tID \<and> \<not> isErrorTy tID);
         s2 = (if error0 then report IsNotCallable (ident_id f) s1 else s1)
     in (if isFunctionTy tID
          then bnd (getNumOfParameters tID) (\<lambda>np.
               if np \<noteq> length es then Inr (report NumberOfParameters n s2, True)
               else Inr (s2, error0))
          else Inr (s2, error0))) = Inr (s3, error)" and
    loop: "visitParams_tc S n tID error 0 es s3 = Inr s'"
    by (auto simp: visitProcCall_tc_def bnd_eq_Inr Let_def)
  from visitParams_tc_ext [OF loop] noerr have
    early: "prefix (Errors s3) (Errors s)" and
    keep: "typeDecor (Decorations s') (ident_id f) = typeDecor (Decorations s3) (ident_id f)"
    using fresh by (auto simp: ext_def)
  from mid early have pre: "prefix (Errors s1 @ (if \<not> isFunctionTy tID \<and> \<not> isErrorTy tID
                                     then [(IsNotCallable, ident_id f)] else [])) (Errors s)"
    by (auto simp: Let_def bnd_eq_Inr prefix_def split: if_splits)
  from accepted_callee [OF ident tID pre getType_not_Error [OF ok]] obtain ps r where
    fn: "tID = FunctionTy ps r" and same: "Errors s1 = Errors s"
    by blast
  from visitIdent_tc_accepted [OF ok ident same] tID fn have noE: "noErrorTy (FunctionTy ps r)"
    by simp
  from mid fn early same have "length ps = length es \<and> \<not> error \<and> Errors s3 = Errors s \<and>
      typeDecor (Decorations s3) (ident_id f) = typeDecor (Decorations s1) (ident_id f)"
    by (auto simp: Let_def isErrorTy_def prefix_def split: if_splits)
  with keep tID fn noE loop show ?thesis
    by auto
qed


lemma visitExpr_tc_accepted_type:
  assumes ok: "noErrorSymbols S"
  shows "distinct (ids_expr e) \<Longrightarrow> visitExpr_tc S e s = Inr s' \<Longrightarrow> Errors s' = Errors s \<Longrightarrow>
         \<exists>t. typeDecor (Decorations s') (expr_id e) = Some t \<and> t \<noteq> ErrorTy"
proof (induction e arbitrary: s s')
  case (Parenthesis n e)
  from Parenthesis.prems(2) obtain s1 t1 where
    run: "visitExpr_tc S e s = Inr s1" and t1: "typeDecor (Decorations s1) (expr_id e) = Some t1"
    and s': "s' = putIsLValueDecor n False (putTypeDecor n t1 s1)"
    by (auto simp: bnd_eq_Inr)
  from s' Parenthesis.prems(3) have "Errors s1 = Errors s"
    by simp
  from Parenthesis.IH [OF _ run this] Parenthesis.prems(1) t1 have "t1 \<noteq> ErrorTy"
    by auto
  with s' show ?case
    by simp
next
  case (ArrayIndex n a e)
  from ArrayIndex.prems(2) obtain s1 tID b s3 s4 t1 where
    ident: "visitIdent_tc S a s = Inr s1" and
    tID: "typeDecor (Decorations s1) (ident_id a) = Some tID" and
    s3: "(if isArrayTy tID
          then bnd (getArrayElemType tID) (\<lambda>te. Inr (putTypeDecor n te
                 (if \<not> isErrorTy tID \<and> \<not> isArrayTy tID
                  then report NonArrayInArrayAccess n s1 else s1)))
          else Inr (if \<not> isErrorTy tID \<and> \<not> isArrayTy tID
                    then report NonArrayInArrayAccess n s1 else s1)) = Inr s3" and
    idx: "visitExpr_tc S e (putIsLValueDecor n b s3) = Inr s4" and
    s': "s' = (if \<not> isErrorTy t1 \<and> \<not> isIntegerTy t1
          then report NonIntegerIndexInArrayAccess (expr_id e) s4 else s4)"
    by (auto simp: bnd_eq_Inr Let_def)
  from visitExpr_tc_ext [OF idx] have
    p34: "prefix (Errors s3) (Errors s4)" and
    keep: "typeDecor (Decorations s4) n = typeDecor (Decorations s3) n"
    using ArrayIndex.prems(1) by (auto simp: ext_def)
  from s' have p4: "prefix (Errors s4) (Errors s')" and
    keep': "typeDecor (Decorations s') n = typeDecor (Decorations s4) n"
    by (auto simp: prefix_def)
  from s3 have p13: "prefix (Errors s1) (Errors s3)"
    by (auto simp: bnd_eq_Inr prefix_def split: if_splits)
  from visitIdent_tc_cases [OF ident] have p01: "prefix (Errors s) (Errors s1)"
    by (auto simp: prefix_def)
  from p13 p34 p4 have p1': "prefix (Errors s1) (Errors s')"
    by (blast intro: prefix_order.trans)
  from prefix_both [OF p01 p1' ArrayIndex.prems(3)] have same1: "Errors s1 = Errors s" .
  from p34 p4 have "prefix (Errors s3) (Errors s')"
    by (blast intro: prefix_order.trans)
  with p13 same1 ArrayIndex.prems(3) have same3: "Errors s3 = Errors s1"
    by (metis prefix_both)
  from visitIdent_tc_accepted [OF ok ident same1] tID have noE: "noErrorTy tID"
    by simp
  from s3 same3 noE have "\<exists>k te. tID = ArrayTy k te \<and> te \<noteq> ErrorTy \<and>
      typeDecor (Decorations s3) n = Some te"
    by (cases tID) (auto simp: noErrorTy_def isErrorTy_def split: if_splits)
  with keep keep' show ?case
    by auto
next
  case (FuncCall n f es)
  from FuncCall.prems(1) have fresh: "ident_id f \<noteq> n" "ident_id f \<notin> set (ids_exprs es)"
    "n \<notin> set (ids_exprs es)"
    by auto
  from visitFuncCall_tc_accepted [OF FuncCall.prems(2) FuncCall.prems(3) ok fresh]
  show ?case
    by (auto simp: noErrorTy_def)
next
  case (Unary n oper e)
  from Unary.prems(2) show ?case
    by (auto simp: bnd_eq_Inr Let_def isNumericTy_def split: if_splits)
next
  case (Arithmetic n oper e1 e2)
  from Arithmetic.prems(2) show ?case
    by (auto simp: bnd_eq_Inr Let_def split: if_splits)
next
  case (Relational n oper e1 e2)
  from Relational.prems(2) show ?case
    by (auto simp: bnd_eq_Inr Let_def split: if_splits)
next
  case (Boolean n oper e1 e2)
  from Boolean.prems(2) show ?case
    by (auto simp: bnd_eq_Inr Let_def split: if_splits)
next
  case (Value_e n k lit)
  from Value_e.prems(2) show ?case
    by (cases k) auto
next
  case (ExprIdent n x)
  from ExprIdent.prems(2) obtain s1 t1 b where
    ident: "visitIdent_tc S x s = Inr s1" and
    t1: "typeDecor (Decorations s1) (ident_id x) = Some t1" and
    s': "s' = putIsLValueDecor n b (putTypeDecor n t1 s1)"
    by (auto simp: bnd_eq_Inr Let_def)
  from s' ExprIdent.prems(3) have "Errors s1 = Errors s"
    by simp
  from visitIdent_tc_accepted [OF ok ident this] t1 have "t1 \<noteq> ErrorTy"
    by (auto simp: noErrorTy_def)
  with s' show ?case
    by simp
qed


lemma visitParams_tc_accepted:
  assumes ok: "noErrorSymbols S" and ps: "ErrorTy \<notin> set ps"
  shows "distinct (ids_exprs es) \<Longrightarrow>
         visitParams_tc S call (FunctionTy ps r) False i es s = Inr s' \<Longrightarrow>
         Errors s' = Errors s \<Longrightarrow>
         \<forall>j<length es. \<exists>te. typeDecor (Decorations s') (expr_id (es ! j)) = Some te \<and>
            (te = ps ! (i + j) \<or> (ps ! (i + j) = FloatTy \<and> te = IntegerTy))"
proof (induction es arbitrary: i s)
  case Nil
  show ?case
    by simp
next
  case (Cons e es)
  from Cons.prems(2) obtain s1 te s2 where
    e: "visitExpr_tc S e s = Inr s1" and
    i: "i < length ps" and
    te: "typeDecor (Decorations s1) (expr_id e) = Some te" and
    s2: "s2 = (if \<not> isErrorTy (ps ! i) \<and> \<not> isErrorTy te \<and> \<not> equalTypes (ps ! i) te
               then (if \<not> (isFloatTy (ps ! i) \<and> isIntegerTy te)
                     then report (IncompatibleParameter (i + 1) call) (expr_id e) s1
                     else s1)
               else s1)" and
    rest: "visitParams_tc S call (FunctionTy ps r) False (i + 1) es s2 = Inr s'"
    by (auto simp: bnd_eq_Inr isErrorTy_def split: if_splits)
  from visitExpr_tc_ext [OF e] have p01: "prefix (Errors s) (Errors s1)"
    by (simp add: ext_def)
  from s2 have p12: "prefix (Errors s1) (Errors s2)"
    by (auto simp: prefix_def)
  from visitParams_tc_ext [OF rest] have p2: "prefix (Errors s2) (Errors s')" and
    keep: "\<And>k. k \<notin> set (ids_exprs es) \<Longrightarrow>
             typeDecor (Decorations s') k = typeDecor (Decorations s2) k"
    by (auto simp: ext_def)
  from p12 p2 have "prefix (Errors s1) (Errors s')"
    by (blast intro: prefix_order.trans)
  from prefix_both [OF p01 this Cons.prems(3)] have same1: "Errors s1 = Errors s" .
  from p12 p2 same1 Cons.prems(3) have same2: "Errors s2 = Errors s1"
    by (metis prefix_both)
  from Cons.prems(1) have d: "distinct (ids_expr e)" "distinct (ids_exprs es)"
    "expr_id e \<notin> set (ids_exprs es)"
    using expr_id_in_ids [of e] by auto
  from visitExpr_tc_accepted_type [OF ok d(1) e same1] te have ne: "te \<noteq> ErrorTy"
    by simp
  from i ps have np: "ps ! i \<noteq> ErrorTy"
    by (metis nth_mem)
  from s2 same2 ne np have first: "te = ps ! i \<or> (ps ! i = FloatTy \<and> te = IntegerTy)"
    and eq: "s2 = s1"
    by (auto simp: isErrorTy_def equalTypes_def isFloatTy_def isIntegerTy_def split: if_splits)
  from keep [OF d(3)] eq te have here: "typeDecor (Decorations s') (expr_id e) = Some te"
    by simp
  from same2 same1 Cons.prems(3) have "Errors s' = Errors s2"
    by simp
  from Cons.IH [OF d(2) rest this] have later:
    "\<forall>j<length es. \<exists>te. typeDecor (Decorations s') (expr_id (es ! j)) = Some te \<and>
       (te = ps ! (i + 1 + j) \<or> (ps ! (i + 1 + j) = FloatTy \<and> te = IntegerTy))" .
  show ?case
  proof (intro allI impI)
    fix j
    assume "j < length (e # es)"
    then show "\<exists>te. typeDecor (Decorations s') (expr_id ((e # es) ! j)) = Some te \<and>
       (te = ps ! (i + j) \<or> (ps ! (i + j) = FloatTy \<and> te = IntegerTy))"
      using here first later by (cases j) auto
  qed
qed

subsection \<open>The symbols the first pass registers\<close>

lemma noErrorDecor_put [simp]:
  "noErrorDecor s \<Longrightarrow> t \<noteq> ErrorTy \<Longrightarrow> noErrorDecor (putTypeDecor n t s)"
  "noErrorDecor (report k n s) = noErrorDecor s"
  "noErrorDecor (putScopeDecor n sc s) = noErrorDecor s"
  by (simp_all add: noErrorDecor_def decor_defs)

lemma visitBasic_type_sym_cases:
  "\<exists>t. visitBasic_type_sym b s = putTypeDecor (basic_type_id b) t s \<and> isPrimitiveTy t"
proof (cases b)
  case (Basic_type n k)
  then show ?thesis
    by (cases k) (fastforce simp: isPrimitiveTy_def)+
qed

lemma visitType_sym_type:
  assumes "visitType_sym ty s = Inr s1" and "noErrorDecor s"
  shows "noErrorDecor s1 \<and> (\<exists>t. typeDecor (Decorations s1) (type_id ty) = Some t \<and> noErrorTy t)"
proof (cases ty)
  case (Type_basic n b)
  from visitBasic_type_sym_cases [of b s] obtain t where
    "visitBasic_type_sym b s = putTypeDecor (basic_type_id b) t s" "isPrimitiveTy t"
    by blast
  with assms Type_basic show ?thesis
    by (auto simp: Let_def bnd_eq_Inr isPrimitiveTy_def noErrorTy_def)
next
  case (Type_array n a)
  obtain m v b where a: "a = Array_type m v b"
    by (cases a)
  from visitBasic_type_sym_cases [of b s] obtain t where
    "visitBasic_type_sym b s = putTypeDecor (basic_type_id b) t s" "isPrimitiveTy t"
    by blast
  with assms Type_array a show ?thesis
    by (auto simp: Let_def bnd_eq_Inr isPrimitiveTy_def noErrorTy_def)
qed

lemma addSymbol_noErrorSymbols:
  assumes "addSymbol k x t S = Inr S1" and "noErrorSymbols S" and "noErrorTy t"
  shows "noErrorSymbols S1"
proof -
  from assms(1) obtain sc below where
    sc: "sc < length (vectorScopes S)" and
    S1: "S1 = S\<lparr>vectorScopes :=
                 (vectorScopes S)[sc := (vectorScopes S ! sc)
                    \<lparr>symbols := symbols (vectorScopes S ! sc) @ [(x, k, t)]\<rparr>]\<rparr>"
    by (auto simp: addSymbol_def split: list.splits if_splits)
  show ?thesis
    unfolding noErrorSymbols_def
  proof (intro ballI)
    fix scp sym
    assume scp: "scp \<in> set (vectorScopes S1)" and sym: "sym \<in> set (symbols scp)"
    from scp S1 have "scp \<in> set (vectorScopes S) \<or>
        scp = (vectorScopes S ! sc)\<lparr>symbols := symbols (vectorScopes S ! sc) @ [(x, k, t)]\<rparr>"
      using set_update_subset_insert [of "vectorScopes S" sc] by auto
    then show "noErrorTy (snd (snd sym))"
    proof
      assume "scp \<in> set (vectorScopes S)"
      with assms(2) sym show ?thesis
        by (auto simp: noErrorSymbols_def)
    next
      assume "scp = (vectorScopes S ! sc)\<lparr>symbols := symbols (vectorScopes S ! sc) @ [(x, k, t)]\<rparr>"
      with sym have "sym \<in> set (symbols (vectorScopes S ! sc)) \<or> sym = (x, k, t)"
        by auto
      with assms(2,3) sc show ?thesis
        by (auto simp: noErrorSymbols_def)
    qed
  qed
qed

lemma scopes_noErrorSymbols [simp]:
  "noErrorSymbols (snd (pushNewScope name S)) = noErrorSymbols S"
  "popScope S = Inr S1 \<Longrightarrow> noErrorSymbols S1 = noErrorSymbols S"
  by (auto simp: noErrorSymbols_def pushNewScope_def popScope_def split: list.splits)

lemma visitParameter_decl_sym_ok:
  assumes "visitParameter_decl_sym pd (S, s) = Inr (S1, s1)"
      and "noErrorSymbols S" and "noErrorDecor s"
  shows "noErrorSymbols S1 \<and> noErrorDecor s1"
proof (cases pd)
  case (Parameter_decl n x ty)
  with assms(1) obtain s0 t1 where
    ty: "visitType_sym ty s = Inr s0" and t1: "typeDecor (Decorations s0) (type_id ty) = Some t1"
    and rest: "(if findInCurrentScope S x then Inr (S, report DeclaredIdent n s0)
          else bnd (addParameter x t1 S) (\<lambda>S1. Inr (S1, putTypeDecor n t1 s0))) = Inr (S1, s1)"
    by (auto simp: bnd_eq_Inr)
  from visitType_sym_type [OF ty assms(3)] t1 have ok: "noErrorDecor s0" "noErrorTy t1"
    by auto
  then have "t1 \<noteq> ErrorTy"
    by (auto simp: noErrorTy_def)
  with rest ok assms(2) show ?thesis
    by (auto simp: bnd_eq_Inr addParameter_def split: if_splits
        intro: addSymbol_noErrorSymbols)
qed

lemma addLocalVars_ok:
  "addLocalVars n t1 ids (S, s) = Inr (S1, s1) \<Longrightarrow> noErrorSymbols S \<Longrightarrow> noErrorDecor s \<Longrightarrow>
   noErrorTy t1 \<Longrightarrow> noErrorSymbols S1 \<and> noErrorDecor s1"
proof (induction ids arbitrary: S s)
  case Nil
  then show ?case by simp
next
  case (Cons x ids)
  show ?case
  proof (cases "findInCurrentScope S x")
    case True
    with Cons.prems have "addLocalVars n t1 ids (S, report DeclaredIdent n s) = Inr (S1, s1)"
      by simp
    from Cons.IH [OF this] Cons.prems show ?thesis
      by simp
  next
    case False
    with Cons.prems obtain S0 where
      add: "addLocalVar x t1 S = Inr S0" and rest: "addLocalVars n t1 ids (S0, s) = Inr (S1, s1)"
      by (auto simp: bnd_eq_Inr)
    from add Cons.prems have "noErrorSymbols S0"
      by (auto simp: addLocalVar_def intro: addSymbol_noErrorSymbols)
    from Cons.IH [OF rest this] Cons.prems show ?thesis
      by simp
  qed
qed

lemma visitVariable_decl_sym_ok:
  assumes "visitVariable_decl_sym d (S, s) = Inr (S1, s1)"
      and "noErrorSymbols S" and "noErrorDecor s"
  shows "noErrorSymbols S1 \<and> noErrorDecor s1"
proof (cases d)
  case (Variable_decl n ids ty)
  with assms(1) obtain s0 t1 where
    ty: "visitType_sym ty s = Inr s0" and t1: "typeDecor (Decorations s0) (type_id ty) = Some t1"
    and rest: "addLocalVars n t1 ids (S, s0) = Inr (S1, s1)"
    by (auto simp: bnd_eq_Inr)
  from visitType_sym_type [OF ty assms(3)] t1 have "noErrorDecor s0" "noErrorTy t1"
    by auto
  with addLocalVars_ok [OF rest assms(2)] show ?thesis
    by simp
qed

lemma visitDeclarations_sym_ok:
  "visitDeclarations_sym ds (S, s) = Inr (S1, s1) \<Longrightarrow> noErrorSymbols S \<Longrightarrow> noErrorDecor s \<Longrightarrow>
   noErrorSymbols S1 \<and> noErrorDecor s1"
proof (induction ds arbitrary: S s)
  case Nil
  then show ?case by simp
next
  case (Cons d ds)
  from Cons.prems(1) obtain S0 s0 where
    d: "visitVariable_decl_sym d (S, s) = Inr (S0, s0)" and
    rest: "visitDeclarations_sym ds (S0, s0) = Inr (S1, s1)"
    by (auto simp: bnd_eq_Inr)
  from visitVariable_decl_sym_ok [OF d Cons.prems(2,3)] Cons.IH [OF rest] show ?case
    by simp
qed

lemma collectParams_sym_ok:
  "collectParams_sym pds l (S, s) = Inr (l1, S1, s1) \<Longrightarrow> noErrorSymbols S \<Longrightarrow>
   noErrorDecor s \<Longrightarrow> ErrorTy \<notin> set l \<Longrightarrow>
   noErrorSymbols S1 \<and> noErrorDecor s1 \<and> ErrorTy \<notin> set l1"
proof (induction pds arbitrary: l S s)
  case Nil
  then show ?case by simp
next
  case (Cons pd pds)
  from Cons.prems(1) obtain S0 s0 te where
    pd: "visitParameter_decl_sym pd (S, s) = Inr (S0, s0)" and
    te: "typeDecor (Decorations s0) (parameter_decl_id pd) = Some te" and
    rest: "collectParams_sym pds (l @ [te]) (S0, s0) = Inr (l1, S1, s1)"
    by (auto simp: bnd_eq_Inr)
  from visitParameter_decl_sym_ok [OF pd Cons.prems(2,3)] have ok: "noErrorSymbols S0"
    "noErrorDecor s0"
    by simp_all
  with te have "te \<noteq> ErrorTy"
    by (auto simp: noErrorDecor_def)
  with Cons.prems(4) have "ErrorTy \<notin> set (l @ [te])"
    by simp
  from Cons.IH [OF rest ok this] show ?case .
qed

lemma visitFunction_sym_ok:
  assumes "visitFunction_sym f (S, s) = Inr (S1, s1)"
      and "noErrorSymbols S" and "noErrorDecor s"
  shows "noErrorSymbols S1 \<and> noErrorDecor s1"
proof (cases f)
  case (Function n x params ret decls stmts)
  obtain sc S0 where push: "pushNewScope x S = (sc, S0)"
    by (cases "pushNewScope x S")
  with assms(1) Function obtain l S2 s2 S3 s3 S4 tRet s5 where
    params: "collectParams_sym params [] (S0, putScopeDecor n sc s) = Inr (l, S2, s2)" and
    decls: "visitDeclarations_sym decls (S2, s2) = Inr (S3, s3)" and
    pop: "popScope S3 = Inr S4" and
    ret: "(if findInCurrentScope S4 x
           then Inr (ErrorTy, report DeclaredIdent n s3)
           else (case ret of
                   Some b \<Rightarrow>
                     (let s4 = visitBasic_type_sym b s3 in
                      bnd (getTypeDecor s4 (basic_type_id b)) (\<lambda>t. Inr (t, s4)))
                 | None \<Rightarrow> Inr (VoidTy, s3))) = Inr (tRet, s5)" and
    add: "(if \<not> findInCurrentScope S4 x
      then bnd (addFunction x (FunctionTy l tRet) S4)
             (\<lambda>S5. Inr (S5, putTypeDecor n (FunctionTy l tRet) s5))
      else Inr (S4, putTypeDecor n (FunctionTy l tRet) s5)) = Inr (S1, s1)"
    by (auto simp: bnd_eq_Inr Let_def)
  from push have "noErrorSymbols S0 = noErrorSymbols S"
    using scopes_noErrorSymbols(1) [of x S] by simp
  with collectParams_sym_ok [OF params] assms(2,3) have ok2: "noErrorSymbols S2"
    "noErrorDecor s2" "ErrorTy \<notin> set l"
    by simp_all
  from visitDeclarations_sym_ok [OF decls ok2(1,2)] pop have ok4: "noErrorSymbols S4"
    "noErrorDecor s3"
    by simp_all
  have ret_ok: "noErrorDecor s5 \<and> (\<not> findInCurrentScope S4 x \<longrightarrow> tRet \<noteq> ErrorTy)"
  proof (cases "findInCurrentScope S4 x")
    case True
    with ret ok4 show ?thesis
      by auto
  next
    case False
    show ?thesis
    proof (cases ret)
      case None
      with ret False ok4 show ?thesis
        by auto
    next
      case (Some b)
      from visitBasic_type_sym_cases [of b s3] obtain t where
        "visitBasic_type_sym b s3 = putTypeDecor (basic_type_id b) t s3" "isPrimitiveTy t"
        by blast
      with ret False Some ok4 show ?thesis
        by (auto simp: Let_def bnd_eq_Inr isPrimitiveTy_def)
    qed
  qed
  then have s5: "noErrorDecor s5" and tRet: "\<not> findInCurrentScope S4 x \<Longrightarrow> tRet \<noteq> ErrorTy"
    by simp_all
  show ?thesis
  proof (cases "findInCurrentScope S4 x")
    case True
    with add ok4(1) s5 show ?thesis
      by auto
  next
    case False
    with add have S1: "addSymbol FunctionClass x (FunctionTy l tRet) S4 = Inr S1"
      and s1: "s1 = putTypeDecor n (FunctionTy l tRet) s5"
      by (auto simp: bnd_eq_Inr addFunction_def)
    from tRet [OF False] ok2(3) have "noErrorTy (FunctionTy l tRet)"
      by (simp add: noErrorTy_def)
    from addSymbol_noErrorSymbols [OF S1 ok4(1) this] s1 s5 show ?thesis
      by simp
  qed
qed

lemma visitFunctions_sym_ok:
  "visitFunctions_sym fs (S, s) = Inr (S1, s1) \<Longrightarrow> noErrorSymbols S \<Longrightarrow> noErrorDecor s \<Longrightarrow>
   noErrorSymbols S1 \<and> noErrorDecor s1"
proof (induction fs arbitrary: S s)
  case Nil
  then show ?case by simp
next
  case (Cons f fs)
  from Cons.prems(1) obtain S0 s0 where
    f: "visitFunction_sym f (S, s) = Inr (S0, s0)" and
    rest: "visitFunctions_sym fs (S0, s0) = Inr (S1, s1)"
    by (auto simp: bnd_eq_Inr)
  from visitFunction_sym_ok [OF f Cons.prems(2,3)] Cons.IH [OF rest] show ?case
    by simp
qed

lemma visitProgram_sym_noErrorSymbols:
  assumes "visitProgram_sym p (emptySymTable, start_state) = Inr (S, s)"
  shows "noErrorSymbols S"
proof (cases p)
  case (Program n fs)
  obtain sc S0 where push: "pushNewScope GLOBAL_SCOPE_NAME emptySymTable = (sc, S0)"
    by (cases "pushNewScope GLOBAL_SCOPE_NAME emptySymTable")
  with assms Program obtain S2 where
    fs: "visitFunctions_sym fs (S0, putScopeDecor n sc start_state) = Inr (S2, s)" and
    pop: "popScope S2 = Inr S"
    by (auto simp: bnd_eq_Inr)
  from push have "noErrorSymbols S0 = noErrorSymbols emptySymTable"
    using scopes_noErrorSymbols(1) [of GLOBAL_SCOPE_NAME emptySymTable] by simp
  moreover
  have "noErrorSymbols emptySymTable" "noErrorDecor start_state"
    by (simp_all add: noErrorSymbols_def emptySymTable_def noErrorDecor_def start_state_def
        noDecorations_def)
  ultimately show ?thesis
    using visitFunctions_sym_ok [OF fs] pop by simp
qed

subsection \<open>Calls\<close>

lemma newTEMP_counter [simp]: "tempCounter (snd (newTEMP c)) = Suc (tempCounter c)"
  by (simp add: newTEMP_def)

lemma visitIdent_cg_mono:
  "visitIdent_cg S D x c = Inr (r, c') \<Longrightarrow> tempCounter c \<le> tempCounter c'"
  by (cases x) (auto simp: bnd_eq_Inr Let_def split_beta split: if_splits)

lemma pushParams_cg_mono:
  assumes "\<And>e c r c'. e \<in> set es \<Longrightarrow> visitExpr_cg S D e c = Inr (r, c') \<Longrightarrow>
             tempCounter c \<le> tempCounter c'"
  shows "pushParams_cg S D t i es c = Inr (p, c') \<Longrightarrow> tempCounter c \<le> tempCounter c'"
  using assms
proof (induction es arbitrary: i c p)
  case Nil
  then show ?case by simp
next
  case (Cons e es)
  from Cons.prems(1) obtain codAts c1 c2 rest where
    e: "visitExpr_cg S D e c = Inr (codAts, c1)" and
    c2: "c2 = c1 \<or> c2 = snd (newTEMP c1)" and
    rest: "pushParams_cg S D t (i + 1) es c2 = Inr (rest, c')"
    by (auto simp: bnd_eq_Inr Let_def split_beta split: if_splits)
  from Cons.prems(2) [OF _ e] have "tempCounter c \<le> tempCounter c1"
    by simp
  moreover from c2 have "tempCounter c1 \<le> tempCounter c2"
    by auto
  moreover from Cons.IH [OF rest] Cons.prems(2) have "tempCounter c2 \<le> tempCounter c'"
    by auto
  ultimately show ?case
    by simp
qed

lemma visitExpr_cg_mono:
  "visitExpr_cg S D e c = Inr (r, c') \<Longrightarrow> tempCounter c \<le> tempCounter c'"
proof (induction e arbitrary: c r c')
  case (Parenthesis n e)
  then show ?case by simp
next
  case (ArrayIndex n a e)
  from ArrayIndex.prems obtain r1 c1 r2 c2 where
    "visitIdent_cg S D a c = Inr (r1, c1)" "visitExpr_cg S D e c1 = Inr (r2, c2)"
    "c' = snd (newTEMP c2)"
    by (auto simp: bnd_eq_Inr Let_def split_beta)
  with ArrayIndex.IH [of c1 r2 c2] visitIdent_cg_mono [of S D a c r1 c1] show ?case
    by simp
next
  case (FuncCall n f es)
  from FuncCall.prems obtain r1 c1 t p c2 where
    "visitIdent_cg S D f c = Inr (r1, c1)" "pushParams_cg S D t 0 es c1 = Inr (p, c2)"
    "c' = snd (newTEMP c2)"
    by (auto simp: bnd_eq_Inr Let_def split_beta)
  with pushParams_cg_mono [of es S D t 0 c1 p c2] FuncCall.IH
    visitIdent_cg_mono [of S D f c r1 c1] show ?case
    by fastforce
next
  case (Unary n oper e)
  from Unary.prems obtain r1 c1 where
    "visitExpr_cg S D e c = Inr (r1, c1)" "c' = c1 \<or> c' = snd (newTEMP c1)"
    by (auto simp: bnd_eq_Inr Let_def split_beta split: if_splits)
  with Unary.IH [of c r1 c1] show ?case
    by auto
next
  case (Arithmetic n oper e1 e2)
  from Arithmetic.prems obtain r1 c1 r2 c2 where
    "visitExpr_cg S D e1 c = Inr (r1, c1)" "visitExpr_cg S D e2 c1 = Inr (r2, c2)"
    "tempCounter c2 \<le> tempCounter c'"
    by (cases oper) (auto simp: bnd_eq_Inr Let_def split_beta split: if_splits)
  with Arithmetic.IH(1) [of c r1 c1] Arithmetic.IH(2) [of c1 r2 c2] show ?case
    by simp
next
  case (Relational n oper e1 e2)
  from Relational.prems obtain r1 c1 r2 c2 where
    "visitExpr_cg S D e1 c = Inr (r1, c1)" "visitExpr_cg S D e2 c1 = Inr (r2, c2)"
    "tempCounter c2 \<le> tempCounter c'"
    by (auto simp: bnd_eq_Inr Let_def split_beta split: if_splits)
  with Relational.IH(1) [of c r1 c1] Relational.IH(2) [of c1 r2 c2] show ?case
    by simp
next
  case (Boolean n oper e1 e2)
  from Boolean.prems obtain r1 c1 r2 c2 where
    "visitExpr_cg S D e1 c = Inr (r1, c1)" "visitExpr_cg S D e2 c1 = Inr (r2, c2)"
    "tempCounter c2 \<le> tempCounter c'"
    by (auto simp: bnd_eq_Inr Let_def split_beta split: if_splits)
  with Boolean.IH(1) [of c r1 c1] Boolean.IH(2) [of c1 r2 c2] show ?case
    by simp
next
  case (Value_e n k lit)
  then show ?case
    by (auto simp: bnd_eq_Inr Let_def split_beta split: if_splits)
next
  case (ExprIdent n x)
  then show ?case
    by (simp add: visitIdent_cg_mono)
qed

lemma pushParams_cg_counter:
  "pushParams_cg S D t i es c = Inr (p, c') \<Longrightarrow> tempCounter c \<le> tempCounter c'"
  by (rule pushParams_cg_mono) (auto intro: visitExpr_cg_mono)

lemma pushParams_cg_chunks:
  assumes "pushParams_cg S D (FunctionTy ps r) i es c = Inr (pushes, c')"
      and "\<forall>j<length es. \<exists>te. typeDecor D (expr_id (es ! j)) = Some te \<and>
            (te = ps ! (i + j) \<or> (ps ! (i + j) = FloatTy \<and> te = IntegerTy))"
  shows "\<exists>chunks cs. length chunks = length es \<and> length cs = Suc (length es) \<and>
           cs ! 0 = c \<and> cs ! length es = c' \<and> pushes = concat chunks \<and>
           (\<forall>j<length es. argument_push S D (ps ! (i + j)) (es ! j)
                             (cs ! j) (chunks ! j) (cs ! Suc j)) \<and>
           (\<forall>j\<le>length es. tempCounter (cs ! j) \<le> tempCounter c')"
  using assms
proof (induction es arbitrary: i c pushes)
  case Nil
  then have "length [c] = Suc 0 \<and> [c] ! 0 = c \<and> [c] ! 0 = c' \<and> pushes = concat []"
    by simp
  then show ?case
    by (intro exI [of _ "[]"] exI [of _ "[c]"]) simp
next
  case (Cons e es)
  from Cons.prems(2) obtain te where
    te: "typeDecor D (expr_id e) = Some te" and
    acc: "te = ps ! i \<or> (ps ! i = FloatTy \<and> te = IntegerTy)"
    by fastforce
  from Cons.prems(2) have later:
    "\<forall>j<length es. \<exists>te. typeDecor D (expr_id (es ! j)) = Some te \<and>
       (te = ps ! (i + 1 + j) \<or> (ps ! (i + 1 + j) = FloatTy \<and> te = IntegerTy))"
    by fastforce
  let ?conv = "ps ! i = FloatTy \<and> te = IntegerTy"
  from Cons.prems(1) te obtain codAts c1 rest where
    e: "visitExpr_cg S D e c = Inr (codAts, c1)" and
    rest: "pushParams_cg S D (FunctionTy ps r) (i + 1) es
             (if isFloatTy (ps ! i) \<and> \<not> isFloatTy te then snd (newTEMP c1)
              else if isArrayTy (ps ! i) \<and> \<not> isParameterClass S (getText e)
              then snd (newTEMP c1) else c1) = Inr (rest, c')" and
    pushes: "pushes = code codAts @
          (let tmp = ''%'' @ fst (newTEMP c1) in
           if isFloatTy (ps ! i) \<and> \<not> isFloatTy te then [FLOAT tmp (addr codAts), PUSH (Some tmp)]
           else if isArrayTy (ps ! i) \<and> \<not> isParameterClass S (getText e)
           then [ALOAD tmp (addr codAts), PUSH (Some tmp)]
           else [PUSH (Some (addr codAts))]) @ rest"
    by (auto simp: bnd_eq_Inr Let_def split_beta split: if_splits)
  from acc have conv: "(isFloatTy (ps ! i) \<and> \<not> isFloatTy te) = ?conv"
    by (auto simp: isFloatTy_def)
  let ?c2 = "if ?conv then snd (newTEMP c1)
             else if isArrayTy (ps ! i) \<and> \<not> isParameterClass S (getText e)
             then snd (newTEMP c1) else c1"
  let ?chunk = "code codAts @
          (let tmp = ''%'' @ fst (newTEMP c1) in
           if ?conv then [FLOAT tmp (addr codAts), PUSH (Some tmp)]
           else if isArrayTy (ps ! i) \<and> \<not> isParameterClass S (getText e)
           then [ALOAD tmp (addr codAts), PUSH (Some tmp)]
           else [PUSH (Some (addr codAts))])"
  from rest conv have rest': "pushParams_cg S D (FunctionTy ps r) (i + 1) es ?c2 = Inr (rest, c')"
    by simp
  from Cons.IH [OF rest' later] obtain chunks cs where
    chunks: "length chunks = length es" "length cs = Suc (length es)" "cs ! 0 = ?c2"
      "cs ! length es = c'" "rest = concat chunks"
      "\<forall>j<length es. argument_push S D (ps ! (i + 1 + j)) (es ! j)
                        (cs ! j) (chunks ! j) (cs ! Suc j)"
      "\<forall>j\<le>length es. tempCounter (cs ! j) \<le> tempCounter c'"
    by blast
  have first: "argument_push S D (ps ! i) e c ?chunk ?c2"
    unfolding argument_push_def using e te acc visitExpr_cg_mono [OF e]
    by (intro exI [of _ codAts] exI [of _ c1] exI [of _ te]) (simp add: Let_def)
  have "\<forall>j\<le>length (e # es). tempCounter ((c # cs) ! j) \<le> tempCounter c'"
  proof (intro allI impI)
    fix j
    assume "j \<le> length (e # es)"
    then show "tempCounter ((c # cs) ! j) \<le> tempCounter c'"
      using pushParams_cg_counter [OF Cons.prems(1)] chunks(7) by (cases j) simp_all
  qed
  moreover
  have "\<forall>j<length (e # es). argument_push S D (ps ! (i + j)) ((e # es) ! j)
          ((c # cs) ! j) ((?chunk # chunks) ! j) ((c # cs) ! Suc j)"
  proof (intro allI impI)
    fix j
    assume "j < length (e # es)"
    then show "argument_push S D (ps ! (i + j)) ((e # es) ! j)
          ((c # cs) ! j) ((?chunk # chunks) ! j) ((c # cs) ! Suc j)"
      using first chunks(3) chunks(6) by (cases j) simp_all
  qed
  moreover have "length (?chunk # chunks) = length (e # es)"
    "length (c # cs) = Suc (length (e # es))" "(c # cs) ! 0 = c"
    "(c # cs) ! length (e # es) = c'"
    using chunks(1,2,4) by simp_all
  moreover have "pushes = concat (?chunk # chunks)"
    using pushes chunks(5) conv by simp
  ultimately show ?case
    by blast
qed


lemma visitIdent_cg_function:
  assumes "visitIdent_cg S D f c = Inr (codAts, c1)"
      and "typeDecor D (ident_id f) = Some (FunctionTy ps r)"
  shows "code codAts = [] \<and> c1 = c"
  using assms by (cases f) (auto simp: getType_d_def)

lemma digit_char_inj:
  assumes "d < 10" and "d' < 10" and "digit_char d = digit_char d'"
  shows "d = d'"
proof -
  have "distinct ''0123456789''"
    by simp
  from nth_eq_iff_index_eq [OF this, of d d'] assms show ?thesis
    by (simp add: digit_char_def)
qed

lemma to_string_nat_not_Nil: "to_string_nat n \<noteq> []"
  by (subst to_string_nat.simps) (simp del: to_string_nat.simps)

lemma to_string_nat_inj: "to_string_nat m = to_string_nat n \<Longrightarrow> m = n"
proof (induction m arbitrary: n rule: to_string_nat.induct)
  case (1 m)
  show ?case
  proof (cases "m < 10")
    case True
    with "1.prems" have one: "to_string_nat n = [digit_char m]"
      by (subst (asm) to_string_nat.simps) (simp del: to_string_nat.simps)
    have "n < 10"
    proof (rule ccontr)
      assume "\<not> n < 10"
      then have "to_string_nat n = to_string_nat (n div 10) @ [digit_char (n mod 10)]"
        by (subst to_string_nat.simps) (simp del: to_string_nat.simps)
      with one to_string_nat_not_Nil [of "n div 10"] show False
        by (simp del: to_string_nat.simps)
    qed
    with one have "digit_char n = digit_char m"
      by (subst (asm) to_string_nat.simps) (simp del: to_string_nat.simps)
    with True \<open>n < 10\<close> show ?thesis
      by (blast dest: digit_char_inj)
  next
    case False
    then have m: "to_string_nat m = to_string_nat (m div 10) @ [digit_char (m mod 10)]"
      by (subst to_string_nat.simps) (simp del: to_string_nat.simps)
    have "\<not> n < 10"
    proof
      assume "n < 10"
      then have "to_string_nat n = [digit_char n]"
        by (subst to_string_nat.simps) (simp del: to_string_nat.simps)
      with m "1.prems" to_string_nat_not_Nil [of "m div 10"] show False
        by (simp del: to_string_nat.simps)
    qed
    then have n: "to_string_nat n = to_string_nat (n div 10) @ [digit_char (n mod 10)]"
      by (subst to_string_nat.simps) (simp del: to_string_nat.simps)
    from m n "1.prems" have eq: "to_string_nat (m div 10) = to_string_nat (n div 10)"
      "digit_char (m mod 10) = digit_char (n mod 10)"
      by (simp_all del: to_string_nat.simps)
    from "1.IH" [OF False eq(1)] have "m div 10 = n div 10" .
    moreover from eq(2) have "m mod 10 = n mod 10"
      by (rule digit_char_inj [rotated 2]) simp_all
    ultimately show ?thesis
      by (metis div_mult_mod_eq)
  qed
qed


lemma addresses_within_simps [simp]:
  "addresses_within lo hi []"
  "addresses_within lo hi (a # as) = (temps_within lo hi a \<and> addresses_within lo hi as)"
  "addresses_within lo hi (as @ bs) = (addresses_within lo hi as \<and> addresses_within lo hi bs)"
  by (auto simp: addresses_within_def)

lemma addresses_of_simps [simp]:
  "addresses_of [] = []"
  "addresses_of (i # is) = addresses i @ addresses_of is"
  "addresses_of (is @ js) = addresses_of is @ addresses_of js"
  by (simp_all add: addresses_of_def)

lemma addresses_of_replicate_POP [simp]: "addresses_of (replicate n (POP None)) = []"
  by (induction n) simp_all

lemma temps_within_plain [simp]: "plain a \<Longrightarrow> temps_within lo hi a"
  by (simp add: temps_within_def)

lemma temps_within_newTEMP [simp]:
  "lo \<le> tempCounter c \<Longrightarrow> tempCounter c < hi \<Longrightarrow>
   temps_within lo hi (CHR ''%'' # fst (newTEMP c))"
  by (auto simp: temps_within_def newTEMP_def simp del: to_string_nat.simps)

lemma visitIdent_cg_within:
  assumes "plain (ident_text x)" and "visitIdent_cg S D x c = Inr (r, c')"
      and "lo \<le> tempCounter c" and "tempCounter c' \<le> hi"
  shows "addresses_within lo hi (addr r # addresses_of (code r))"
  using assms
  by (cases x) (auto simp: bnd_eq_Inr Let_def split_beta split: if_splits)

lemma pushParams_cg_within:
  assumes "\<And>e c r c' lo hi. e \<in> set es \<Longrightarrow> \<forall>x\<in>set (names_expr e). plain x \<Longrightarrow>
             visitExpr_cg S D e c = Inr (r, c') \<Longrightarrow> lo \<le> tempCounter c \<Longrightarrow>
             tempCounter c' \<le> hi \<Longrightarrow> addresses_within lo hi (addr r # addresses_of (code r))"
  shows "\<forall>x\<in>set (names_exprs es). plain x \<Longrightarrow>
         pushParams_cg S D t i es c = Inr (p, c') \<Longrightarrow> lo \<le> tempCounter c \<Longrightarrow>
         tempCounter c' \<le> hi \<Longrightarrow> addresses_within lo hi (addresses_of p)"
  using assms
proof (induction es arbitrary: i c p)
  case Nil
  then show ?case by simp
next
  case (Cons e es)
  from Cons.prems(2) obtain codAts c1 p0 te where
    e: "visitExpr_cg S D e c = Inr (codAts, c1)" and
    gp: "getParameterType t i = Inr p0" and
    te: "typeDecor D (expr_id e) = Some te"
    by (auto simp: bnd_eq_Inr)
  with Cons.prems(2) obtain rest where
    rest: "pushParams_cg S D t (i + 1) es
             (if isFloatTy p0 \<and> \<not> isFloatTy te then snd (newTEMP c1)
              else if isArrayTy p0 \<and> \<not> isParameterClass S (getText e)
              then snd (newTEMP c1) else c1) = Inr (rest, c')" and
    p: "p = code codAts @
          (let tmp = ''%'' @ fst (newTEMP c1) in
           if isFloatTy p0 \<and> \<not> isFloatTy te then [FLOAT tmp (addr codAts), PUSH (Some tmp)]
           else if isArrayTy p0 \<and> \<not> isParameterClass S (getText e)
           then [ALOAD tmp (addr codAts), PUSH (Some tmp)]
           else [PUSH (Some (addr codAts))]) @ rest"
    by (auto simp: bnd_eq_Inr Let_def split_beta split: if_splits)
  let ?c2 = "if isFloatTy p0 \<and> \<not> isFloatTy te then snd (newTEMP c1)
              else if isArrayTy p0 \<and> \<not> isParameterClass S (getText e)
              then snd (newTEMP c1) else c1"
  have c12: "tempCounter c1 \<le> tempCounter ?c2"
    by simp
  from pushParams_cg_counter [OF rest] have c2': "tempCounter ?c2 \<le> tempCounter c'" .
  from visitExpr_cg_mono [OF e] have c01: "tempCounter c \<le> tempCounter c1" .
  from Cons.prems(1) have plain: "\<forall>x\<in>set (names_expr e). plain x"
    "\<forall>x\<in>set (names_exprs es). plain x"
    by simp_all
  from c12 c2' Cons.prems(4) have "tempCounter c1 \<le> hi"
    by simp
  from Cons.prems(5) [OF _ plain(1) e Cons.prems(3) this]
  have first: "addresses_within lo hi (addr codAts # addresses_of (code codAts))"
    by simp
  have "addresses_within lo hi (addresses_of rest)"
  proof (rule Cons.IH [OF plain(2) rest])
    from c01 c12 Cons.prems(3) show "lo \<le> tempCounter ?c2"
      by (rule_tac order_trans [OF _ c12]) simp
    show "tempCounter c' \<le> hi"
      by (rule Cons.prems(4))
  next
    fix ea ca ra ca' loa hia
    assume "ea \<in> set es" "\<forall>x\<in>set (names_expr ea). plain x"
      "visitExpr_cg S D ea ca = Inr (ra, ca')" "loa \<le> tempCounter ca" "tempCounter ca' \<le> hia"
    then show "addresses_within loa hia (addr ra # addresses_of (code ra))"
      using Cons.prems(5) [of ea ca ra ca' loa hia] by simp
  qed
  moreover have "lo \<le> tempCounter c1"
    using c01 Cons.prems(3) by simp
  moreover have "isFloatTy p0 \<and> \<not> isFloatTy te \<or>
      isArrayTy p0 \<and> \<not> isParameterClass S (getText e) \<Longrightarrow> tempCounter c1 < hi"
    using c2' Cons.prems(4) by (auto split: if_splits)
  ultimately show ?case
    using first p by (auto simp: Let_def)
qed

lemma visitExpr_cg_within:
  "\<forall>x\<in>set (names_expr e). plain x \<Longrightarrow> visitExpr_cg S D e c = Inr (r, c') \<Longrightarrow>
   lo \<le> tempCounter c \<Longrightarrow> tempCounter c' \<le> hi \<Longrightarrow>
   addresses_within lo hi (addr r # addresses_of (code r))"
proof (induction e arbitrary: c r c' lo hi)
  case (Parenthesis n e)
  then show ?case by simp
next
  case (ArrayIndex n a e)
  from ArrayIndex.prems(2) obtain r1 c1 r2 c2 where
    a: "visitIdent_cg S D a c = Inr (r1, c1)" and e: "visitExpr_cg S D e c1 = Inr (r2, c2)" and
    r: "r = r1\<lparr>addr := ''%'' @ fst (newTEMP c2),
                code := code r1 @ code r2 @
                  [LOADX (''%'' @ fst (newTEMP c2)) (addr r1) (addr r2)]\<rparr>"
       "c' = snd (newTEMP c2)"
    by (auto simp: bnd_eq_Inr Let_def split_beta)
  from visitIdent_cg_mono [OF a] visitExpr_cg_mono [OF e] r(2) ArrayIndex.prems(3,4)
  have le: "lo \<le> tempCounter c1" "tempCounter c1 \<le> hi" "lo \<le> tempCounter c2"
    "tempCounter c2 < hi"
    by simp_all
  from visitIdent_cg_within [OF _ a ArrayIndex.prems(3) le(2)] ArrayIndex.prems(1)
  have "addresses_within lo hi (addr r1 # addresses_of (code r1))"
    by simp
  moreover from ArrayIndex.IH [OF _ e le(1)] le(4) ArrayIndex.prems(1)
  have "addresses_within lo hi (addr r2 # addresses_of (code r2))"
    by simp
  ultimately show ?case
    using r le by simp
next
  case (FuncCall n f es)
  from FuncCall.prems(2) obtain r1 c1 t p c2 where
    f: "visitIdent_cg S D f c = Inr (r1, c1)" and
    args: "pushParams_cg S D t 0 es c1 = Inr (p, c2)" and
    r: "r = r1\<lparr>addr := ''%'' @ fst (newTEMP c2),
                code := code r1 @ [PUSH None] @ p @ [CALL (ident_text f)] @
                        replicate (length es) (POP None) @
                        [POP (Some (''%'' @ fst (newTEMP c2)))]\<rparr>"
       "c' = snd (newTEMP c2)"
    by (auto simp: bnd_eq_Inr Let_def split_beta)
  from visitIdent_cg_mono [OF f] pushParams_cg_counter [OF args] r(2) FuncCall.prems(3,4)
  have le: "lo \<le> tempCounter c1" "tempCounter c1 \<le> hi" "lo \<le> tempCounter c2"
    "tempCounter c2 < hi"
    by simp_all
  from visitIdent_cg_within [OF _ f FuncCall.prems(3) le(2)] FuncCall.prems(1)
  have "addresses_within lo hi (addr r1 # addresses_of (code r1))"
    by simp
  moreover have "addresses_within lo hi (addresses_of p)"
    by (rule pushParams_cg_within [OF _ _ args le(1)])
       (use FuncCall.IH FuncCall.prems(1) le(4) in auto)
  ultimately show ?case
    using r le by simp
next
  case (Unary n oper e)
  from Unary.prems(2) obtain r1 c1 where
    e: "visitExpr_cg S D e c = Inr (r1, c1)"
    by (auto simp: bnd_eq_Inr)
  from visitExpr_cg_mono [OF e] Unary.prems(3) have le: "lo \<le> tempCounter c1"
    by simp
  from Unary.prems(2) e have up: "tempCounter c1 \<le> tempCounter c'"
    by (auto simp: bnd_eq_Inr Let_def split_beta split: if_splits)
  from Unary.IH [OF _ e Unary.prems(3)] up Unary.prems(1,4)
  have "addresses_within lo hi (addr r1 # addresses_of (code r1))"
    by simp
  with Unary.prems(2,4) e le show ?case
    by (auto simp: bnd_eq_Inr Let_def split_beta split: if_splits)
next
  case (Arithmetic n oper e1 e2)
  from Arithmetic.prems(2) obtain r1 c1 r2 c2 where
    e1: "visitExpr_cg S D e1 c = Inr (r1, c1)" and e2: "visitExpr_cg S D e2 c1 = Inr (r2, c2)"
    by (auto simp: bnd_eq_Inr)
  from Arithmetic.prems(2) e1 e2 have up: "tempCounter c2 < tempCounter c'"
    by (cases oper) (auto simp: bnd_eq_Inr Let_def split_beta split: if_splits)
  from visitExpr_cg_mono [OF e1] visitExpr_cg_mono [OF e2] Arithmetic.prems(3,4) up
  have le: "lo \<le> tempCounter c1" "tempCounter c1 \<le> hi" "lo \<le> tempCounter c2"
    "tempCounter c2 \<le> hi"
    by simp_all
  from Arithmetic.IH(1) [OF _ e1 Arithmetic.prems(3) le(2)] Arithmetic.prems(1)
  have "addresses_within lo hi (addr r1 # addresses_of (code r1))"
    by simp
  moreover from Arithmetic.IH(2) [OF _ e2 le(1) le(4)] Arithmetic.prems(1)
  have "addresses_within lo hi (addr r2 # addresses_of (code r2))"
    by simp
  ultimately show ?case
    using Arithmetic.prems(2,4) e1 e2 le
    by (cases oper) (auto simp: bnd_eq_Inr Let_def split_beta split: if_splits)
next
  case (Relational n oper e1 e2)
  from Relational.prems(2) obtain r1 c1 r2 c2 where
    e1: "visitExpr_cg S D e1 c = Inr (r1, c1)" and e2: "visitExpr_cg S D e2 c1 = Inr (r2, c2)"
    by (auto simp: bnd_eq_Inr)
  from Relational.prems(2) e1 e2 have up: "tempCounter c2 < tempCounter c'"
    by (auto simp: bnd_eq_Inr Let_def split_beta split: if_splits)
  from visitExpr_cg_mono [OF e1] visitExpr_cg_mono [OF e2] Relational.prems(3,4) up
  have le: "lo \<le> tempCounter c1" "tempCounter c1 \<le> hi" "lo \<le> tempCounter c2"
    "tempCounter c2 \<le> hi"
    by simp_all
  from Relational.IH(1) [OF _ e1 Relational.prems(3) le(2)] Relational.prems(1)
  have "addresses_within lo hi (addr r1 # addresses_of (code r1))"
    by simp
  moreover from Relational.IH(2) [OF _ e2 le(1) le(4)] Relational.prems(1)
  have "addresses_within lo hi (addr r2 # addresses_of (code r2))"
    by simp
  ultimately show ?case
    using Relational.prems(2,4) e1 e2 le
    by (cases oper) (auto simp: bnd_eq_Inr Let_def split_beta split: if_splits)
next
  case (Boolean n oper e1 e2)
  from Boolean.prems(2) obtain r1 c1 r2 c2 where
    e1: "visitExpr_cg S D e1 c = Inr (r1, c1)" and e2: "visitExpr_cg S D e2 c1 = Inr (r2, c2)"
    by (auto simp: bnd_eq_Inr)
  from Boolean.prems(2) e1 e2 have up: "tempCounter c2 < tempCounter c'"
    by (auto simp: bnd_eq_Inr Let_def split_beta split: if_splits)
  from visitExpr_cg_mono [OF e1] visitExpr_cg_mono [OF e2] Boolean.prems(3,4) up
  have le: "lo \<le> tempCounter c1" "tempCounter c1 \<le> hi" "lo \<le> tempCounter c2"
    "tempCounter c2 \<le> hi"
    by simp_all
  from Boolean.IH(1) [OF _ e1 Boolean.prems(3) le(2)] Boolean.prems(1)
  have "addresses_within lo hi (addr r1 # addresses_of (code r1))"
    by simp
  moreover from Boolean.IH(2) [OF _ e2 le(1) le(4)] Boolean.prems(1)
  have "addresses_within lo hi (addr r2 # addresses_of (code r2))"
    by simp
  ultimately show ?case
    using Boolean.prems(2,4) e1 e2 le
    by (cases oper) (auto simp: bnd_eq_Inr Let_def split_beta split: if_splits)
next
  case (Value_e n k lit)
  then show ?case
    by (auto simp: bnd_eq_Inr Let_def split_beta split: if_splits)
next
  case (ExprIdent n x)
  from ExprIdent.prems(2) have "visitIdent_cg S D x c = Inr (r, c')"
    by simp
  from visitIdent_cg_within [OF _ this ExprIdent.prems(3,4)] ExprIdent.prems(1) show ?case
    by simp
qed


lemma pushParams_cg_addresses:
  assumes "\<forall>x\<in>set (names_exprs es). plain x"
      and "pushParams_cg S D t i es c = Inr (p, c')"
  shows "addresses_within (tempCounter c) (tempCounter c') (addresses_of p)"
proof (rule pushParams_cg_within [OF _ assms])
  fix e ca r ca' lo hi
  assume "\<forall>x\<in>set (names_expr e). plain x" "visitExpr_cg S D e ca = Inr (r, ca')"
    "lo \<le> tempCounter ca" "tempCounter ca' \<le> hi"
  then show "addresses_within lo hi (addr r # addresses_of (code r))"
    by (rule visitExpr_cg_within)
qed simp_all

lemma newTEMP_fresh:
  assumes "addresses_within lo (tempCounter c) as"
  shows "''%'' @ fst (newTEMP c) \<notin> set as"
proof
  assume "''%'' @ fst (newTEMP c) \<in> set as"
  with assms have "temps_within lo (tempCounter c) (''%'' @ fst (newTEMP c))"
    by (simp add: addresses_within_def)
  then obtain k where "k < tempCounter c" "to_string_nat (tempCounter c) = to_string_nat k"
    by (auto simp: temps_within_def plain_def newTEMP_def simp del: to_string_nat.simps)
  with to_string_nat_inj show False
    by fastforce
qed

text \<open>
  Claim C6. Let the symbol table give no symbol a type with \<open>Error\<close> in it (the
  symbol collector registers none, by \<open>visitProgram_sym_noErrorSymbols\<close>), and take
  a call whose node identities are pairwise distinct, which the type checker
  visits without a new diagnostic and which the code generator lowers with the
  resulting decorations, the counters standing at \<open>c\<close> before the call and at
  \<open>c'\<close> after it. Then the callee is decorated with a function type whose arity
  is the number of arguments, and the counters pass through \<open>cs ! 0 = c\<close>,
  \<open>cs ! 1\<close>, ..., one value after each argument, never decreasing.

  For a call expression the return type is not Void and the code is: one bare
  \<open>PUSH\<close>; for each argument in order its \<open>argument_push\<close> from \<open>cs ! j\<close> to
  \<open>cs ! Suc j\<close> (its code, a \<open>FLOAT\<close> exactly when the declared parameter is
  Float and the argument is Integer, and the \<open>PUSH\<close> of the address); \<open>CALL\<close>;
  one bare \<open>POP\<close> per argument; and one \<open>POP\<close> into the temporary that the
  counter names after the last argument, which is taken now and is the address of
  the expression. That temporary is fresh: when the identifiers of the arguments
  are plain names, it is the address of no earlier instruction of the call.

  For a procedure call the code is the same with the first \<open>PUSH\<close> present
  exactly when the return type is not Void, and with a last bare \<open>POP\<close> exactly
  then; no temporary is taken after the last argument.
\<close>

theorem call_lowering:
  assumes ok: "noErrorSymbols S"
      and ids: "distinct (n # ident_id f # ids_exprs es)"
  shows
    "(visitExpr_tc S (FuncCall n f es) s = Inr s' \<and> Errors s' = Errors s \<and>
      visitExpr_cg S (Decorations s') (FuncCall n f es) c = Inr (codAts, c') \<longrightarrow>
      (\<exists>ps r chunks cs.
         typeDecor (Decorations s') (ident_id f) = Some (FunctionTy ps r) \<and>
         r \<noteq> VoidTy \<and> length ps = length es \<and> length chunks = length es \<and>
         length cs = Suc (length es) \<and> cs ! 0 = c \<and>
         (\<forall>j<length es. argument_push S (Decorations s') (ps ! j) (es ! j)
                           (cs ! j) (chunks ! j) (cs ! Suc j)) \<and>
         code codAts =
           [PUSH None] @ concat chunks @ [CALL (ident_text f)] @
           replicate (length es) (POP None) @ [POP (Some (addr codAts))] \<and>
         (\<forall>j\<le>length es. tempCounter (cs ! j) \<le> tempCounter (cs ! length es)) \<and>
         addr codAts = ''%'' @ fst (newTEMP (cs ! length es)) \<and>
         c' = snd (newTEMP (cs ! length es))) \<and>
      ((\<forall>x\<in>set (names_exprs es). plain x) \<longrightarrow>
       addr codAts \<notin> set (addresses_of (butlast (code codAts))))) \<and>
     (visitStatement_tc S Tfunc (ProcCall n f es) s = Inr s' \<and> Errors s' = Errors s \<and>
      visitStatement_cg S (Decorations s') (ProcCall n f es) c = Inr (instrs, c') \<longrightarrow>
      (\<exists>ps r chunks cs.
         typeDecor (Decorations s') (ident_id f) = Some (FunctionTy ps r) \<and>
         length ps = length es \<and> length chunks = length es \<and>
         length cs = Suc (length es) \<and> cs ! 0 = c \<and> cs ! length es = c' \<and>
         (\<forall>j<length es. argument_push S (Decorations s') (ps ! j) (es ! j)
                           (cs ! j) (chunks ! j) (cs ! Suc j)) \<and>
         instrs =
           (if r \<noteq> VoidTy then [PUSH None] else []) @ concat chunks @
           [CALL (ident_text f)] @ replicate (length es) (POP None) @
           (if r \<noteq> VoidTy then [POP None] else [])))"
proof -
  have call: "(\<exists>ps r chunks cs.
         typeDecor (Decorations s') (ident_id f) = Some (FunctionTy ps r) \<and>
         r \<noteq> VoidTy \<and> length ps = length es \<and> length chunks = length es \<and>
         length cs = Suc (length es) \<and> cs ! 0 = c \<and>
         (\<forall>j<length es. argument_push S (Decorations s') (ps ! j) (es ! j)
                           (cs ! j) (chunks ! j) (cs ! Suc j)) \<and>
         code codAts =
           [PUSH None] @ concat chunks @ [CALL (ident_text f)] @
           replicate (length es) (POP None) @ [POP (Some (addr codAts))] \<and>
         (\<forall>j\<le>length es. tempCounter (cs ! j) \<le> tempCounter (cs ! length es)) \<and>
         addr codAts = ''%'' @ fst (newTEMP (cs ! length es)) \<and>
         c' = snd (newTEMP (cs ! length es))) \<and>
      ((\<forall>x\<in>set (names_exprs es). plain x) \<longrightarrow>
       addr codAts \<notin> set (addresses_of (butlast (code codAts))))"
    if tc: "visitExpr_tc S (FuncCall n f es) s = Inr s'"
      and noerr: "Errors s' = Errors s"
      and cg: "visitExpr_cg S (Decorations s') (FuncCall n f es) c = Inr (codAts, c')"
  proof -
    from ids have fresh: "ident_id f \<noteq> n" "ident_id f \<notin> set (ids_exprs es)"
      "n \<notin> set (ids_exprs es)" and dist: "distinct (ids_exprs es)"
      by auto
    from visitFuncCall_tc_accepted [OF tc noerr ok fresh] obtain ps r s5 where
      fn: "typeDecor (Decorations s') (ident_id f) = Some (FunctionTy ps r)"
      and noE: "noErrorTy (FunctionTy ps r)"
      and r: "r \<noteq> VoidTy" and len: "length ps = length es"
      and s5: "Errors s5 = Errors s"
      and args: "visitParams_tc S n (FunctionTy ps r) False 0 es s5 = Inr s'"
      by blast
    from noE have ps: "ErrorTy \<notin> set ps"
      by (simp add: noErrorTy_def)
    from s5 noerr have "Errors s' = Errors s5"
      by simp
    from visitParams_tc_accepted [OF ok ps dist args this] have acc:
      "\<forall>j<length es. \<exists>te. typeDecor (Decorations s') (expr_id (es ! j)) = Some te \<and>
         (te = ps ! (0 + j) \<or> (ps ! (0 + j) = FloatTy \<and> te = IntegerTy))" .
    from cg fn obtain codAts0 c1 pushes c2 where
      ident: "visitIdent_cg S (Decorations s') f c = Inr (codAts0, c1)" and
      loop: "pushParams_cg S (Decorations s') (FunctionTy ps r) 0 es c1 = Inr (pushes, c2)" and
      res: "codAts = codAts0\<lparr>addr := ''%'' @ fst (newTEMP c2),
                      code := code codAts0 @ [PUSH None] @ pushes @ [CALL (ident_text f)] @
                              replicate (length es) (POP None) @
                              [POP (Some (''%'' @ fst (newTEMP c2)))]\<rparr>"
           "c' = snd (newTEMP c2)"
      by (auto simp: bnd_eq_Inr Let_def split_beta)
    from visitIdent_cg_function [OF ident fn] have empty: "code codAts0 = []" "c1 = c"
      by simp_all
    from pushParams_cg_chunks [OF loop acc] obtain chunks cs where
      "length chunks = length es" "length cs = Suc (length es)" "cs ! 0 = c1"
      "cs ! length es = c2" "pushes = concat chunks"
      "\<forall>j<length es. argument_push S (Decorations s') (ps ! j) (es ! j)
                        (cs ! j) (chunks ! j) (cs ! Suc j)"
      "\<forall>j\<le>length es. tempCounter (cs ! j) \<le> tempCounter c2"
      by auto
    with fn r len res empty have main: "\<exists>ps r chunks cs.
           typeDecor (Decorations s') (ident_id f) = Some (FunctionTy ps r) \<and>
           r \<noteq> VoidTy \<and> length ps = length es \<and> length chunks = length es \<and>
           length cs = Suc (length es) \<and> cs ! 0 = c \<and>
           (\<forall>j<length es. argument_push S (Decorations s') (ps ! j) (es ! j)
                             (cs ! j) (chunks ! j) (cs ! Suc j)) \<and>
           code codAts =
             [PUSH None] @ concat chunks @ [CALL (ident_text f)] @
             replicate (length es) (POP None) @ [POP (Some (addr codAts))] \<and>
           (\<forall>j\<le>length es. tempCounter (cs ! j) \<le> tempCounter (cs ! length es)) \<and>
           addr codAts = ''%'' @ fst (newTEMP (cs ! length es)) \<and>
           c' = snd (newTEMP (cs ! length es))"
      by (intro exI [of _ ps] exI [of _ r] exI [of _ chunks] exI [of _ cs]) simp
    have fresh_temp: "addr codAts \<notin> set (addresses_of (butlast (code codAts)))"
      if plain: "\<forall>x\<in>set (names_exprs es). plain x"
    proof -
      from res(1) empty(1) have "code codAts =
          ([PUSH None] @ pushes @ [CALL (ident_text f)] @ replicate (length es) (POP None)) @
          [POP (Some (''%'' @ fst (newTEMP c2)))]"
        by simp
      then have "butlast (code codAts) =
          [PUSH None] @ pushes @ [CALL (ident_text f)] @ replicate (length es) (POP None)"
        by (simp only: butlast_snoc)
      then have "addresses_of (butlast (code codAts)) = addresses_of pushes"
        by simp
      moreover from res(1) have "addr codAts = ''%'' @ fst (newTEMP c2)"
        by simp
      ultimately show ?thesis
        using newTEMP_fresh [OF pushParams_cg_addresses [OF plain loop]] by simp
    qed
    from main fresh_temp show ?thesis
      by blast
  qed
  have proc: "\<exists>ps r chunks cs.
         typeDecor (Decorations s') (ident_id f) = Some (FunctionTy ps r) \<and>
         length ps = length es \<and> length chunks = length es \<and>
         length cs = Suc (length es) \<and> cs ! 0 = c \<and> cs ! length es = c' \<and>
         (\<forall>j<length es. argument_push S (Decorations s') (ps ! j) (es ! j)
                           (cs ! j) (chunks ! j) (cs ! Suc j)) \<and>
         instrs =
           (if r \<noteq> VoidTy then [PUSH None] else []) @ concat chunks @
           [CALL (ident_text f)] @ replicate (length es) (POP None) @
           (if r \<noteq> VoidTy then [POP None] else [])"
    if tc: "visitStatement_tc S Tfunc (ProcCall n f es) s = Inr s'"
      and noerr: "Errors s' = Errors s"
      and cg: "visitStatement_cg S (Decorations s') (ProcCall n f es) c = Inr (instrs, c')"
  proof -
    from ids have fresh: "ident_id f \<notin> set (ids_exprs es)" and dist: "distinct (ids_exprs es)"
      by auto
    from tc have tc': "visitProcCall_tc S n f es s = Inr s'"
      by simp
    from visitProcCall_tc_accepted [OF tc' noerr ok fresh] obtain ps r s3 where
      fn: "typeDecor (Decorations s') (ident_id f) = Some (FunctionTy ps r)"
      and noE: "noErrorTy (FunctionTy ps r)"
      and len: "length ps = length es"
      and s3: "Errors s3 = Errors s"
      and args: "visitParams_tc S n (FunctionTy ps r) False 0 es s3 = Inr s'"
      by blast
    from noE have ps: "ErrorTy \<notin> set ps"
      by (simp add: noErrorTy_def)
    from s3 noerr have "Errors s' = Errors s3"
      by simp
    from visitParams_tc_accepted [OF ok ps dist args this] have acc:
      "\<forall>j<length es. \<exists>te. typeDecor (Decorations s') (expr_id (es ! j)) = Some te \<and>
         (te = ps ! (0 + j) \<or> (ps ! (0 + j) = FloatTy \<and> te = IntegerTy))" .
    from cg fn obtain codAts0 c1 pushes where
      ident: "visitIdent_cg S (Decorations s') f c = Inr (codAts0, c1)" and
      loop: "pushParams_cg S (Decorations s') (FunctionTy ps r) 0 es c1 = Inr (pushes, c')" and
      res: "instrs = code codAts0 @ (if r \<noteq> VoidTy then [PUSH None] else []) @ pushes @
            [CALL (ident_text f)] @ replicate (length es) (POP None) @
            (if r \<noteq> VoidTy then [POP None] else [])"
      by (auto simp: visitProcCall_cg_def bnd_eq_Inr)
    from visitIdent_cg_function [OF ident fn] have empty: "code codAts0 = []" "c1 = c"
      by simp_all
    from pushParams_cg_chunks [OF loop acc] obtain chunks cs where
      "length chunks = length es" "length cs = Suc (length es)" "cs ! 0 = c1"
      "cs ! length es = c'" "pushes = concat chunks"
      "\<forall>j<length es. argument_push S (Decorations s') (ps ! j) (es ! j)
                        (cs ! j) (chunks ! j) (cs ! Suc j)"
      by auto
    with fn len res empty show ?thesis
      by (intro exI [of _ ps] exI [of _ r] exI [of _ chunks] exI [of _ cs]) simp
  qed
  from call proc show ?thesis
    by blast
qed

text \<open>
  The call \<open>g(x, a)\<close> in \<open>main\<close>, as an expression and as a statement, with
  \<open>g(v : float, w : array [3] of int) : int\<close>, \<open>x\<close> an integer and \<open>a\<close> a local
  array.
\<close>

theorem call_lowering_witness:
  "noErrorSymbols sample_table \<and>
   (\<exists>s'.
      visitExpr_tc sample_table (FuncCall 0 (Ident 1 ''g'') args_x_a) start_state = Inr s' \<and>
      Errors s' = Errors start_state \<and>
      visitExpr_cg sample_table (Decorations s') (FuncCall 0 (Ident 1 ''g'') args_x_a) reset =
        Inr (\<lparr>addr = ''%t2'', offs = [],
              code = [PUSH None, FLOAT ''%t0'' ''x'', PUSH (Some ''%t0''), ALOAD ''%t1'' ''a'',
                      PUSH (Some ''%t1''), CALL ''g'', POP None, POP None, POP (Some ''%t2'')]\<rparr>,
             \<lparr>tempCounter = 3, ifCounter = 0, whileCounter = 0\<rparr>) \<and>
      (\<exists>ps r chunks cs.
         typeDecor (Decorations s') 1 = Some (FunctionTy ps r) \<and> r \<noteq> VoidTy \<and>
         length ps = 2 \<and> length chunks = 2 \<and> length cs = 3 \<and> cs ! 0 = reset \<and>
         (\<forall>j<2. argument_push sample_table (Decorations s') (ps ! j) (args_x_a ! j)
                  (cs ! j) (chunks ! j) (cs ! Suc j)) \<and>
         [PUSH None, FLOAT ''%t0'' ''x'', PUSH (Some ''%t0''), ALOAD ''%t1'' ''a'',
          PUSH (Some ''%t1''), CALL ''g'', POP None, POP None, POP (Some ''%t2'')] =
         [PUSH None] @ concat chunks @ [CALL ''g''] @ replicate 2 (POP None) @
         [POP (Some ''%t2'')] \<and>
         (\<forall>j\<le>2. tempCounter (cs ! j) \<le> tempCounter (cs ! 2)) \<and>
         ''%t2'' = ''%'' @ fst (newTEMP (cs ! 2)) \<and>
         \<lparr>tempCounter = 3, ifCounter = 0, whileCounter = 0\<rparr> = snd (newTEMP (cs ! 2))) \<and>
      (\<forall>x\<in>set (names_exprs args_x_a). plain x) \<and>
      ''%t2'' \<notin> set (addresses_of
        [PUSH None, FLOAT ''%t0'' ''x'', PUSH (Some ''%t0''), ALOAD ''%t1'' ''a'',
         PUSH (Some ''%t1''), CALL ''g'', POP None, POP None])) \<and>
   (\<exists>s'.
      visitStatement_tc sample_table (FunctionTy [] VoidTy) (ProcCall 0 (Ident 1 ''g'') args_x_a)
        start_state = Inr s' \<and>
      Errors s' = Errors start_state \<and>
      visitStatement_cg sample_table (Decorations s') (ProcCall 0 (Ident 1 ''g'') args_x_a) reset =
        Inr ([PUSH None, FLOAT ''%t0'' ''x'', PUSH (Some ''%t0''), ALOAD ''%t1'' ''a'',
              PUSH (Some ''%t1''), CALL ''g'', POP None, POP None, POP None],
             \<lparr>tempCounter = 2, ifCounter = 0, whileCounter = 0\<rparr>) \<and>
      (\<exists>ps r chunks cs.
         typeDecor (Decorations s') 1 = Some (FunctionTy ps r) \<and>
         length ps = 2 \<and> length chunks = 2 \<and> length cs = 3 \<and> cs ! 0 = reset \<and>
         cs ! 2 = \<lparr>tempCounter = 2, ifCounter = 0, whileCounter = 0\<rparr> \<and>
         (\<forall>j<2. argument_push sample_table (Decorations s') (ps ! j) (args_x_a ! j)
                  (cs ! j) (chunks ! j) (cs ! Suc j)) \<and>
         [PUSH None, FLOAT ''%t0'' ''x'', PUSH (Some ''%t0''), ALOAD ''%t1'' ''a'',
          PUSH (Some ''%t1''), CALL ''g'', POP None, POP None, POP None] =
         (if r \<noteq> VoidTy then [PUSH None] else []) @ concat chunks @ [CALL ''g''] @
         replicate 2 (POP None) @ (if r \<noteq> VoidTy then [POP None] else [])))"
proof -
  have ok: "noErrorSymbols sample_table"
    by (simp add: noErrorSymbols_def sample_table_def noErrorTy_def)
  have ids: "distinct (0 # ident_id (Ident 1 ''g'') # ids_exprs args_x_a)"
    by (simp add: args_x_a_def)
  have len: "length args_x_a = 2"
    by (simp add: args_x_a_def)
  have "\<exists>s'. visitExpr_tc sample_table (FuncCall 0 (Ident 1 ''g'') args_x_a) start_state = Inr s' \<and>
      Errors s' = Errors start_state \<and>
      typeDecor (Decorations s') 1 = Some (FunctionTy [FloatTy, ArrayTy 3 IntegerTy] IntegerTy) \<and>
      typeDecor (Decorations s') 2 = Some IntegerTy \<and>
      typeDecor (Decorations s') 3 = Some IntegerTy \<and>
      typeDecor (Decorations s') 4 = Some (ArrayTy 3 IntegerTy) \<and>
      typeDecor (Decorations s') 5 = Some (ArrayTy 3 IntegerTy)"
    by (simp add: args_x_a_def sample_defs decor_defs Let_def isErrorTy_def isVoidTy_def
        equalTypes_def isFloatTy_def isIntegerTy_def)
  then obtain s1 where
    tc1: "visitExpr_tc sample_table (FuncCall 0 (Ident 1 ''g'') args_x_a) start_state = Inr s1" and
    ok1: "Errors s1 = Errors start_state" and
    ty1: "typeDecor (Decorations s1) 1 = Some (FunctionTy [FloatTy, ArrayTy 3 IntegerTy] IntegerTy)"
         "typeDecor (Decorations s1) 2 = Some IntegerTy"
         "typeDecor (Decorations s1) 3 = Some IntegerTy"
         "typeDecor (Decorations s1) 4 = Some (ArrayTy 3 IntegerTy)"
         "typeDecor (Decorations s1) 5 = Some (ArrayTy 3 IntegerTy)"
    by blast
  have cg1: "visitExpr_cg sample_table (Decorations s1) (FuncCall 0 (Ident 1 ''g'') args_x_a) reset =
      Inr (\<lparr>addr = ''%t2'', offs = [],
            code = [PUSH None, FLOAT ''%t0'' ''x'', PUSH (Some ''%t0''), ALOAD ''%t1'' ''a'',
                    PUSH (Some ''%t1''), CALL ''g'', POP None, POP None, POP (Some ''%t2'')]\<rparr>,
           \<lparr>tempCounter = 3, ifCounter = 0, whileCounter = 0\<rparr>)"
    using ty1
    by (simp add: args_x_a_def sample_defs getType_d_def newTEMP_def reset_def isFloatTy_def
        digit_char_def Let_def)
  have "\<exists>s'. visitStatement_tc sample_table (FunctionTy [] VoidTy)
        (ProcCall 0 (Ident 1 ''g'') args_x_a) start_state = Inr s' \<and>
      Errors s' = Errors start_state \<and>
      typeDecor (Decorations s') 1 = Some (FunctionTy [FloatTy, ArrayTy 3 IntegerTy] IntegerTy) \<and>
      typeDecor (Decorations s') 2 = Some IntegerTy \<and>
      typeDecor (Decorations s') 3 = Some IntegerTy \<and>
      typeDecor (Decorations s') 4 = Some (ArrayTy 3 IntegerTy) \<and>
      typeDecor (Decorations s') 5 = Some (ArrayTy 3 IntegerTy)"
    by (simp add: visitProcCall_tc_def args_x_a_def sample_defs decor_defs Let_def isErrorTy_def
        equalTypes_def isFloatTy_def isIntegerTy_def)
  then obtain s2 where
    tc2: "visitStatement_tc sample_table (FunctionTy [] VoidTy)
            (ProcCall 0 (Ident 1 ''g'') args_x_a) start_state = Inr s2" and
    ok2: "Errors s2 = Errors start_state" and
    ty2: "typeDecor (Decorations s2) 1 = Some (FunctionTy [FloatTy, ArrayTy 3 IntegerTy] IntegerTy)"
         "typeDecor (Decorations s2) 2 = Some IntegerTy"
         "typeDecor (Decorations s2) 3 = Some IntegerTy"
         "typeDecor (Decorations s2) 4 = Some (ArrayTy 3 IntegerTy)"
         "typeDecor (Decorations s2) 5 = Some (ArrayTy 3 IntegerTy)"
    by blast
  have cg2: "visitStatement_cg sample_table (Decorations s2) (ProcCall 0 (Ident 1 ''g'') args_x_a) reset =
      Inr ([PUSH None, FLOAT ''%t0'' ''x'', PUSH (Some ''%t0''), ALOAD ''%t1'' ''a'',
            PUSH (Some ''%t1''), CALL ''g'', POP None, POP None, POP None],
           \<lparr>tempCounter = 2, ifCounter = 0, whileCounter = 0\<rparr>)"
    using ty2
    by (simp add: visitProcCall_cg_def args_x_a_def sample_defs getType_d_def newTEMP_def reset_def
        isFloatTy_def digit_char_def Let_def)
  note inst = call_lowering [OF ok ids]
  note call = inst [THEN conjunct1, rule_format, OF conjI [OF tc1 conjI [OF ok1 cg1]]]
  have plain: "\<forall>x\<in>set (names_exprs args_x_a). plain x"
    by (simp add: args_x_a_def plain_def)
  from call [THEN conjunct2, THEN mp, OF plain]
  have fresh_temp: "''%t2'' \<notin> set (addresses_of
        [PUSH None, FLOAT ''%t0'' ''x'', PUSH (Some ''%t0''), ALOAD ''%t1'' ''a'',
         PUSH (Some ''%t1''), CALL ''g'', POP None, POP None])"
    by simp
  from call [THEN conjunct1]
  have "\<exists>ps r chunks cs.
         typeDecor (Decorations s1) 1 = Some (FunctionTy ps r) \<and> r \<noteq> VoidTy \<and>
         length ps = 2 \<and> length chunks = 2 \<and> length cs = 3 \<and> cs ! 0 = reset \<and>
         (\<forall>j<2. argument_push sample_table (Decorations s1) (ps ! j) (args_x_a ! j)
                  (cs ! j) (chunks ! j) (cs ! Suc j)) \<and>
         [PUSH None, FLOAT ''%t0'' ''x'', PUSH (Some ''%t0''), ALOAD ''%t1'' ''a'',
          PUSH (Some ''%t1''), CALL ''g'', POP None, POP None, POP (Some ''%t2'')] =
         [PUSH None] @ concat chunks @ [CALL ''g''] @ replicate 2 (POP None) @
         [POP (Some ''%t2'')] \<and>
         (\<forall>j\<le>2. tempCounter (cs ! j) \<le> tempCounter (cs ! 2)) \<and>
         ''%t2'' = ''%'' @ fst (newTEMP (cs ! 2)) \<and>
         \<lparr>tempCounter = 3, ifCounter = 0, whileCounter = 0\<rparr> = snd (newTEMP (cs ! 2))"
    unfolding len by (elim exE conjE) (intro exI conjI; simp)
  with tc1 ok1 cg1 plain fresh_temp have first: "\<exists>s'.
      visitExpr_tc sample_table (FuncCall 0 (Ident 1 ''g'') args_x_a) start_state = Inr s' \<and>
      Errors s' = Errors start_state \<and>
      visitExpr_cg sample_table (Decorations s') (FuncCall 0 (Ident 1 ''g'') args_x_a) reset =
        Inr (\<lparr>addr = ''%t2'', offs = [],
              code = [PUSH None, FLOAT ''%t0'' ''x'', PUSH (Some ''%t0''), ALOAD ''%t1'' ''a'',
                      PUSH (Some ''%t1''), CALL ''g'', POP None, POP None, POP (Some ''%t2'')]\<rparr>,
             \<lparr>tempCounter = 3, ifCounter = 0, whileCounter = 0\<rparr>) \<and>
      (\<exists>ps r chunks cs.
         typeDecor (Decorations s') 1 = Some (FunctionTy ps r) \<and> r \<noteq> VoidTy \<and>
         length ps = 2 \<and> length chunks = 2 \<and> length cs = 3 \<and> cs ! 0 = reset \<and>
         (\<forall>j<2. argument_push sample_table (Decorations s') (ps ! j) (args_x_a ! j)
                  (cs ! j) (chunks ! j) (cs ! Suc j)) \<and>
         [PUSH None, FLOAT ''%t0'' ''x'', PUSH (Some ''%t0''), ALOAD ''%t1'' ''a'',
          PUSH (Some ''%t1''), CALL ''g'', POP None, POP None, POP (Some ''%t2'')] =
         [PUSH None] @ concat chunks @ [CALL ''g''] @ replicate 2 (POP None) @
         [POP (Some ''%t2'')] \<and>
         (\<forall>j\<le>2. tempCounter (cs ! j) \<le> tempCounter (cs ! 2)) \<and>
         ''%t2'' = ''%'' @ fst (newTEMP (cs ! 2)) \<and>
         \<lparr>tempCounter = 3, ifCounter = 0, whileCounter = 0\<rparr> = snd (newTEMP (cs ! 2))) \<and>
      (\<forall>x\<in>set (names_exprs args_x_a). plain x) \<and>
      ''%t2'' \<notin> set (addresses_of
        [PUSH None, FLOAT ''%t0'' ''x'', PUSH (Some ''%t0''), ALOAD ''%t1'' ''a'',
         PUSH (Some ''%t1''), CALL ''g'', POP None, POP None])"
    by blast
  from inst [THEN conjunct2, rule_format, OF conjI [OF tc2 conjI [OF ok2 cg2]]]
  have "\<exists>ps r chunks cs.
         typeDecor (Decorations s2) 1 = Some (FunctionTy ps r) \<and>
         length ps = 2 \<and> length chunks = 2 \<and> length cs = 3 \<and> cs ! 0 = reset \<and>
         cs ! 2 = \<lparr>tempCounter = 2, ifCounter = 0, whileCounter = 0\<rparr> \<and>
         (\<forall>j<2. argument_push sample_table (Decorations s2) (ps ! j) (args_x_a ! j)
                  (cs ! j) (chunks ! j) (cs ! Suc j)) \<and>
         [PUSH None, FLOAT ''%t0'' ''x'', PUSH (Some ''%t0''), ALOAD ''%t1'' ''a'',
          PUSH (Some ''%t1''), CALL ''g'', POP None, POP None, POP None] =
         (if r \<noteq> VoidTy then [PUSH None] else []) @ concat chunks @ [CALL ''g''] @
         replicate 2 (POP None) @ (if r \<noteq> VoidTy then [POP None] else [])"
    unfolding len by (elim exE conjE) (intro exI conjI; simp)
  with tc2 ok2 cg2 have second: "\<exists>s'.
      visitStatement_tc sample_table (FunctionTy [] VoidTy) (ProcCall 0 (Ident 1 ''g'') args_x_a)
        start_state = Inr s' \<and>
      Errors s' = Errors start_state \<and>
      visitStatement_cg sample_table (Decorations s') (ProcCall 0 (Ident 1 ''g'') args_x_a) reset =
        Inr ([PUSH None, FLOAT ''%t0'' ''x'', PUSH (Some ''%t0''), ALOAD ''%t1'' ''a'',
              PUSH (Some ''%t1''), CALL ''g'', POP None, POP None, POP None],
             \<lparr>tempCounter = 2, ifCounter = 0, whileCounter = 0\<rparr>) \<and>
      (\<exists>ps r chunks cs.
         typeDecor (Decorations s') 1 = Some (FunctionTy ps r) \<and>
         length ps = 2 \<and> length chunks = 2 \<and> length cs = 3 \<and> cs ! 0 = reset \<and>
         cs ! 2 = \<lparr>tempCounter = 2, ifCounter = 0, whileCounter = 0\<rparr> \<and>
         (\<forall>j<2. argument_push sample_table (Decorations s') (ps ! j) (args_x_a ! j)
                  (cs ! j) (chunks ! j) (cs ! Suc j)) \<and>
         [PUSH None, FLOAT ''%t0'' ''x'', PUSH (Some ''%t0''), ALOAD ''%t1'' ''a'',
          PUSH (Some ''%t1''), CALL ''g'', POP None, POP None, POP None] =
         (if r \<noteq> VoidTy then [PUSH None] else []) @ concat chunks @ [CALL ''g''] @
         replicate 2 (POP None) @ (if r \<noteq> VoidTy then [POP None] else []))"
    by blast
  from ok first second show ?thesis
    by (intro conjI)
qed

end
